(* ===== verification/Tipc_Prelude.thy ===== *)
theory Tipc_Prelude
  imports Main "HOL-Library.Word"
begin

text \<open>
  The prelude of the development: the machine types of the LP64 little-endian target the
  repository is built for, the outcome of a C function, the little-endian layout of integers in
  byte buffers, and the region operations (\<open>put_bytes\<close>, \<open>get_bytes\<close>) on which \<open>memcpy\<close>,
  \<open>memset\<close> and field accesses are modelled. The collections \<open>outcome_simps\<close> and
  \<open>region_simps\<close> carry the component proofs.
\<close>

unbundle bit_operations_syntax

named_theorems outcome_simps \<open>case analysis of the outcome of a function\<close>
named_theorems region_simps \<open>reads and writes of byte regions\<close>

section \<open>Machine types\<close>

type_synonym u8 = "8 word"
type_synonym u16 = "16 word"
type_synonym u32 = "32 word"
type_synonym u64 = "64 word"
type_synonym bytes = "u8 list"

text \<open>The value of a C \<open>int\<close> obtained by converting an unsigned 32 or 64 bit value.\<close>

definition c_int :: "'a::len word \<Rightarrow> int" where
  "c_int x = sint (ucast x :: u32)"

text \<open>The number a little-endian byte list stands for, and the bytes of a number.\<close>

primrec le_word :: "bytes \<Rightarrow> 'a::len word" where
  "le_word [] = 0"
| "le_word (b # bs) = ucast b OR push_bit 8 (le_word bs)"

primrec le_bytes :: "nat \<Rightarrow> 'a::len word \<Rightarrow> bytes" where
  "le_bytes 0 x = []"
| "le_bytes (Suc n) x = ucast x # le_bytes n (drop_bit 8 x)"

abbreviation le16 :: "u16 \<Rightarrow> bytes" where "le16 \<equiv> le_bytes 2"
abbreviation le32 :: "u32 \<Rightarrow> bytes" where "le32 \<equiv> le_bytes 4"
abbreviation le64 :: "u64 \<Rightarrow> bytes" where "le64 \<equiv> le_bytes 8"

text \<open>The bytes of a string literal.\<close>

definition cstr :: "string \<Rightarrow> bytes" where
  "cstr s = map of_char s"

section \<open>Outcomes\<close>

text \<open>
  A C function that runs on a state \<open>'w\<close> either returns a value and a new state, or calls the
  non-returning \<open>trusty_abort\<close> (\<open>Abort\<close>, with the state at that moment), or accesses memory
  outside of an object (\<open>Fault\<close>, the C program has undefined behaviour there), or is still in one
  of its loops when the iterations granted to that loop are used up (\<open>NoFuel\<close>).
\<close>

datatype ('a, 'w) outcome = Ret 'a 'w | Abort 'w | Fault | NoFuel

fun obind :: "('a, 'w) outcome \<Rightarrow> ('a \<Rightarrow> 'w \<Rightarrow> ('b, 'w) outcome) \<Rightarrow> ('b, 'w) outcome" where
  "obind (Ret a w) f = f a w"
| "obind (Abort w) f = Abort w"
| "obind Fault f = Fault"
| "obind NoFuel f = NoFuel"

text \<open>
  \<open>on_ret Q m\<close>: if \<open>m\<close> returns, its value and state satisfy \<open>Q\<close> (partial correctness).
  \<open>returns Q m\<close>: \<open>m\<close> returns and its value and state satisfy \<open>Q\<close> (total correctness).
  \<open>no_fault m\<close>: \<open>m\<close> stays inside of its objects.
\<close>

definition on_ret :: "('a \<Rightarrow> 'w \<Rightarrow> bool) \<Rightarrow> ('a, 'w) outcome \<Rightarrow> bool" where
  "on_ret Q m = (case m of Ret a w \<Rightarrow> Q a w | _ \<Rightarrow> True)"

definition returns :: "('a \<Rightarrow> 'w \<Rightarrow> bool) \<Rightarrow> ('a, 'w) outcome \<Rightarrow> bool" where
  "returns Q m = (case m of Ret a w \<Rightarrow> Q a w | _ \<Rightarrow> False)"

text \<open>
  \<open>keeps R w m\<close>: the state in which \<open>m\<close> ends, by a return or by an abort, is related to \<open>w\<close>.
\<close>

definition keeps :: "('w \<Rightarrow> 'w \<Rightarrow> bool) \<Rightarrow> 'w \<Rightarrow> ('a, 'w) outcome \<Rightarrow> bool" where
  "keeps R w m = (case m of Ret a w' \<Rightarrow> R w w' | Abort w' \<Rightarrow> R w w' | _ \<Rightarrow> True)"

definition no_fault :: "('a, 'w) outcome \<Rightarrow> bool" where
  "no_fault m \<longleftrightarrow> m \<noteq> Fault"

section \<open>Byte regions\<close>

definition put_bytes :: "nat \<Rightarrow> bytes \<Rightarrow> bytes \<Rightarrow> bytes" where
  "put_bytes off bs buf = take off buf @ bs @ drop (off + length bs) buf"

definition get_bytes :: "nat \<Rightarrow> nat \<Rightarrow> bytes \<Rightarrow> bytes" where
  "get_bytes off n buf = take n (drop off buf)"

section \<open>Lemmas: outcomes\<close>

lemma obind_assoc [simp]: "obind (obind m f) g = obind m (\<lambda>a w. obind (f a w) g)"
  by (cases m) simp_all

lemma obind_Ret_right [simp]: "obind m Ret = m"
  by (cases m) simp_all

lemma obind_eq_Ret [outcome_simps]:
  "obind m f = Ret b w' \<longleftrightarrow> (\<exists>a w. m = Ret a w \<and> f a w = Ret b w')"
  by (cases m) simp_all

lemma obind_eq_Abort [outcome_simps]:
  "obind m f = Abort w' \<longleftrightarrow> m = Abort w' \<or> (\<exists>a w. m = Ret a w \<and> f a w = Abort w')"
  by (cases m) auto

lemma obind_eq_Fault [outcome_simps]:
  "obind m f = Fault \<longleftrightarrow> m = Fault \<or> (\<exists>a w. m = Ret a w \<and> f a w = Fault)"
  by (cases m) simp_all

lemma obind_cong [fundef_cong]:
  "m = m' \<Longrightarrow> (\<And>a w. m' = Ret a w \<Longrightarrow> f a w = g a w) \<Longrightarrow> obind m f = obind m' g"
  by (cases m') simp_all

lemma on_ret_simps [simp]:
  "on_ret Q (Ret a w) = Q a w" "on_ret Q (Abort w)" "on_ret Q Fault" "on_ret Q NoFuel"
  by (simp_all add: on_ret_def)

lemma on_ret_obind [simp]: "on_ret Q (obind m f) = on_ret (\<lambda>a w. on_ret Q (f a w)) m"
  by (cases m) simp_all

lemma on_retD: "on_ret Q m \<Longrightarrow> m = Ret a w \<Longrightarrow> Q a w"
  by simp

lemma on_retI: "(\<And>a w. m = Ret a w \<Longrightarrow> Q a w) \<Longrightarrow> on_ret Q m"
  by (cases m) simp_all

lemma on_ret_bindI: "(\<And>a w. m = Ret a w \<Longrightarrow> on_ret Q (f a w)) \<Longrightarrow> on_ret Q (obind m f)"
  by (cases m) simp_all

lemma on_ret_if: "(b \<Longrightarrow> on_ret Q m) \<Longrightarrow> (\<not> b \<Longrightarrow> on_ret Q m') \<Longrightarrow> on_ret Q (if b then m else m')"
  by simp

lemma on_ret_case_prod:
  "(\<And>x y. p = (x, y) \<Longrightarrow> on_ret Q (f x y w)) \<Longrightarrow> on_ret Q ((case p of (x, y) \<Rightarrow> f x y) w)"
  by (cases p) simp

lemma on_ret_mono: "on_ret Q m \<Longrightarrow> (\<And>a w. m = Ret a w \<Longrightarrow> Q a w \<Longrightarrow> Q' a w) \<Longrightarrow> on_ret Q' m"
  by (cases m) simp_all

lemma returns_simps [simp]:
  "returns Q (Ret a w) = Q a w" "\<not> returns Q (Abort w)" "\<not> returns Q Fault" "\<not> returns Q NoFuel"
  by (simp_all add: returns_def)

lemma returns_obind [simp]: "returns Q (obind m f) = returns (\<lambda>a w. returns Q (f a w)) m"
  by (cases m) simp_all

lemma returns_obindI:
  "returns Q m \<Longrightarrow> (\<And>a w. Q a w \<Longrightarrow> returns R (f a w)) \<Longrightarrow> returns R (obind m f)"
  by (cases m) simp_all

lemma returns_iff: "returns Q m \<longleftrightarrow> (\<exists>a w. m = Ret a w \<and> Q a w)"
  by (cases m) simp_all

lemma returns_mono: "returns Q m \<Longrightarrow> (\<And>a w. m = Ret a w \<Longrightarrow> Q a w \<Longrightarrow> Q' a w) \<Longrightarrow> returns Q' m"
  by (cases m) simp_all

lemma keeps_simps [simp]:
  "keeps R w (Ret a w') = R w w'" "keeps R w (Abort w') = R w w'" "keeps R w Fault"
  "keeps R w NoFuel"
  by (simp_all add: keeps_def)

lemma keeps_obind:
  assumes "transp R" "keeps R w m" "\<And>a w'. m = Ret a w' \<Longrightarrow> keeps R w' (f a w')"
  shows "keeps R w (obind m f)"
proof (cases m)
  case (Ret a w')
  with assms(2,3) have "R w w'" "keeps R w' (f a w')" by simp_all
  with Ret assms(1) show ?thesis by (cases "f a w'") (auto dest: transpD)
qed (use assms(2) in simp_all)

lemma keeps_mono: "keeps R w m \<Longrightarrow> (\<And>w'. R w w' \<Longrightarrow> R' w w') \<Longrightarrow> keeps R' w m"
  by (cases m) simp_all

lemma keeps_imp: "keeps (\<lambda>w w'. b \<longrightarrow> R w w') w m \<longleftrightarrow> (b \<longrightarrow> keeps R w m)"
  by (cases m) simp_all

lemma keeps_from: "transp R \<Longrightarrow> R w w1 \<Longrightarrow> keeps R w1 m \<Longrightarrow> keeps R w m"
  by (cases m) (auto dest: transpD)

lemma keeps_ifI: "(b \<Longrightarrow> keeps R w m) \<Longrightarrow> (\<not> b \<Longrightarrow> keeps R w m') \<Longrightarrow> keeps R w (if b then m else m')"
  by simp

lemma keeps_if: "keeps R w m \<Longrightarrow> keeps R w m' \<Longrightarrow> keeps R w (if b then m else m')"
  by simp

lemma keeps_case_prod:
  "(\<And>x y. p = (x, y) \<Longrightarrow> keeps R w (f x y w')) \<Longrightarrow> keeps R w ((case p of (x, y) \<Rightarrow> f x y) w')"
  by (cases p) simp

lemma keeps_Ret: "keeps R w m \<Longrightarrow> m = Ret a w' \<Longrightarrow> R w w'"
  by simp

lemma no_fault_simps [simp]:
  "no_fault (Ret a w)" "no_fault (Abort w)" "\<not> no_fault Fault" "no_fault NoFuel"
  by (simp_all add: no_fault_def)

lemma no_fault_obind:
  "no_fault (obind m f) \<longleftrightarrow> no_fault m \<and> on_ret (\<lambda>a w. no_fault (f a w)) m"
  by (cases m) simp_all

lemma no_fault_if: "no_fault m \<Longrightarrow> no_fault m' \<Longrightarrow> no_fault (if b then m else m')"
  by simp

lemma no_fault_obindI:
  "no_fault m \<Longrightarrow> (\<And>a w. m = Ret a w \<Longrightarrow> no_fault (f a w)) \<Longrightarrow> no_fault (obind m f)"
  by (cases m) simp_all

section \<open>Lemmas: byte regions\<close>

lemma length_put_bytes [simp]:
  "off + length bs \<le> length buf \<Longrightarrow> length (put_bytes off bs buf) = length buf"
  by (simp add: put_bytes_def)

lemma length_get_bytes [simp]: "length (get_bytes off n buf) = min n (length buf - off)"
  by (simp add: get_bytes_def)

lemma put_bytes_Nil [simp]: "put_bytes off [] buf = buf"
  by (simp add: put_bytes_def)

lemma get_put_same [region_simps]:
  "off \<le> length buf \<Longrightarrow> get_bytes off (length bs) (put_bytes off bs buf) = bs"
  by (simp add: get_bytes_def put_bytes_def)

lemma get_put_before [region_simps]:
  "off' + n \<le> off \<Longrightarrow> off \<le> length buf \<Longrightarrow>
   get_bytes off' n (put_bytes off bs buf) = get_bytes off' n buf"
  by (simp add: get_bytes_def put_bytes_def drop_take)

lemma get_put_after [region_simps]:
  assumes "off + length bs \<le> off'" and "off \<le> length buf"
  shows "get_bytes off' n (put_bytes off bs buf) = get_bytes off' n buf"
proof -
  from assms have "drop (off' - off - length bs) (drop (off + length bs) buf) = drop off' buf"
    by simp
  with assms show ?thesis
    by (simp add: get_bytes_def put_bytes_def min_absorb2)
qed

lemma put_bytes_app:
  "off + length bs \<le> length xs \<Longrightarrow> put_bytes off bs (xs @ ys) = put_bytes off bs xs @ ys"
  by (simp add: put_bytes_def)

lemma put_bytes_append [region_simps]:
  assumes "off + length xs + length ys \<le> length buf"
  shows "put_bytes (off + length xs) ys (put_bytes off xs buf) = put_bytes off (xs @ ys) buf"
proof -
  have "drop (off + (length xs + length ys)) (take off buf @ xs @ drop (off + length xs) buf) =
      drop (off + (length xs + length ys)) buf"
    using assms by (simp add: min_absorb2 ac_simps)
  moreover have "take (off + length xs) (take off buf @ xs @ drop (off + length xs) buf) =
      take off buf @ xs"
    using assms by (simp add: min_absorb2)
  ultimately show ?thesis
    by (simp add: put_bytes_def add.assoc)
qed

section \<open>Lemmas: little-endian integers\<close>

lemma length_le_bytes [simp]: "length (le_bytes n x) = n"
  by (induction n arbitrary: x) simp_all

lemma bit_le_word: "bit (le_word bs :: 'a::len word) i \<longleftrightarrow>
   i < LENGTH('a) \<and> i < 8 * length bs \<and> bit (bs ! (i div 8)) (i mod 8)"
proof (induction bs arbitrary: i)
  case Nil
  show ?case by simp
next
  case (Cons b bs)
  show ?case
  proof (cases "i < 8")
    case True
    then show ?thesis
      by (auto simp: bit_or_iff bit_ucast_iff bit_push_bit_iff dest: bit_imp_le_length)
  next
    case False
    then have "i div 8 = Suc ((i - 8) div 8)" "i mod 8 = (i - 8) mod 8"
      by (simp_all add: le_div_geq le_mod_geq)
    with False Cons.IH [of "i - 8"] show ?thesis
      by (auto simp: bit_or_iff bit_ucast_iff bit_push_bit_iff dest: bit_imp_le_length)
  qed
qed

lemma nth_le_bytes: "i < n \<Longrightarrow> le_bytes n x ! i = ucast (drop_bit (8 * i) x)"
proof (induction n arbitrary: x i)
  case 0
  then show ?case by simp
next
  case (Suc n)
  then show ?case
    by (cases i) (simp_all add: drop_bit_drop_bit add.commute)
qed

lemma le_word_le_bytes: "le_word (le_bytes n x) = (take_bit (8 * n) x :: 'a::len word)"
proof (rule bit_word_eqI)
  fix i assume "i < LENGTH('a)"
  then show "bit (le_word (le_bytes n x) :: 'a word) i = bit (take_bit (8 * n) x) i"
  proof (cases "i < 8 * n")
    case True
    then have "i div 8 < n" by (simp add: less_mult_imp_div_less mult.commute)
    with True \<open>i < LENGTH('a)\<close> show ?thesis
      by (auto simp: bit_le_word nth_le_bytes bit_ucast_iff bit_drop_bit_eq bit_take_bit_iff)
  next
    case False
    then show ?thesis by (simp add: bit_le_word bit_take_bit_iff)
  qed
qed

lemma le_word_le_bytes_full:
  "LENGTH('a) \<le> 8 * n \<Longrightarrow> le_word (le_bytes n x) = (x :: 'a::len word)"
  by (simp add: le_word_le_bytes take_bit_word_eq_self)

lemma le_bytes_le_word:
  assumes "length bs = n" and "8 * n \<le> LENGTH('a::len)"
  shows "le_bytes n (le_word bs :: 'a word) = bs"
proof (rule nth_equalityI)
  show "length (le_bytes n (le_word bs :: 'a word)) = length bs" using assms by simp
  fix i assume "i < length (le_bytes n (le_word bs :: 'a word))"
  with assms have i: "i < n" by simp
  show "le_bytes n (le_word bs :: 'a word) ! i = bs ! i"
  proof (rule bit_word_eqI)
    fix j :: nat assume "j < LENGTH(8)"
    with i assms have "8 * i + j < LENGTH('a)" "8 * i + j < 8 * length bs" by auto
    with i \<open>j < LENGTH(8)\<close> show "bit (le_bytes n (le_word bs :: 'a word) ! i) j = bit (bs ! i) j"
      by (simp add: nth_le_bytes bit_ucast_iff bit_drop_bit_eq bit_le_word add.commute)
  qed
qed

lemma le_word_le16 [simp]: "le_word (le16 x) = x"
  and le_word_le32 [simp]: "le_word (le32 y) = y"
  and le_word_le64 [simp]: "le_word (le64 z) = z"
  by (simp_all add: le_word_le_bytes_full)

lemma le_bytes_zero [simp]: "le_bytes n 0 = replicate n 0"
  by (induction n) simp_all

lemma le_bytes_list:
  "le16 x = [ucast x, ucast (drop_bit 8 x)]"
  "le32 y = [ucast y, ucast (drop_bit 8 y), ucast (drop_bit 16 y), ucast (drop_bit 24 y)]"
  "le64 z = [ucast z, ucast (drop_bit 8 z), ucast (drop_bit 16 z), ucast (drop_bit 24 z),
     ucast (drop_bit 32 z), ucast (drop_bit 40 z), ucast (drop_bit 48 z), ucast (drop_bit 56 z)]"
  by (simp_all add: eval_nat_numeral drop_bit_drop_bit)

lemma word_halves:
  fixes x :: u64
  shows "x = push_bit 32 (drop_bit 32 x) OR ucast (ucast x :: u32)"
    and "(ucast (ucast x :: u32) :: u64) < 2 ^ 32" and "drop_bit 32 x < 2 ^ 32"
proof -
  show "x = push_bit 32 (drop_bit 32 x) OR ucast (ucast x :: u32)"
    by (rule bit_word_eqI) (auto simp: bit_or_iff bit_push_bit_iff bit_drop_bit_eq bit_ucast_iff)
  show "(ucast (ucast x :: u32) :: u64) < 2 ^ 32"
    using uint_lt2p [of "ucast x :: u32"] by (simp add: word_less_def uint_up_ucast is_up)
  show "drop_bit 32 x < 2 ^ 32"
    using uint_lt2p [of x] by (simp add: word_less_def drop_bit_eq_div uint_div_distrib)
qed

lemma ucast_of_nat_u32: "(ucast (of_nat k :: u64) :: u32) = of_nat k"
  by transfer simp

lemma unat_ucast_u32 [simp]: "unat (ucast (x :: u32) :: u64) = unat x"
  using unsigned_less [of x, where 'a = nat] by (simp add: unsigned_ucast_eq take_bit_nat_eq_self_iff)

lemma ucast_u32_eq_0 [simp]: "(ucast (x :: u32) :: u64) = 0 \<longleftrightarrow> x = 0"
  by (simp add: word_unat_eq_iff)

lemma c_int_of_nat: "k < 2 ^ 31 \<Longrightarrow> c_int (of_nat k :: u64) = int k"
  and c_int_of_nat_u32: "k < 2 ^ 31 \<Longrightarrow> c_int (of_nat k :: u32) = int k"
proof -
  assume "k < 2 ^ 31"
  then have "sint (of_nat k :: u32) = int k"
    by (simp add: signed_of_nat signed_take_bit_int_eq_self_iff)
  then show "c_int (of_nat k :: u64) = int k" "c_int (of_nat k :: u32) = int k"
    by (simp_all add: c_int_def ucast_of_nat_u32)
qed

section \<open>The interface of a wire format\<close>

text \<open>
  A wire format of fixed width: every value has an encoding of that many bytes, decoding an
  encoding gives the value back, and every byte list of the right length is the encoding of its
  decoding. A client needs no more than that to place a field in a message and to read it back.
\<close>

locale wire_format =
  fixes enc :: "'a \<Rightarrow> bytes" and dec :: "bytes \<Rightarrow> 'a" and width :: nat
  assumes width_enc: "length (enc x) = width"
    and dec_enc: "dec (enc x) = x"
    and enc_dec: "length bs = width \<Longrightarrow> enc (dec bs) = bs"
begin

lemma enc_inject: "enc x = enc y \<longleftrightarrow> x = y"
  using dec_enc by metis

lemma get_put_enc:
  assumes "off \<le> length buf"
  shows "dec (get_bytes off width (put_bytes off (enc x) buf)) = x"
  using get_put_same [OF assms, of "enc x"] by (simp add: width_enc dec_enc)

lemma dec_take_append: "dec (take width (enc x @ bs)) = x"
  by (simp add: width_enc dec_enc)

lemma put_dec_get:
  assumes "off + width \<le> length buf"
  shows "put_bytes off (enc (dec (get_bytes off width buf))) buf = buf"
proof -
  from assms have len: "length (get_bytes off width buf) = width" by simp
  then have "enc (dec (get_bytes off width buf)) = get_bytes off width buf" by (rule enc_dec)
  moreover from assms have "put_bytes off (get_bytes off width buf) buf = buf"
    by (simp add: put_bytes_def get_bytes_def min_def flip: drop_drop)
       (metis append_take_drop_id drop_drop add.commute)
  ultimately show ?thesis by simp
qed

end

interpretation wf16: wire_format le16 le_word 2
  by unfold_locales (simp_all add: le_bytes_le_word)

interpretation wf32: wire_format le32 le_word 4
  by unfold_locales (simp_all add: le_bytes_le_word)

interpretation wf64: wire_format le64 le_word 8
  by unfold_locales (simp_all add: le_bytes_le_word)

end
