(* ===== verification/Smc.thy ===== *)
theory Smc
  imports Tipc_Prelude
begin

text \<open>
  The boundary of the program: the numbers of the secure monitor calls and their error codes
  (\<open>smcall.h\<close>, \<open>sm_err.h\<close>, \<open>arm_ffa.h\<close>), the platform functions a port supplies
  (\<open>sysdeps.h\<close>) and the \<open>smc\<close> instruction itself (\<open>arch/arm/trusty_dev.c\<close>, \<open>smc.h\<close>).
  What lies on the other side, the secure monitor with Trusty and the platform's own code, is the
  parameter \<open>platform\<close> of every definition that reaches it. Every call that crosses the boundary
  is recorded in the field \<open>calls\<close>, so that properties can speak about their order.
\<close>

section \<open>Secure monitor call numbers (smcall.h)\<close>

definition SMC_IS_FASTCALL :: "u32 \<Rightarrow> bool" where
  "SMC_IS_FASTCALL smc_nr \<longleftrightarrow> smc_nr AND 0x80000000 \<noteq> 0"

definition SMC_IS_SMC64 :: "u32 \<Rightarrow> bool" where
  "SMC_IS_SMC64 smc_nr \<longleftrightarrow> smc_nr AND 0x40000000 \<noteq> 0"

definition SMC_ENTITY :: "u32 \<Rightarrow> u32" where
  "SMC_ENTITY smc_nr = drop_bit 24 (smc_nr AND 0x3F000000)"

definition SMC_FUNCTION :: "u32 \<Rightarrow> u32" where
  "SMC_FUNCTION smc_nr = smc_nr AND 0x0000FFFF"

definition SMC_NR :: "u32 \<Rightarrow> u32 \<Rightarrow> u32 \<Rightarrow> u32 \<Rightarrow> u32" where
  "SMC_NR entity fn fastcall smc64 =
     (push_bit 31 (fastcall AND 1) OR push_bit 30 (smc64 AND 1)) OR
     (push_bit 24 (entity AND 0x3F) OR (fn AND 0xFFFF))"

definition SMC_FASTCALL_NR :: "u32 \<Rightarrow> u32 \<Rightarrow> u32" where
  "SMC_FASTCALL_NR entity fn = SMC_NR entity fn 1 0"

definition SMC_STDCALL_NR :: "u32 \<Rightarrow> u32 \<Rightarrow> u32" where
  "SMC_STDCALL_NR entity fn = SMC_NR entity fn 0 0"

definition SMC_FASTCALL64_NR :: "u32 \<Rightarrow> u32 \<Rightarrow> u32" where
  "SMC_FASTCALL64_NR entity fn = SMC_NR entity fn 1 1"

definition SMC_STDCALL64_NR :: "u32 \<Rightarrow> u32 \<Rightarrow> u32" where
  "SMC_STDCALL64_NR entity fn = SMC_NR entity fn 0 1"

definition SMC_ENTITY_STD :: u32 where "SMC_ENTITY_STD = 4"
definition SMC_ENTITY_TRUSTED_OS :: u32 where "SMC_ENTITY_TRUSTED_OS = 50"
definition SMC_ENTITY_SECURE_MONITOR :: u32 where "SMC_ENTITY_SECURE_MONITOR = 60"
definition SMC_ENTITY_SHARED_MEMORY :: u32 where "SMC_ENTITY_SHARED_MEMORY = 4"

definition SMC_SC_RESTART_LAST :: u32 where
  "SMC_SC_RESTART_LAST = SMC_STDCALL_NR SMC_ENTITY_SECURE_MONITOR 0"
definition SMC_SC_RESTART_FIQ :: u32 where
  "SMC_SC_RESTART_FIQ = SMC_STDCALL_NR SMC_ENTITY_SECURE_MONITOR 2"
definition SMC_SC_NOP :: u32 where
  "SMC_SC_NOP = SMC_STDCALL_NR SMC_ENTITY_SECURE_MONITOR 3"
definition SMC_FC_GET_NEXT_IRQ :: u32 where
  "SMC_FC_GET_NEXT_IRQ = SMC_FASTCALL_NR SMC_ENTITY_SECURE_MONITOR 3"
definition TRUSTY_API_VERSION_MEM_OBJ :: u32 where "TRUSTY_API_VERSION_MEM_OBJ = 5"
definition TRUSTY_API_VERSION_CURRENT :: u32 where "TRUSTY_API_VERSION_CURRENT = 5"
definition SMC_FC_API_VERSION :: u32 where
  "SMC_FC_API_VERSION = SMC_FASTCALL_NR SMC_ENTITY_SECURE_MONITOR 11"
definition SMC_SC_TRUSTY_IPC_CREATE_QL_DEV :: u32 where
  "SMC_SC_TRUSTY_IPC_CREATE_QL_DEV = SMC_STDCALL_NR SMC_ENTITY_TRUSTED_OS 30"
definition SMC_SC_TRUSTY_IPC_SHUTDOWN_QL_DEV :: u32 where
  "SMC_SC_TRUSTY_IPC_SHUTDOWN_QL_DEV = SMC_STDCALL_NR SMC_ENTITY_TRUSTED_OS 31"
definition SMC_SC_TRUSTY_IPC_HANDLE_QL_DEV_CMD :: u32 where
  "SMC_SC_TRUSTY_IPC_HANDLE_QL_DEV_CMD = SMC_STDCALL_NR SMC_ENTITY_TRUSTED_OS 32"
definition SMC_FC_HANDLE_QL_TIPC_DEV_CMD :: u32 where
  "SMC_FC_HANDLE_QL_TIPC_DEV_CMD = SMC_FASTCALL_NR SMC_ENTITY_TRUSTED_OS 32"

section \<open>FF-A call numbers (arm\_ffa.h)\<close>

definition FFA_CURRENT_VERSION_MAJOR :: u64 where "FFA_CURRENT_VERSION_MAJOR = 1"
definition FFA_CURRENT_VERSION_MINOR :: u64 where "FFA_CURRENT_VERSION_MINOR = 0"
definition FFA_VERSION_TO_MAJOR :: "u64 \<Rightarrow> u64" where
  "FFA_VERSION_TO_MAJOR version = drop_bit 16 version"
definition FFA_VERSION_TO_MINOR :: "u64 \<Rightarrow> u64" where
  "FFA_VERSION_TO_MINOR version = version AND 0xffff"
definition FFA_VERSION :: "u64 \<Rightarrow> u64 \<Rightarrow> u64" where
  "FFA_VERSION major minor = push_bit 16 major OR minor"
definition FFA_CURRENT_VERSION :: u64 where
  "FFA_CURRENT_VERSION = FFA_VERSION FFA_CURRENT_VERSION_MAJOR FFA_CURRENT_VERSION_MINOR"

definition SMC_FASTCALL_NR_SHARED_MEMORY :: "u32 \<Rightarrow> u32" where
  "SMC_FASTCALL_NR_SHARED_MEMORY nr = SMC_FASTCALL_NR SMC_ENTITY_SHARED_MEMORY nr"
definition SMC_FASTCALL64_NR_SHARED_MEMORY :: "u32 \<Rightarrow> u32" where
  "SMC_FASTCALL64_NR_SHARED_MEMORY nr = SMC_FASTCALL64_NR SMC_ENTITY_SHARED_MEMORY nr"
definition SMC_FC_FFA_SUCCESS :: u32 where
  "SMC_FC_FFA_SUCCESS = SMC_FASTCALL_NR_SHARED_MEMORY 0x61"
definition SMC_FC_FFA_VERSION :: u32 where
  "SMC_FC_FFA_VERSION = SMC_FASTCALL_NR_SHARED_MEMORY 0x63"
definition SMC_FC_FFA_FEATURES :: u32 where
  "SMC_FC_FFA_FEATURES = SMC_FASTCALL_NR_SHARED_MEMORY 0x64"
definition SMC_FC_FFA_RXTX_MAP :: u32 where
  "SMC_FC_FFA_RXTX_MAP = SMC_FASTCALL_NR_SHARED_MEMORY 0x66"
definition SMC_FC64_FFA_RXTX_MAP :: u32 where
  "SMC_FC64_FFA_RXTX_MAP = SMC_FASTCALL64_NR_SHARED_MEMORY 0x66"
definition SMC_FC_FFA_RXTX_UNMAP :: u32 where
  "SMC_FC_FFA_RXTX_UNMAP = SMC_FASTCALL_NR_SHARED_MEMORY 0x67"
definition SMC_FC_FFA_ID_GET :: u32 where
  "SMC_FC_FFA_ID_GET = SMC_FASTCALL_NR_SHARED_MEMORY 0x69"
definition SMC_FC_FFA_MEM_SHARE :: u32 where
  "SMC_FC_FFA_MEM_SHARE = SMC_FASTCALL_NR_SHARED_MEMORY 0x73"
definition SMC_FC_FFA_MEM_RECLAIM :: u32 where
  "SMC_FC_FFA_MEM_RECLAIM = SMC_FASTCALL_NR_SHARED_MEMORY 0x77"

section \<open>Secure monitor error codes (sm\_err.h)\<close>

definition SM_ERR_UNDEFINED_SMC :: u32 where "SM_ERR_UNDEFINED_SMC = 0xFFFFFFFF"
definition SM_ERR_INTERRUPTED :: int where "SM_ERR_INTERRUPTED = -3"
definition SM_ERR_BUSY :: int where "SM_ERR_BUSY = -5"
definition SM_ERR_FIQ_INTERRUPTED :: int where "SM_ERR_FIQ_INTERRUPTED = -12"
definition SM_ERR_CPU_IDLE :: int where "SM_ERR_CPU_IDLE = -13"
definition SM_ERR_NOP_INTERRUPTED :: int where "SM_ERR_NOP_INTERRUPTED = -14"
definition SM_ERR_NOP_DONE :: int where "SM_ERR_NOP_DONE = -15"

section \<open>The platform and the machine state\<close>

record smc_ret8 =
  r0 :: u64
  r1 :: u64
  r2 :: u64
  r3 :: u64
  r4 :: u64
  r5 :: u64
  r6 :: u64
  r7 :: u64

record ns_mem_page_info =
  pi_attr :: u64
  pi_paddr :: u64
  pi_ffa_mem_attr :: u8
  pi_ffa_mem_perm :: u8

text \<open>
  The calls that leave the modelled code. An \<open>smc\<close> is recorded with what it returned in r0, an
  RPMB access (\<open>rpmb_storage_send\<close>) with the data of its reliable and plain writes and the size of
  its read.
\<close>

datatype ext_call =
    C_smc8 "u64 list" u64
  | C_idle bool
  | C_lock
  | C_unlock
  | C_irq_disable
  | C_irq_restore
  | C_alloc_pages u32 u64
  | C_free_pages u64 u32
  | C_calloc u64 u64 u64
  | C_free u64
  | C_rpmb bytes bytes u64

text \<open>Memory that the secure side can reach: page-allocated buffers by their virtual address.\<close>

type_synonym shared_mem = "u64 \<rightharpoonup> bytes"

text \<open>
  The platform: \<open>secmon\<close> is what happens at an \<open>smc #0\<close> with the eight argument registers,
  \<open>sysdep\<close> the effect of the \<open>sysdeps.h\<close> functions that return nothing, \<open>page_alloc\<close> and
  \<open>heap_alloc\<close> the results of \<open>trusty_alloc_pages\<close> and \<open>trusty_calloc\<close> (0 is NULL),
  \<open>encode_page_info\<close> the port's \<open>trusty_encode_page_info\<close>, \<open>junk\<close> the content of memory that
  nothing has initialised, and \<open>fuel\<close> the number of iterations each loop is granted.
\<close>

record 'e platform =
  secmon :: "u64 list \<Rightarrow> 'e \<Rightarrow> shared_mem \<Rightarrow> smc_ret8 \<times> 'e \<times> shared_mem"
  sysdep :: "ext_call \<Rightarrow> 'e \<Rightarrow> 'e"
  page_alloc :: "u32 \<Rightarrow> 'e \<Rightarrow> u64 \<times> 'e"
  heap_alloc :: "u64 \<Rightarrow> u64 \<Rightarrow> 'e \<Rightarrow> u64 \<times> 'e"
  encode_page_info :: "ns_mem_page_info \<Rightarrow> u64 \<Rightarrow> 'e \<Rightarrow> (int \<times> ns_mem_page_info) \<times> 'e"
  junk :: "nat \<Rightarrow> u8"
  fuel :: nat

text \<open>
  The machine state: \<open>env\<close> is the state of everything outside of the modelled code, \<open>calls\<close> the
  calls made to it so far and \<open>shm\<close> the shared memory. Components extend this record with their
  own variables.
\<close>

record 'e machine =
  env :: 'e
  calls :: "ext_call list"
  shm :: shared_mem

section \<open>Calls to the platform\<close>

text \<open>
  A function of \<open>sysdeps.h\<close> that returns nothing, such as \<open>trusty_idle\<close> or \<open>trusty_lock\<close>.
\<close>

definition sys_call ::
  "'e platform \<Rightarrow> ext_call \<Rightarrow> ('e, 'z) machine_scheme \<Rightarrow> (unit, ('e, 'z) machine_scheme) outcome"
where
  "sys_call P c w = Ret () (w\<lparr>env := sysdep P c (env w), calls := calls w @ [c]\<rparr>)"

definition smc8 ::
  "'e platform \<Rightarrow> u64 list \<Rightarrow> ('e, 'z) machine_scheme \<Rightarrow>
   (smc_ret8, ('e, 'z) machine_scheme) outcome"
where
  "smc8 P args w =
     (case secmon P args (env w) (shm w) of
        (ret, e, m) \<Rightarrow> Ret ret (w\<lparr>env := e, calls := calls w @ [C_smc8 args (r0 ret)], shm := m\<rparr>))"

definition smc ::
  "'e platform \<Rightarrow> u64 \<Rightarrow> u64 \<Rightarrow> u64 \<Rightarrow> u64 \<Rightarrow> ('e, 'z) machine_scheme \<Rightarrow>
   (u64, ('e, 'z) machine_scheme) outcome"
where
  "smc P a0 a1 a2 a3 w =
     obind (smc8 P [a0, a1, a2, a3, 0, 0, 0, 0] w) (\<lambda>ret w. Ret (r0 ret) w)"

definition PAGE_SIZE :: nat where "PAGE_SIZE = 4096"

definition uninit :: "'e platform \<Rightarrow> nat \<Rightarrow> bytes" where
  "uninit P n = map (junk P) [0..<n]"

definition trusty_alloc_pages ::
  "'e platform \<Rightarrow> u32 \<Rightarrow> ('e, 'z) machine_scheme \<Rightarrow> (u64, ('e, 'z) machine_scheme) outcome"
where
  "trusty_alloc_pages P count w =
     (case page_alloc P count (env w) of
        (va, e) \<Rightarrow>
          Ret va (w\<lparr>env := e, calls := calls w @ [C_alloc_pages count va],
                    shm := (if va = 0 then shm w
                            else (shm w)(va \<mapsto> uninit P (unat count * PAGE_SIZE)))\<rparr>))"

definition trusty_free_pages ::
  "'e platform \<Rightarrow> u64 \<Rightarrow> u32 \<Rightarrow> ('e, 'z) machine_scheme \<Rightarrow> (unit, ('e, 'z) machine_scheme) outcome"
where
  "trusty_free_pages P va count w =
     obind (sys_call P (C_free_pages va count) w) (\<lambda>_ w. Ret () (w\<lparr>shm := (shm w)(va := None)\<rparr>))"

definition trusty_calloc ::
  "'e platform \<Rightarrow> u64 \<Rightarrow> u64 \<Rightarrow> ('e, 'z) machine_scheme \<Rightarrow> (u64, ('e, 'z) machine_scheme) outcome"
where
  "trusty_calloc P n sz w =
     (case heap_alloc P n sz (env w) of
        (va, e) \<Rightarrow> Ret va (w\<lparr>env := e, calls := calls w @ [C_calloc n sz va]\<rparr>))"

definition trusty_encode_page_info ::
  "'e platform \<Rightarrow> ns_mem_page_info \<Rightarrow> u64 \<Rightarrow> ('e, 'z) machine_scheme \<Rightarrow>
   (int \<times> ns_mem_page_info, ('e, 'z) machine_scheme) outcome"
where
  "trusty_encode_page_info P pinfo va w =
     (case encode_page_info P pinfo va (env w) of (res, e) \<Rightarrow> Ret res (w\<lparr>env := e\<rparr>))"

text \<open>Accesses to the shared memory at an offset of a buffer.\<close>

definition shm_write ::
  "u64 \<Rightarrow> nat \<Rightarrow> bytes \<Rightarrow> ('e, 'z) machine_scheme \<Rightarrow> (unit, ('e, 'z) machine_scheme) outcome"
where
  "shm_write va off bs w =
     (case shm w va of
        None \<Rightarrow> Fault
      | Some buf \<Rightarrow>
          if off + length bs \<le> length buf
          then Ret () (w\<lparr>shm := (shm w)(va \<mapsto> put_bytes off bs buf)\<rparr>) else Fault)"

definition shm_read ::
  "u64 \<Rightarrow> nat \<Rightarrow> nat \<Rightarrow> ('e, 'z) machine_scheme \<Rightarrow> (bytes, ('e, 'z) machine_scheme) outcome"
where
  "shm_read va off n w =
     (case shm w va of
        None \<Rightarrow> Fault
      | Some buf \<Rightarrow> if off + n \<le> length buf then Ret (get_bytes off n buf) w else Fault)"

text \<open>The state in which the buffer at \<open>va\<close> has the content \<open>b\<close>.\<close>

definition set_buf :: "u64 \<Rightarrow> bytes \<Rightarrow> ('e, 'z) machine_scheme \<Rightarrow> ('e, 'z) machine_scheme" where
  "set_buf va b w = w\<lparr>shm := (shm w)(va \<mapsto> b)\<rparr>"

text \<open>
  \<open>stays\<close>: what the lower layers leave alone. The fields that a component adds to the machine
  state are unchanged and the record of calls only grows.
\<close>

definition stays :: "('e, 'z) machine_scheme \<Rightarrow> ('e, 'z) machine_scheme \<Rightarrow> bool" where
  "stays w w' \<longleftrightarrow> machine.more w' = machine.more w \<and> (\<exists>t. calls w' = calls w @ t)"

text \<open>
  \<open>same_shape\<close>: the same buffers exist and have the same sizes. \<open>keeps_buffers P\<close> is the
  documented behaviour of a secure monitor call the code relies on: it may write shared buffers,
  but it neither adds nor removes nor resizes them.
\<close>

definition same_shape :: "shared_mem \<Rightarrow> shared_mem \<Rightarrow> bool" where
  "same_shape m m' \<longleftrightarrow> (\<forall>a. map_option length (m' a) = map_option length (m a))"

definition keeps_buffers :: "'e platform \<Rightarrow> bool" where
  "keeps_buffers P \<longleftrightarrow> (\<forall>args e m. same_shape m (snd (snd (secmon P args e m))))"

definition shapely :: "('e, 'z) machine_scheme \<Rightarrow> ('e, 'z) machine_scheme \<Rightarrow> bool" where
  "shapely w w' \<longleftrightarrow> stays w w' \<and> same_shape (shm w) (shm w')"

text \<open>
  The memory that is allocated according to a record of calls: the page blocks and the heap objects
  that were handed out and not yet given back.
\<close>

fun live_step :: "u64 list \<times> u64 list \<Rightarrow> ext_call \<Rightarrow> u64 list \<times> u64 list" where
  "live_step (ps, hs) (C_alloc_pages n va) = (if va = 0 then (ps, hs) else (va # ps, hs))"
| "live_step (ps, hs) (C_free_pages va n) = (remove1 va ps, hs)"
| "live_step (ps, hs) (C_calloc n sz va) = (if va = 0 then (ps, hs) else (ps, va # hs))"
| "live_step (ps, hs) (C_free va) = (ps, remove1 va hs)"
| "live_step s _ = s"

definition live :: "u64 list \<times> u64 list \<Rightarrow> ext_call list \<Rightarrow> u64 list \<times> u64 list" where
  "live s cs = foldl live_step s cs"

definition balanced :: "('e, 'z) machine_scheme \<Rightarrow> ('e, 'z) machine_scheme \<Rightarrow> bool" where
  "balanced w w' \<longleftrightarrow> (\<exists>t. calls w' = calls w @ t \<and> (\<forall>s. live s t = s))"

text \<open>The calls of the platform that the device layer makes besides the monitor calls.\<close>

fun dev_call :: "ext_call \<Rightarrow> bool" where
  "dev_call (C_idle e) = True"
| "dev_call C_lock = True"
| "dev_call C_unlock = True"
| "dev_call C_irq_disable = True"
| "dev_call C_irq_restore = True"
| "dev_call _ = False"

section \<open>A concrete platform\<close>

text \<open>
  A platform whose secure monitor answers from a script: each call takes the next entry, returns
  its registers and, when the entry names a shared buffer, writes bytes at its start. After the
  script every call returns 0. Pages come from a counter that moves up by whole pages, and the page
  information of an address is the address itself. The examples of the development run on it.
\<close>

type_synonym script = "(smc_ret8 \<times> (u64 \<times> bytes) option) list \<times> u64"

definition reply :: "u64 \<Rightarrow> u64 \<Rightarrow> smc_ret8" where
  "reply x0 x2 = \<lparr>r0 = x0, r1 = 0, r2 = x2, r3 = 0, r4 = 0, r5 = 0, r6 = 0, r7 = 0\<rparr>"

definition script_write :: "(u64 \<times> bytes) option \<Rightarrow> shared_mem \<Rightarrow> shared_mem" where
  "script_write wr m =
     (case wr of
        None \<Rightarrow> m
      | Some (va, bs) \<Rightarrow>
          (case m va of
             None \<Rightarrow> m
           | Some buf \<Rightarrow> if length bs \<le> length buf then m(va \<mapsto> put_bytes 0 bs buf) else m))"

definition script_platform :: "script platform" where
  "script_platform =
     \<lparr>secmon = (\<lambda>args e m. case fst e of [] \<Rightarrow> (reply 0 0, e, m)
        | (ret, wr) # rest \<Rightarrow> (ret, (rest, snd e), script_write wr m)),
      sysdep = (\<lambda>c e. e),
      page_alloc = (\<lambda>count e. (snd e, fst e, snd e + ucast count * 0x1000)),
      heap_alloc = (\<lambda>n sz e. (0x9000, e)),
      encode_page_info = (\<lambda>pinfo va e. ((0, \<lparr>pi_attr = va, pi_paddr = va, pi_ffa_mem_attr = 0x2f,
        pi_ffa_mem_perm = 0x06\<rparr>), e)),
      junk = (\<lambda>_. 0xaa), fuel = 16\<rparr>"

definition script_machine :: "(smc_ret8 \<times> (u64 \<times> bytes) option) list \<Rightarrow> script machine" where
  "script_machine replies = \<lparr>env = (replies, 0x3000), calls = [], shm = Map.empty\<rparr>"

section \<open>Lemmas: call numbers\<close>

lemmas smc_nr_defs = SMC_NR_def SMC_FASTCALL_NR_def SMC_STDCALL_NR_def SMC_FASTCALL64_NR_def
  SMC_STDCALL64_NR_def SMC_FASTCALL_NR_SHARED_MEMORY_def SMC_FASTCALL64_NR_SHARED_MEMORY_def
  SMC_ENTITY_STD_def SMC_ENTITY_TRUSTED_OS_def SMC_ENTITY_SECURE_MONITOR_def
  SMC_ENTITY_SHARED_MEMORY_def

lemmas sm_err_defs = SM_ERR_UNDEFINED_SMC_def SM_ERR_INTERRUPTED_def SM_ERR_BUSY_def
  SM_ERR_FIQ_INTERRUPTED_def SM_ERR_CPU_IDLE_def SM_ERR_NOP_INTERRUPTED_def SM_ERR_NOP_DONE_def

lemma smc_number_values:
  "SMC_SC_RESTART_LAST = 0x3C000000" "SMC_SC_RESTART_FIQ = 0x3C000002" "SMC_SC_NOP = 0x3C000003"
  "SMC_FC_API_VERSION = 0xBC00000B" "SMC_FC_GET_NEXT_IRQ = 0xBC000003"
  "SMC_SC_TRUSTY_IPC_CREATE_QL_DEV = 0x3200001E"
  "SMC_SC_TRUSTY_IPC_SHUTDOWN_QL_DEV = 0x3200001F"
  "SMC_SC_TRUSTY_IPC_HANDLE_QL_DEV_CMD = 0x32000020"
  "SMC_FC_HANDLE_QL_TIPC_DEV_CMD = 0xB2000020"
  by (simp_all add: SMC_SC_RESTART_LAST_def SMC_SC_RESTART_FIQ_def SMC_SC_NOP_def
      SMC_FC_API_VERSION_def SMC_FC_GET_NEXT_IRQ_def SMC_SC_TRUSTY_IPC_CREATE_QL_DEV_def
      SMC_SC_TRUSTY_IPC_SHUTDOWN_QL_DEV_def SMC_SC_TRUSTY_IPC_HANDLE_QL_DEV_CMD_def
      SMC_FC_HANDLE_QL_TIPC_DEV_CMD_def smc_nr_defs push_bit_eq_mult)

lemma ffa_number_values:
  "SMC_FC_FFA_SUCCESS = 0x84000061" "SMC_FC_FFA_VERSION = 0x84000063"
  "SMC_FC_FFA_FEATURES = 0x84000064" "SMC_FC64_FFA_RXTX_MAP = 0xC4000066"
  "SMC_FC_FFA_RXTX_UNMAP = 0x84000067" "SMC_FC_FFA_ID_GET = 0x84000069"
  "SMC_FC_FFA_MEM_SHARE = 0x84000073" "SMC_FC_FFA_MEM_RECLAIM = 0x84000077"
  by (simp_all add: SMC_FC_FFA_SUCCESS_def SMC_FC_FFA_VERSION_def SMC_FC_FFA_FEATURES_def
      SMC_FC64_FFA_RXTX_MAP_def SMC_FC_FFA_RXTX_UNMAP_def SMC_FC_FFA_ID_GET_def
      SMC_FC_FFA_MEM_SHARE_def SMC_FC_FFA_MEM_RECLAIM_def smc_nr_defs push_bit_eq_mult)

section \<open>Lemmas: frames\<close>

lemma stays_refl [simp]: "stays w w"
  by (simp add: stays_def)

lemma stays_trans: "stays a b \<Longrightarrow> stays b c \<Longrightarrow> stays a c"
  by (auto simp: stays_def)

lemma transp_stays [simp]: "transp stays"
  by (rule transpI) (rule stays_trans)

lemma same_shape_refl [simp]: "same_shape m m"
  by (simp add: same_shape_def)

lemma same_shape_trans: "same_shape a b \<Longrightarrow> same_shape b c \<Longrightarrow> same_shape a c"
  by (simp add: same_shape_def)

lemma same_shape_Some:
  assumes "same_shape m m'" and "m a = Some buf"
  obtains buf' where "m' a = Some buf'" and "length buf' = length buf"
proof -
  from assms have "map_option length (m' a) = Some (length buf)" by (simp add: same_shape_def)
  with that show thesis by (cases "m' a") auto
qed

lemma shapely_refl [simp]: "shapely w w"
  by (simp add: shapely_def)

lemma shapely_trans: "shapely a b \<Longrightarrow> shapely b c \<Longrightarrow> shapely a c"
  by (auto simp: shapely_def intro: stays_trans same_shape_trans)

lemma transp_shapely [simp]: "transp shapely"
  by (rule transpI) (rule shapely_trans)

lemma shapely_buf:
  assumes "shapely w w'" and "shm w a = Some buf"
  obtains buf' where "shm w' a = Some buf'" and "length buf' = length buf"
  using assms by (auto simp: shapely_def elim: same_shape_Some)

lemma sys_call_keeps [simp, intro]: "keeps shapely w (sys_call P c w)"
  by (simp add: sys_call_def shapely_def stays_def)

lemma sys_call_stays [simp, intro]: "keeps stays w (sys_call P c w)"
  by (simp add: sys_call_def stays_def)

lemma smc8_stays [simp, intro]: "keeps stays w (smc8 P args w)"
  by (simp add: smc8_def stays_def split: prod.splits)

lemma smc8_keeps [intro]: "keeps_buffers P \<Longrightarrow> keeps shapely w (smc8 P args w)"
  by (auto simp: smc8_def shapely_def stays_def keeps_buffers_def split: prod.splits)
     (metis snd_conv)

lemma smc_stays [simp, intro]: "keeps stays w (smc P a b c d w)"
  unfolding smc_def by (rule keeps_obind) auto

lemma smc_keeps [intro]: "keeps_buffers P \<Longrightarrow> keeps shapely w (smc P a b c d w)"
  unfolding smc_def by (rule keeps_obind) auto

lemma smc_Ret: "\<exists>ret w'. smc P a b c d w = Ret ret w' \<and>
    calls w' = calls w @ [C_smc8 [a, b, c, d, 0, 0, 0, 0] ret] \<and>
    machine.more w' = machine.more w"
  by (simp add: smc_def smc8_def split: prod.splits)

lemma shm_write_keeps [simp, intro]: "keeps shapely w (shm_write va off bs w)"
  by (auto simp: shm_write_def shapely_def stays_def same_shape_def split: option.splits)

lemma shm_read_keeps [simp, intro]: "keeps shapely w (shm_read va off n w)"
  by (auto simp: shm_read_def split: option.splits)

lemma live_simps [simp]:
  "live s [] = s" "live s (c # cs) = live (live_step s c) cs" "live s (cs @ cs') = live (live s cs) cs'"
  by (simp_all add: live_def)

lemma balanced_refl [simp]: "balanced w w"
  by (simp add: balanced_def)

lemma balanced_trans: "balanced a b \<Longrightarrow> balanced b c \<Longrightarrow> balanced a c"
  by (force simp: balanced_def)

lemma transp_balanced [simp]: "transp balanced"
  by (rule transpI) (rule balanced_trans)

lemma sys_call_balanced: "dev_call c \<Longrightarrow> keeps balanced w (sys_call P c w)"
  by (cases c) (auto simp: sys_call_def balanced_def)

lemma smc8_balanced: "keeps balanced w (smc8 P args w)"
  by (auto simp: smc8_def balanced_def split: prod.splits)

lemma shm_write_balanced: "keeps balanced w (shm_write va off bs w)"
  by (auto simp: shm_write_def balanced_def split: option.splits)

section \<open>Lemmas: one shared buffer\<close>

lemma set_buf_simps [region_simps]:
  "shm (set_buf va b w) va = Some b" "set_buf va b' (set_buf va b w) = set_buf va b' w"
  "calls (set_buf va b w) = calls w" "env (set_buf va b w) = env w"
  "machine.more (set_buf va b w) = machine.more w"
  by (simp_all add: set_buf_def)

lemma set_buf_self: "shm w va = Some b \<Longrightarrow> set_buf va b w = w"
  by (simp add: set_buf_def fun_upd_idem)

lemma shm_write_buf [region_simps]:
  "shm_write va off bs (set_buf va b w) =
     (if off + length bs \<le> length b then Ret () (set_buf va (put_bytes off bs b) w) else Fault)"
  by (simp add: shm_write_def set_buf_def)

lemma shm_read_buf [region_simps]:
  "shm_read va off n (set_buf va b w) =
     (if off + n \<le> length b then Ret (get_bytes off n b) (set_buf va b w) else Fault)"
  by (simp add: shm_read_def set_buf_def)

section \<open>Lemmas: the concrete platform\<close>

lemma script_keeps_buffers [simp]: "keeps_buffers script_platform"
  by (auto simp: keeps_buffers_def script_platform_def script_write_def same_shape_def
      split: list.splits option.splits)

lemma script_fuel [simp]: "fuel script_platform = 16"
  by (simp add: script_platform_def)

end
