(* ===== verification/Trusty_Dev.thy ===== *)
theory Trusty_Dev
  imports Smc
begin

text \<open>
  The Trusty device, \<open>ql-tipc/trusty_dev_common.c\<close>: fast and standard calls into the secure
  monitor with their retry and restart loops, the device life cycle, and sharing a memory region
  with the secure side by an FF-A memory transaction descriptor. The lemmas show that a standard
  call follows the calling convention that \<open>smcall.h\<close> and \<open>sm_err.h\<close> document, keeps the
  interrupt and lock discipline, returns when the secure monitor makes progress, and that the
  descriptor written for \<open>FFA_MEM_SHARE\<close> is the encoding of the transaction.
\<close>

section \<open>The device\<close>

record trusty_dev =
  td_priv_data :: u64
  td_api_version :: u32
  td_ffa_local_id :: u16
  td_ffa_remote_id :: u16
  td_ffa_tx :: u64
  td_ffa_rx :: u64

section \<open>Calls into the secure monitor\<close>

definition trusty_fast_call32 ::
  "'e platform \<Rightarrow> u32 \<Rightarrow> u32 \<Rightarrow> u32 \<Rightarrow> u32 \<Rightarrow> ('e, 'z) machine_scheme \<Rightarrow>
   (int, ('e, 'z) machine_scheme) outcome"
where
  "trusty_fast_call32 P smcnr a0 a1 a2 w =
     obind (smc P (ucast smcnr) (ucast a0) (ucast a1) (ucast a2) w) (\<lambda>ret w. Ret (c_int ret) w)"

text \<open>The inner loop of \<open>trusty_std_call_inner\<close>: re-enter after every FIQ.\<close>

fun fiq_restart_loop ::
  "'e platform \<Rightarrow> nat \<Rightarrow> u64 \<Rightarrow> ('e, 'z) machine_scheme \<Rightarrow> (u64, ('e, 'z) machine_scheme) outcome"
where
  "fiq_restart_loop P n ret w =
     (if c_int ret = SM_ERR_FIQ_INTERRUPTED then
        (case n of
           0 \<Rightarrow> NoFuel
         | Suc n' \<Rightarrow>
             obind (smc P (ucast SMC_SC_RESTART_FIQ) 0 0 0 w) (\<lambda>ret w. fiq_restart_loop P n' ret w))
      else Ret ret w)"

text \<open>Its outer loop, which ends because \<open>retry\<close> counts down.\<close>

fun std_call_retry_loop ::
  "'e platform \<Rightarrow> nat \<Rightarrow> u64 \<Rightarrow> u64 \<Rightarrow> u64 \<Rightarrow> u64 \<Rightarrow> ('e, 'z) machine_scheme \<Rightarrow>
   (u64, ('e, 'z) machine_scheme) outcome"
where
  "std_call_retry_loop P retry smcnr a0 a1 a2 w =
     obind (smc P smcnr a0 a1 a2 w) (\<lambda>ret w.
     obind (fiq_restart_loop P (fuel P) ret w) (\<lambda>ret w.
       if c_int ret \<noteq> SM_ERR_BUSY \<or> retry = 0 then Ret ret w
       else std_call_retry_loop P (retry - 1) smcnr a0 a1 a2 w))"

definition trusty_std_call_inner ::
  "'e platform \<Rightarrow> u64 \<Rightarrow> u64 \<Rightarrow> u64 \<Rightarrow> u64 \<Rightarrow> ('e, 'z) machine_scheme \<Rightarrow>
   (u64, ('e, 'z) machine_scheme) outcome"
where
  "trusty_std_call_inner P smcnr a0 a1 a2 w = std_call_retry_loop P 5 smcnr a0 a1 a2 w"

fun std_call_helper_loop ::
  "'e platform \<Rightarrow> nat \<Rightarrow> u64 \<Rightarrow> u64 \<Rightarrow> u64 \<Rightarrow> u64 \<Rightarrow> ('e, 'z) machine_scheme \<Rightarrow>
   (u64, ('e, 'z) machine_scheme) outcome"
where
  "std_call_helper_loop P n smcnr a0 a1 a2 w =
     obind (sys_call P C_irq_disable w) (\<lambda>_ w.
     obind (trusty_std_call_inner P smcnr a0 a1 a2 w) (\<lambda>ret w.
     obind (sys_call P C_irq_restore w) (\<lambda>_ w.
       if c_int ret \<noteq> SM_ERR_BUSY then Ret ret w
       else
         (case n of
            0 \<Rightarrow> NoFuel
          | Suc n' \<Rightarrow>
              obind (sys_call P (C_idle False) w) (\<lambda>_ w.
                std_call_helper_loop P n' smcnr a0 a1 a2 w)))))"

definition trusty_std_call_helper ::
  "'e platform \<Rightarrow> u64 \<Rightarrow> u64 \<Rightarrow> u64 \<Rightarrow> u64 \<Rightarrow> ('e, 'z) machine_scheme \<Rightarrow>
   (u64, ('e, 'z) machine_scheme) outcome"
where
  "trusty_std_call_helper P smcnr a0 a1 a2 w =
     std_call_helper_loop P (fuel P) smcnr a0 a1 a2 w"

text \<open>The loop of \<open>trusty_std_call32\<close> that restarts an interrupted call.\<close>

fun std_call_restart_loop ::
  "'e platform \<Rightarrow> nat \<Rightarrow> int \<Rightarrow> ('e, 'z) machine_scheme \<Rightarrow> (int, ('e, 'z) machine_scheme) outcome"
where
  "std_call_restart_loop P n ret w =
     (if ret = SM_ERR_INTERRUPTED \<or> ret = SM_ERR_CPU_IDLE then
        (case n of
           0 \<Rightarrow> NoFuel
         | Suc n' \<Rightarrow>
             obind (if ret = SM_ERR_CPU_IDLE then sys_call P (C_idle False) w else Ret () w) (\<lambda>_ w.
             obind (trusty_std_call_helper P (ucast SMC_SC_RESTART_LAST) 0 0 0 w) (\<lambda>ret w.
               std_call_restart_loop P n' (c_int ret) w)))
      else Ret ret w)"

definition trusty_std_call32 ::
  "'e platform \<Rightarrow> u32 \<Rightarrow> u32 \<Rightarrow> u32 \<Rightarrow> u32 \<Rightarrow> ('e, 'z) machine_scheme \<Rightarrow>
   (int, ('e, 'z) machine_scheme) outcome"
where
  "trusty_std_call32 P smcnr a0 a1 a2 w =
     obind (if smcnr \<noteq> SMC_SC_NOP then sys_call P C_lock w else Ret () w) (\<lambda>_ w.
     obind (trusty_std_call_helper P (ucast smcnr) (ucast a0) (ucast a1) (ucast a2) w) (\<lambda>ret w.
     obind (std_call_restart_loop P (fuel P) (c_int ret) w) (\<lambda>ret w.
     obind (if smcnr \<noteq> SMC_SC_NOP then sys_call P C_unlock w else Ret () w) (\<lambda>_ w.
       Ret ret w))))"

definition trusty_call32_mem_buf_id ::
  "'e platform \<Rightarrow> u32 \<Rightarrow> u64 \<Rightarrow> u32 \<Rightarrow> ('e, 'z) machine_scheme \<Rightarrow>
   (int, ('e, 'z) machine_scheme) outcome"
where
  "trusty_call32_mem_buf_id P smcnr buf_id sz w =
     (if SMC_IS_FASTCALL smcnr then
        trusty_fast_call32 P smcnr (ucast buf_id) (ucast (drop_bit 32 buf_id)) sz w
      else
        trusty_std_call32 P smcnr (ucast buf_id) (ucast (drop_bit 32 buf_id)) sz w)"

definition trusty_dev_init_ipc ::
  "'e platform \<Rightarrow> trusty_dev \<Rightarrow> u64 \<Rightarrow> u32 \<Rightarrow> ('e, 'z) machine_scheme \<Rightarrow>
   (int, ('e, 'z) machine_scheme) outcome"
where
  "trusty_dev_init_ipc P dev buf_id buf_size w =
     trusty_call32_mem_buf_id P SMC_SC_TRUSTY_IPC_CREATE_QL_DEV buf_id buf_size w"

definition trusty_dev_exec_ipc ::
  "'e platform \<Rightarrow> trusty_dev \<Rightarrow> u64 \<Rightarrow> u32 \<Rightarrow> ('e, 'z) machine_scheme \<Rightarrow>
   (int, ('e, 'z) machine_scheme) outcome"
where
  "trusty_dev_exec_ipc P dev buf_id buf_size w =
     trusty_call32_mem_buf_id P SMC_SC_TRUSTY_IPC_HANDLE_QL_DEV_CMD buf_id buf_size w"

definition trusty_dev_exec_fc_ipc ::
  "'e platform \<Rightarrow> trusty_dev \<Rightarrow> u64 \<Rightarrow> u32 \<Rightarrow> ('e, 'z) machine_scheme \<Rightarrow>
   (int, ('e, 'z) machine_scheme) outcome"
where
  "trusty_dev_exec_fc_ipc P dev buf_id buf_size w =
     trusty_call32_mem_buf_id P SMC_FC_HANDLE_QL_TIPC_DEV_CMD buf_id buf_size w"

definition trusty_dev_shutdown_ipc ::
  "'e platform \<Rightarrow> trusty_dev \<Rightarrow> u64 \<Rightarrow> u32 \<Rightarrow> ('e, 'z) machine_scheme \<Rightarrow>
   (int, ('e, 'z) machine_scheme) outcome"
where
  "trusty_dev_shutdown_ipc P dev buf_id buf_size w =
     trusty_call32_mem_buf_id P SMC_SC_TRUSTY_IPC_SHUTDOWN_QL_DEV buf_id buf_size w"

section \<open>Life cycle of the device\<close>

definition trusty_init_api_version ::
  "'e platform \<Rightarrow> trusty_dev \<Rightarrow> ('e, 'z) machine_scheme \<Rightarrow>
   (int \<times> trusty_dev, ('e, 'z) machine_scheme) outcome"
where
  "trusty_init_api_version P dev w =
     obind (trusty_fast_call32 P SMC_FC_API_VERSION TRUSTY_API_VERSION_CURRENT 0 0 w) (\<lambda>ret w.
       let api_version = word_of_int ret :: u32;
           api_version = (if api_version = SM_ERR_UNDEFINED_SMC then 0 else api_version)
       in if api_version > TRUSTY_API_VERSION_CURRENT then Ret (-1, dev) w
          else Ret (0, dev\<lparr>td_api_version := api_version\<rparr>) w)"

definition uninit_page_info :: "'e platform \<Rightarrow> ns_mem_page_info" where
  "uninit_page_info P =
     \<lparr>pi_attr = le_word (uninit P 8), pi_paddr = le_word (uninit P 8),
      pi_ffa_mem_attr = junk P 0, pi_ffa_mem_perm = junk P 0\<rparr>"

definition smc_ffa ::
  "'e platform \<Rightarrow> u32 \<Rightarrow> u64 \<Rightarrow> u64 \<Rightarrow> u64 \<Rightarrow> ('e, 'z) machine_scheme \<Rightarrow>
   (smc_ret8, ('e, 'z) machine_scheme) outcome"
where
  "smc_ffa P nr a1 a2 a3 w = smc8 P [ucast nr, a1, a2, a3, 0, 0, 0, 0] w"

definition trusty_dev_init ::
  "'e platform \<Rightarrow> trusty_dev \<Rightarrow> u64 \<Rightarrow> ('e, 'z) machine_scheme \<Rightarrow>
   (int \<times> trusty_dev, ('e, 'z) machine_scheme) outcome"
where
  "trusty_dev_init P dev priv_data w =
     (let dev = dev\<lparr>td_priv_data := priv_data, td_ffa_tx := 0\<rparr> in
      obind (trusty_init_api_version P dev w) (\<lambda>(ret, dev) w.
        if ret \<noteq> 0 then Ret (ret, dev) w
        else if td_api_version dev < TRUSTY_API_VERSION_MEM_OBJ then Ret (0, dev) w
        else
          obind (smc_ffa P SMC_FC_FFA_VERSION FFA_CURRENT_VERSION 0 0 w) (\<lambda>smc_ret w.
          if FFA_VERSION_TO_MAJOR (r0 smc_ret) \<noteq> FFA_CURRENT_VERSION_MAJOR then Abort w else
          obind (smc_ffa P SMC_FC_FFA_FEATURES (ucast SMC_FC_FFA_MEM_SHARE) 0 0 w) (\<lambda>smc_ret w.
          if r0 smc_ret \<noteq> ucast SMC_FC_FFA_SUCCESS then Abort w else
          obind (smc_ffa P SMC_FC_FFA_ID_GET 0 0 0 w) (\<lambda>smc_ret w.
          if r0 smc_ret \<noteq> ucast SMC_FC_FFA_SUCCESS then Abort w else
          let dev = dev\<lparr>td_ffa_local_id := ucast (r2 smc_ret), td_ffa_remote_id := 0x8000\<rparr> in
          obind (trusty_alloc_pages P 1 w) (\<lambda>tx w.
          let dev = dev\<lparr>td_ffa_tx := tx\<rparr> in
          if tx = 0 then Abort w else
          obind (trusty_alloc_pages P 1 w) (\<lambda>rx w.
          let dev = dev\<lparr>td_ffa_rx := rx\<rparr> in
          if rx = 0 then Abort w else
          obind (trusty_encode_page_info P (uninit_page_info P) tx w) (\<lambda>(ret, tx_pinfo) w.
          if ret \<noteq> 0 then Abort w else
          obind (trusty_encode_page_info P (uninit_page_info P) rx w) (\<lambda>(ret, rx_pinfo) w.
          if ret \<noteq> 0 then Abort w else
          obind (smc_ffa P SMC_FC64_FFA_RXTX_MAP (pi_paddr tx_pinfo) (pi_paddr rx_pinfo) 1 w)
            (\<lambda>smc_ret w.
          if r0 smc_ret \<noteq> ucast SMC_FC_FFA_SUCCESS then Abort w else
          if ret \<noteq> 0 then Abort w else Ret (0, dev) w))))))))))"

definition trusty_dev_shutdown ::
  "'e platform \<Rightarrow> trusty_dev \<Rightarrow> ('e, 'z) machine_scheme \<Rightarrow>
   (int \<times> trusty_dev, ('e, 'z) machine_scheme) outcome"
where
  "trusty_dev_shutdown P dev w =
     obind (if td_ffa_tx dev \<noteq> 0 then smc P (ucast SMC_FC_FFA_RXTX_UNMAP) 0 0 0 w else Ret 0 w)
       (\<lambda>_ w. Ret (0, dev\<lparr>td_priv_data := 0\<rparr>) w)"

definition trusty_dev_nop ::
  "'e platform \<Rightarrow> ('e, 'z) machine_scheme \<Rightarrow> (int, ('e, 'z) machine_scheme) outcome"
where
  "trusty_dev_nop P w =
     obind (trusty_std_call32 P SMC_SC_NOP 0 0 0 w) (\<lambda>ret w.
       Ret (if ret = SM_ERR_NOP_DONE then 0 else if ret = SM_ERR_NOP_INTERRUPTED then 1 else -1) w)"

section \<open>The structures of an FF-A memory transaction (arm\_ffa.h)\<close>

record ffa_cons_mrd =
  cons_address :: u64
  cons_page_count :: u32

record ffa_comp_mrd =
  comp_total_page_count :: u32
  comp_address_range_array :: "ffa_cons_mrd list"

record ffa_mapd =
  mapd_endpoint_id :: u16
  mapd_memory_access_permissions :: u8
  mapd_flags :: u8

record ffa_emad =
  emad_mapd :: ffa_mapd
  emad_comp_mrd_offset :: u32

record ffa_mtd =
  mtd_sender_id :: u16
  mtd_memory_region_attributes :: u8
  mtd_flags :: u32
  mtd_handle :: u64
  mtd_tag :: u64
  mtd_emad :: "ffa_emad list"

text \<open>Their layout in memory; the reserved bytes are zero.\<close>

definition ffa_cons_mrd_bytes :: "ffa_cons_mrd \<Rightarrow> bytes" where
  "ffa_cons_mrd_bytes c = le64 (cons_address c) @ le32 (cons_page_count c) @ le32 0"

definition ffa_comp_mrd_bytes :: "ffa_comp_mrd \<Rightarrow> bytes" where
  "ffa_comp_mrd_bytes c =
     le32 (comp_total_page_count c) @ le32 (of_nat (length (comp_address_range_array c))) @ le64 0 @
     concat (map ffa_cons_mrd_bytes (comp_address_range_array c))"

definition ffa_emad_bytes :: "ffa_emad \<Rightarrow> bytes" where
  "ffa_emad_bytes e =
     le16 (mapd_endpoint_id (emad_mapd e)) @
     [mapd_memory_access_permissions (emad_mapd e), mapd_flags (emad_mapd e)] @
     le32 (emad_comp_mrd_offset e) @ le64 0"

definition ffa_mtd_bytes :: "ffa_mtd \<Rightarrow> bytes" where
  "ffa_mtd_bytes m =
     le16 (mtd_sender_id m) @ [mtd_memory_region_attributes m, 0] @ le32 (mtd_flags m) @
     le64 (mtd_handle m) @ le64 (mtd_tag m) @ le32 0 @ le32 (of_nat (length (mtd_emad m))) @
     concat (map ffa_emad_bytes (mtd_emad m))"

text \<open>
  The transaction that shares one contiguous region of \<open>page_count\<close> pages with the secure side:
  the descriptor, whose single endpoint entry points at the composite descriptor right behind it.
\<close>

definition share_transaction :: "trusty_dev \<Rightarrow> ns_mem_page_info \<Rightarrow> u64 \<Rightarrow> bytes" where
  "share_transaction dev pinfo page_count =
     ffa_mtd_bytes
       \<lparr>mtd_sender_id = td_ffa_local_id dev, mtd_memory_region_attributes = pi_ffa_mem_attr pinfo,
        mtd_flags = 0, mtd_handle = 0, mtd_tag = 0,
        mtd_emad =
          [\<lparr>emad_mapd =
              \<lparr>mapd_endpoint_id = td_ffa_remote_id dev,
               mapd_memory_access_permissions = pi_ffa_mem_perm pinfo, mapd_flags = 0\<rparr>,
            emad_comp_mrd_offset = 48\<rparr>]\<rparr> @
     ffa_comp_mrd_bytes
       \<lparr>comp_total_page_count = ucast page_count,
        comp_address_range_array =
          [\<lparr>cons_address = pi_paddr pinfo, cons_page_count = ucast page_count\<rparr>]\<rparr>"

section \<open>Sharing memory\<close>

text \<open>
  The descriptor is built field by field in the transmit buffer: \<open>struct ffa_mtd\<close> (32 bytes),
  one \<open>struct ffa_emad\<close> (16 bytes, so the composite descriptor is at offset 48), \<open>struct
  ffa_comp_mrd\<close> (16 bytes) and one \<open>struct ffa_cons_mrd\<close> (16 bytes, at offset 64).
\<close>

definition comp_mrd_offset :: nat where "comp_mrd_offset = 48"
definition cons_mrd_offset :: nat where "cons_mrd_offset = 64"
definition mtd_tx_size :: nat where "mtd_tx_size = cons_mrd_offset + 16"

definition build_mtd ::
  "trusty_dev \<Rightarrow> ns_mem_page_info \<Rightarrow> u64 \<Rightarrow> ('e, 'z) machine_scheme \<Rightarrow>
   (unit, ('e, 'z) machine_scheme) outcome"
where
  "build_mtd dev pinfo page_count w =
     (let tx = td_ffa_tx dev in
      obind (shm_write tx 0 (replicate mtd_tx_size 0) w) (\<lambda>_ w.
      obind (shm_write tx 0 (le16 (td_ffa_local_id dev)) w) (\<lambda>_ w.
      obind (shm_write tx 2 [pi_ffa_mem_attr pinfo] w) (\<lambda>_ w.
      obind (shm_write tx 28 (le32 1) w) (\<lambda>_ w.
      obind (shm_write tx 32 (le16 (td_ffa_remote_id dev)) w) (\<lambda>_ w.
      obind (shm_write tx 34 [pi_ffa_mem_perm pinfo] w) (\<lambda>_ w.
      obind (shm_write tx 36 (le32 (of_nat comp_mrd_offset)) w) (\<lambda>_ w.
      obind (shm_write tx comp_mrd_offset (le32 (ucast page_count)) w) (\<lambda>_ w.
      obind (shm_write tx (comp_mrd_offset + 4) (le32 1) w) (\<lambda>_ w.
      obind (shm_write tx cons_mrd_offset (le64 (pi_paddr pinfo)) w) (\<lambda>_ w.
      shm_write tx (cons_mrd_offset + 8) (le32 (ucast page_count)) w)))))))))))"

text \<open>The result is the return code and the value of \<open>*idp\<close>, \<open>None\<close> when it is not written.\<close>

definition trusty_dev_share_memory ::
  "'e platform \<Rightarrow> trusty_dev \<Rightarrow> ns_mem_page_info \<Rightarrow> u64 \<Rightarrow> ('e, 'z) machine_scheme \<Rightarrow>
   (int \<times> u64 option, ('e, 'z) machine_scheme) outcome"
where
  "trusty_dev_share_memory P dev pinfo page_count w =
     (if td_ffa_tx dev = 0 then Ret (0, Some (pi_attr pinfo)) w
      else
        obind (build_mtd dev pinfo page_count w) (\<lambda>_ w.
        obind (smc_ffa P SMC_FC_FFA_MEM_SHARE (of_nat mtd_tx_size) (of_nat mtd_tx_size) 0 w)
          (\<lambda>smc_ret w.
          if (ucast (r0 smc_ret) :: u32) \<noteq> SMC_FC_FFA_SUCCESS then Ret (-1, None) w
          else Ret (0, Some (r2 smc_ret)) w)))"

definition trusty_dev_reclaim_memory ::
  "'e platform \<Rightarrow> trusty_dev \<Rightarrow> u64 \<Rightarrow> ('e, 'z) machine_scheme \<Rightarrow>
   (int, ('e, 'z) machine_scheme) outcome"
where
  "trusty_dev_reclaim_memory P dev mem_id w =
     (if td_ffa_tx dev = 0 then Ret 0 w
      else
        obind (smc_ffa P SMC_FC_FFA_MEM_RECLAIM (ucast (ucast mem_id :: u32)) (drop_bit 32 mem_id) 0 w)
          (\<lambda>smc_ret w.
          if (ucast (r0 smc_ret) :: u32) \<noteq> SMC_FC_FFA_SUCCESS then Ret (-1) w else Ret 0 w))"

declare fiq_restart_loop.simps [simp del] std_call_retry_loop.simps [simp del]
  std_call_helper_loop.simps [simp del] std_call_restart_loop.simps [simp del]

section \<open>The documented calling convention\<close>

text \<open>
  What \<open>smcall.h\<close> and \<open>sm_err.h\<close> ask of a caller of a standard call, as a state machine over the
  calls it makes. \<open>Expect cur nxt\<close>: the next monitor call must carry the registers \<open>nxt\<close>, and
  \<open>cur\<close> are the registers to repeat when the monitor is busy. \<open>Finished r\<close>: the call is over.
\<close>

datatype sm_state = Expect "u64 list" "u64 list" | Finished int

abbreviation restart_fiq_regs :: "u64 list" where
  "restart_fiq_regs \<equiv> [ucast SMC_SC_RESTART_FIQ, 0, 0, 0, 0, 0, 0, 0]"

abbreviation restart_last_regs :: "u64 list" where
  "restart_last_regs \<equiv> [ucast SMC_SC_RESTART_LAST, 0, 0, 0, 0, 0, 0, 0]"

definition sm_after :: "u64 list \<Rightarrow> int \<Rightarrow> sm_state" where
  "sm_after cur r =
     (if r = SM_ERR_FIQ_INTERRUPTED then Expect cur restart_fiq_regs
      else if r = SM_ERR_BUSY then Expect cur cur
      else if r = SM_ERR_INTERRUPTED \<or> r = SM_ERR_CPU_IDLE
        then Expect restart_last_regs restart_last_regs
      else Finished r)"

fun is_smc :: "ext_call \<Rightarrow> bool" where
  "is_smc (C_smc8 args r) = True"
| "is_smc _ = False"

inductive sm_step :: "sm_state \<Rightarrow> ext_call \<Rightarrow> sm_state \<Rightarrow> bool" where
  call: "sm_step (Expect cur nxt) (C_smc8 nxt r) (sm_after cur (c_int r))"
| other: "\<not> is_smc c \<Longrightarrow> sm_step s c s"

inductive sm_run :: "sm_state \<Rightarrow> ext_call list \<Rightarrow> sm_state \<Rightarrow> bool" where
  nil: "sm_run s [] s"
| cons: "sm_step s c s' \<Longrightarrow> sm_run s' cs s'' \<Longrightarrow> sm_run s (c # cs) s''"

inductive_simps sm_step_smc: "sm_step s (C_smc8 args r) s'"
inductive_simps sm_run_Nil: "sm_run s [] s'"
inductive_simps sm_run_Cons: "sm_run s (c # cs) s'"

text \<open>
  The interrupt and lock discipline, as a monitor over the calls: the state holds whether the
  device lock is held and whether interrupts are off. An \<open>smc\<close> needs interrupts off, waiting for
  an interrupt needs them on, and locks and interrupt masks do not nest.
\<close>

fun disc_step :: "bool \<times> bool \<Rightarrow> ext_call \<Rightarrow> (bool \<times> bool) option" where
  "disc_step (l, i) (C_smc8 args r) = (if i then Some (l, i) else None)"
| "disc_step (l, i) (C_idle b) = (if i then None else Some (l, i))"
| "disc_step (l, i) C_lock = (if l \<or> i then None else Some (True, i))"
| "disc_step (l, i) C_unlock = (if l \<and> \<not> i then Some (False, i) else None)"
| "disc_step (l, i) C_irq_disable = (if i then None else Some (l, True))"
| "disc_step (l, i) C_irq_restore = (if i then Some (l, False) else None)"
| "disc_step s _ = Some s"

fun disc_run :: "bool \<times> bool \<Rightarrow> ext_call list \<Rightarrow> (bool \<times> bool) option" where
  "disc_run s [] = Some s"
| "disc_run s (c # cs) = (case disc_step s c of None \<Rightarrow> None | Some s' \<Rightarrow> disc_run s' cs)"

text \<open>Statuses after which the caller has to call again.\<close>

definition unfinished :: "int \<Rightarrow> bool" where
  "unfinished r \<longleftrightarrow> r = SM_ERR_FIQ_INTERRUPTED \<or> r = SM_ERR_BUSY \<or> r = SM_ERR_INTERRUPTED \<or>
     r = SM_ERR_CPU_IDLE"

text \<open>
  \<open>monitor_progress P \<mu>\<close>: the secure monitor makes progress. Every call it does not finish brings
  it closer, in the measure \<open>\<mu>\<close>, to finishing one, and what the platform does in between does not
  set it back.
\<close>

definition monitor_progress :: "'e platform \<Rightarrow> ('e \<Rightarrow> nat) \<Rightarrow> bool" where
  "monitor_progress P \<mu> \<longleftrightarrow>
     (\<forall>args e m. unfinished (c_int (r0 (fst (secmon P args e m)))) \<longrightarrow>
        \<mu> (fst (snd (secmon P args e m))) < \<mu> e) \<and>
     (\<forall>c e. \<mu> (sysdep P c e) \<le> \<mu> e)"

section \<open>Lemmas: runs of the two monitors\<close>

lemma sm_run_append: "sm_run s xs s' \<Longrightarrow> sm_run s' ys s'' \<Longrightarrow> sm_run s (xs @ ys) s''"
  by (induction rule: sm_run.induct) (auto intro: sm_run.intros)

lemma sm_run_others: "list_all (\<lambda>c. \<not> is_smc c) cs \<Longrightarrow> sm_run s cs s"
  by (induction cs) (auto intro: sm_run.intros sm_step.other)

lemma sm_run_call: "sm_run (Expect cur nxt) [C_smc8 nxt r] (sm_after cur (c_int r))"
  by (auto intro: sm_run.intros sm_step.call)

lemma disc_run_append:
  "disc_run s (xs @ ys) = (case disc_run s xs of None \<Rightarrow> None | Some s' \<Rightarrow> disc_run s' ys)"
  by (induction xs arbitrary: s) (auto split: option.splits)

lemma disc_run_smcs: "list_all is_smc cs \<Longrightarrow> disc_run (l, True) cs = Some (l, True)"
proof (induction cs)
  case (Cons c cs)
  then show ?case by (cases c) auto
qed simp

lemma sm_after_BUSY: "sm_after cur SM_ERR_BUSY = Expect cur cur"
  by (simp add: sm_after_def sm_err_defs)

lemma sm_after_FIQ: "sm_after cur SM_ERR_FIQ_INTERRUPTED = Expect cur restart_fiq_regs"
  by (simp add: sm_after_def)

section \<open>Lemmas: a standard call follows the calling convention\<close>

text \<open>
  One lemma per loop, each by induction on its counter: the calls it adds are a run of the
  convention's state machine that ends in the state belonging to the value it returns.
\<close>

lemma fiq_restart_loop_run:
  assumes "fiq_restart_loop P n ret w = Ret r w'"
  shows "\<exists>t. calls w' = calls w @ t \<and> list_all is_smc t \<and>
     sm_run (sm_after cur (c_int ret)) t (sm_after cur (c_int r)) \<and>
     c_int r \<noteq> SM_ERR_FIQ_INTERRUPTED"
  using assms
proof (induction n arbitrary: ret w)
  case 0
  then show ?case
    by (auto simp: fiq_restart_loop.simps split: if_splits intro: sm_run.nil)
next
  case (Suc n)
  show ?case
  proof (cases "c_int ret = SM_ERR_FIQ_INTERRUPTED")
    case True
    obtain ret1 w1 where smc: "smc P (ucast SMC_SC_RESTART_FIQ) 0 0 0 w = Ret ret1 w1"
      and c1: "calls w1 = calls w @ [C_smc8 restart_fiq_regs ret1]"
      using smc_Ret by blast
    from Suc.prems True smc have "fiq_restart_loop P n ret1 w1 = Ret r w'"
      by (simp add: fiq_restart_loop.simps [of P "Suc n"])
    from Suc.IH [OF this] obtain t where t: "calls w' = calls w1 @ t" "list_all is_smc t"
      "sm_run (sm_after cur (c_int ret1)) t (sm_after cur (c_int r))"
      "c_int r \<noteq> SM_ERR_FIQ_INTERRUPTED" by blast
    have "sm_run (sm_after cur (c_int ret)) [C_smc8 restart_fiq_regs ret1] (sm_after cur (c_int ret1))"
      unfolding True sm_after_FIQ by (rule sm_run_call)
    with t c1 show ?thesis
      by (intro exI [of _ "C_smc8 restart_fiq_regs ret1 # t"])
         (auto dest: sm_run_append)
  next
    case False
    with Suc.prems show ?thesis
      by (auto simp: fiq_restart_loop.simps intro: sm_run.nil)
  qed
qed

lemma std_call_retry_loop_run:
  assumes "std_call_retry_loop P k nr a b c w = Ret r w'"
  defines "cur \<equiv> [nr, a, b, c, 0, 0, 0, 0]"
  shows "\<exists>t. calls w' = calls w @ t \<and> list_all is_smc t \<and>
     sm_run (Expect cur cur) t (sm_after cur (c_int r)) \<and> c_int r \<noteq> SM_ERR_FIQ_INTERRUPTED"
  using assms(1)
proof (induction k arbitrary: w)
  case (0 w)
  obtain ret1 w1 where smc: "smc P nr a b c w = Ret ret1 w1"
    and c1: "calls w1 = calls w @ [C_smc8 cur ret1]"
    using smc_Ret unfolding cur_def by blast
  from 0 smc obtain "fiq_restart_loop P (fuel P) ret1 w1 = Ret r w'"
    by (auto simp: std_call_retry_loop.simps [of P 0] outcome_simps)
  from fiq_restart_loop_run [OF this, of cur] c1 show ?case
    by (auto intro!: sm_run_append [OF sm_run_call, simplified] simp: cur_def)
next
  case (Suc k w)
  obtain ret1 w1 where smc: "smc P nr a b c w = Ret ret1 w1"
    and c1: "calls w1 = calls w @ [C_smc8 cur ret1]"
    using smc_Ret unfolding cur_def by blast
  from Suc.prems smc obtain ret2 w2 where
    fiq: "fiq_restart_loop P (fuel P) ret1 w1 = Ret ret2 w2" and
    rest: "(if c_int ret2 \<noteq> SM_ERR_BUSY then Ret ret2 w2
      else std_call_retry_loop P k nr a b c w2) = Ret r w'"
    by (auto simp: std_call_retry_loop.simps [of P "Suc k"] outcome_simps cong: if_cong)
  from fiq_restart_loop_run [OF fiq, of cur] obtain t where t: "calls w2 = calls w1 @ t"
    "list_all is_smc t" "sm_run (sm_after cur (c_int ret1)) t (sm_after cur (c_int ret2))"
    "c_int ret2 \<noteq> SM_ERR_FIQ_INTERRUPTED" by blast
  have first: "sm_run (Expect cur cur) (C_smc8 cur ret1 # t) (sm_after cur (c_int ret2))"
    using t(3) by (auto intro: sm_run.cons sm_step.call)
  show ?case
  proof (cases "c_int ret2 = SM_ERR_BUSY")
    case True
    with rest Suc.IH [of w2] obtain t' where t': "calls w' = calls w2 @ t'" "list_all is_smc t'"
      "sm_run (Expect cur cur) t' (sm_after cur (c_int r))" "c_int r \<noteq> SM_ERR_FIQ_INTERRUPTED"
      by auto
    from first have "sm_run (Expect cur cur) (C_smc8 cur ret1 # t) (Expect cur cur)"
      by (simp add: True sm_after_BUSY)
    from sm_run_append [OF this t'(3)] t t' c1 show ?thesis
      by (intro exI [of _ "C_smc8 cur ret1 # t @ t'"]) auto
  next
    case False
    with rest first t c1 show ?thesis
      by (intro exI [of _ "C_smc8 cur ret1 # t"]) auto
  qed
qed

lemma std_call_helper_loop_run:
  assumes "std_call_helper_loop P n nr a b c w = Ret r w'"
  defines "cur \<equiv> [nr, a, b, c, 0, 0, 0, 0]"
  shows "\<exists>t. calls w' = calls w @ t \<and> sm_run (Expect cur cur) t (sm_after cur (c_int r)) \<and>
     (\<forall>l. disc_run (l, False) t = Some (l, False)) \<and>
     c_int r \<noteq> SM_ERR_FIQ_INTERRUPTED \<and> c_int r \<noteq> SM_ERR_BUSY"
  using assms(1)
proof (induction n arbitrary: w)
  case (0 w)
  then obtain w1 where
    inner: "std_call_retry_loop P 5 nr a b c
      (w\<lparr>env := sysdep P C_irq_disable (env w), calls := calls w @ [C_irq_disable]\<rparr>) = Ret r w1"
    and w': "w' = w1\<lparr>env := sysdep P C_irq_restore (env w1), calls := calls w1 @ [C_irq_restore]\<rparr>"
    and nb: "c_int r \<noteq> SM_ERR_BUSY"
    by (auto simp: std_call_helper_loop.simps [of P 0] sys_call_def trusty_std_call_inner_def
        outcome_simps split: if_splits)
  from std_call_retry_loop_run [OF inner] obtain t where t: "list_all is_smc t"
    "calls w1 = (calls w @ [C_irq_disable]) @ t"
    "sm_run (Expect cur cur) t (sm_after cur (c_int r))" "c_int r \<noteq> SM_ERR_FIQ_INTERRUPTED"
    by (auto simp: cur_def)
  from t nb w' show ?case
    by (intro exI [of _ "C_irq_disable # t @ [C_irq_restore]"])
       (auto simp: disc_run_append disc_run_smcs intro!: sm_run.cons sm_step.other sm_run_append
        sm_run_others)
next
  case (Suc n w)
  then obtain w1 ret1 where
    inner: "std_call_retry_loop P 5 nr a b c
      (w\<lparr>env := sysdep P C_irq_disable (env w), calls := calls w @ [C_irq_disable]\<rparr>) = Ret ret1 w1"
    and rest: "(if c_int ret1 \<noteq> SM_ERR_BUSY
      then Ret ret1 (w1\<lparr>env := sysdep P C_irq_restore (env w1), calls := calls w1 @ [C_irq_restore]\<rparr>)
      else std_call_helper_loop P n nr a b c
        (w1\<lparr>env := sysdep P (C_idle False) (sysdep P C_irq_restore (env w1)),
            calls := (calls w1 @ [C_irq_restore]) @ [C_idle False]\<rparr>)) = Ret r w'"
    by (auto simp: std_call_helper_loop.simps [of P "Suc n"] sys_call_def
        trusty_std_call_inner_def outcome_simps cong: if_cong)
  from std_call_retry_loop_run [OF inner] obtain t where t: "list_all is_smc t"
    "calls w1 = (calls w @ [C_irq_disable]) @ t"
    "sm_run (Expect cur cur) t (sm_after cur (c_int ret1))" "c_int ret1 \<noteq> SM_ERR_FIQ_INTERRUPTED"
    by (auto simp: cur_def)
  show ?case
  proof (cases "c_int ret1 = SM_ERR_BUSY")
    case True
    with rest Suc.IH obtain t' where t': "calls w' = ((calls w1 @ [C_irq_restore]) @ [C_idle False]) @ t'"
      "sm_run (Expect cur cur) t' (sm_after cur (c_int r))"
      "\<forall>l. disc_run (l, False) t' = Some (l, False)"
      "c_int r \<noteq> SM_ERR_FIQ_INTERRUPTED" "c_int r \<noteq> SM_ERR_BUSY"
      by fastforce
    from t(3) have "sm_run (Expect cur cur) t (Expect cur cur)" by (simp add: True sm_after_BUSY)
    with t(1,2,4) t' show ?thesis
      by (intro exI [of _ "C_irq_disable # t @ C_irq_restore # C_idle False # t'"])
         (auto simp: disc_run_append disc_run_smcs intro!: sm_run.cons sm_step.other sm_run_append)
  next
    case False
    with rest t show ?thesis
      by (intro exI [of _ "C_irq_disable # t @ [C_irq_restore]"])
         (auto simp: disc_run_append disc_run_smcs intro!: sm_run.cons sm_step.other sm_run_append
          sm_run_others)
  qed
qed

lemma std_call_restart_loop_run:
  assumes "std_call_restart_loop P n ret w = Ret r w'"
    and "ret \<noteq> SM_ERR_FIQ_INTERRUPTED" "ret \<noteq> SM_ERR_BUSY"
  shows "\<exists>t. calls w' = calls w @ t \<and> sm_run (sm_after cur ret) t (Finished r) \<and>
     (\<forall>l. disc_run (l, False) t = Some (l, False)) \<and> \<not> unfinished r"
  using assms
proof (induction n arbitrary: ret w cur)
  case 0
  then show ?case
    by (auto simp: std_call_restart_loop.simps [of P 0] unfinished_def sm_after_def
        split: if_splits intro!: sm_run.nil)
next
  case (Suc n)
  show ?case
  proof (cases "ret = SM_ERR_INTERRUPTED \<or> ret = SM_ERR_CPU_IDLE")
    case False
    with Suc.prems show ?thesis
      by (auto simp: std_call_restart_loop.simps [of P "Suc n"] unfinished_def sm_after_def
          intro!: sm_run.nil)
  next
    case True
    let ?i = "if ret = SM_ERR_CPU_IDLE then [C_idle False] else []"
    define w1 where "w1 = (if ret = SM_ERR_CPU_IDLE
      then w\<lparr>env := sysdep P (C_idle False) (env w), calls := calls w @ [C_idle False]\<rparr> else w)"
    then have c1: "calls w1 = calls w @ ?i" by simp
    from True Suc.prems(1) obtain ret2 w2 where
      helper: "std_call_helper_loop P (fuel P) (ucast SMC_SC_RESTART_LAST) 0 0 0 w1 = Ret ret2 w2"
      and rest: "std_call_restart_loop P n (c_int ret2) w2 = Ret r w'"
      by (auto simp: std_call_restart_loop.simps [of P "Suc n"] trusty_std_call_helper_def
          outcome_simps sys_call_def w1_def split: if_splits)
    from std_call_helper_loop_run [OF helper] obtain t where t: "calls w2 = calls w1 @ t"
      "sm_run (Expect restart_last_regs restart_last_regs) t (sm_after restart_last_regs (c_int ret2))"
      "\<forall>l. disc_run (l, False) t = Some (l, False)"
      "c_int ret2 \<noteq> SM_ERR_FIQ_INTERRUPTED" "c_int ret2 \<noteq> SM_ERR_BUSY" by blast
    from Suc.IH [OF rest t(4,5)] obtain t' where t': "calls w' = calls w2 @ t'"
      "sm_run (sm_after restart_last_regs (c_int ret2)) t' (Finished r)"
      "\<forall>l. disc_run (l, False) t' = Some (l, False)" "\<not> unfinished r" by blast
    from True Suc.prems(2,3) have "sm_after cur ret = Expect restart_last_regs restart_last_regs"
      by (auto simp: sm_after_def)
    moreover have "sm_run (Expect restart_last_regs restart_last_regs) (?i @ (t @ t')) (Finished r)"
      using t(2) t'(2) by (auto intro!: sm_run.cons sm_step.other intro: sm_run_append)
    ultimately show ?thesis
      using t t' c1 by (intro exI [of _ "?i @ (t @ t')"]) (auto simp: disc_run_append)
  qed
qed

section \<open>Lemmas: a standard call returns\<close>

lemma progress_smc:
  assumes "monitor_progress P \<mu>"
  shows "returns (\<lambda>r w'. unfinished (c_int r) \<longrightarrow> \<mu> (env w') < \<mu> (env w)) (smc P a b c d w)"
proof (cases "secmon P [a, b, c, d, 0, 0, 0, 0] (env w) (shm w)")
  case (fields ret e m)
  from assms have "unfinished (c_int (r0 (fst (secmon P [a, b, c, d, 0, 0, 0, 0] (env w) (shm w))))) \<longrightarrow>
      \<mu> (fst (snd (secmon P [a, b, c, d, 0, 0, 0, 0] (env w) (shm w)))) < \<mu> (env w)"
    unfolding monitor_progress_def by blast
  with fields show ?thesis by (simp add: smc_def smc8_def)
qed

lemma progress_sysdep: "monitor_progress P \<mu> \<Longrightarrow> \<mu> (sysdep P c e) \<le> \<mu> e"
  by (simp add: monitor_progress_def)

lemma fiq_restart_loop_returns:
  assumes "monitor_progress P \<mu>"
    and "c_int ret = SM_ERR_FIQ_INTERRUPTED \<Longrightarrow> \<mu> (env w) < n"
    and "unfinished (c_int ret) \<Longrightarrow> \<mu> (env w) < k"
  shows "returns (\<lambda>r w'. unfinished (c_int r) \<longrightarrow> \<mu> (env w') < k) (fiq_restart_loop P n ret w)"
  using assms(2,3)
proof (induction n arbitrary: ret w)
  case 0
  then show ?case by (auto simp: fiq_restart_loop.simps [of P 0])
next
  case (Suc n)
  show ?case
  proof (cases "c_int ret = SM_ERR_FIQ_INTERRUPTED")
    case True
    with Suc.prems have m: "\<mu> (env w) < Suc n" "\<mu> (env w) < k"
      by (simp_all add: unfinished_def)
    have "returns (\<lambda>r w'. returns (\<lambda>r w'. unfinished (c_int r) \<longrightarrow> \<mu> (env w') < k)
        (fiq_restart_loop P n r w')) (smc P (ucast SMC_SC_RESTART_FIQ) 0 0 0 w)"
      by (rule returns_mono [OF progress_smc [OF assms(1)]], rule Suc.IH)
         (use m in \<open>auto simp: unfinished_def\<close>)
    with True show ?thesis by (simp add: fiq_restart_loop.simps [of P "Suc n"])
  next
    case False
    with Suc.prems show ?thesis by (simp add: fiq_restart_loop.simps [of P "Suc n"])
  qed
qed

lemma std_call_retry_loop_returns:
  assumes "monitor_progress P \<mu>" "\<mu> (env w) \<le> fuel P" "\<mu> (env w) \<le> k"
  shows "returns (\<lambda>r w'. unfinished (c_int r) \<longrightarrow> \<mu> (env w') < k)
    (std_call_retry_loop P n nr a b c w)"
  using assms(2,3)
proof (induction n arbitrary: w)
  case (0 w)
  have "returns (\<lambda>r w'. returns (\<lambda>r w'. unfinished (c_int r) \<longrightarrow> \<mu> (env w') < k)
      (fiq_restart_loop P (fuel P) r w')) (smc P nr a b c w)"
    by (rule returns_mono [OF progress_smc [OF assms(1)]],
        rule fiq_restart_loop_returns [OF assms(1)]) (use 0 in \<open>auto simp: unfinished_def\<close>)
  then show ?case by (simp add: std_call_retry_loop.simps [of P 0])
next
  case (Suc n w)
  have "returns (\<lambda>r w'. returns (\<lambda>r w'. unfinished (c_int r) \<longrightarrow> \<mu> (env w') < \<mu> (env w))
      (fiq_restart_loop P (fuel P) r w')) (smc P nr a b c w)"
    by (rule returns_mono [OF progress_smc [OF assms(1)]],
        rule fiq_restart_loop_returns [OF assms(1)]) (use Suc.prems in \<open>auto simp: unfinished_def\<close>)
  then show ?case
    unfolding std_call_retry_loop.simps [of P "Suc n"] returns_obind
    by (rule returns_mono, elim returns_mono)
       (use Suc.prems Suc.IH in \<open>auto simp: unfinished_def\<close>)
qed

lemma sys_call_progress:
  "monitor_progress P \<mu> \<Longrightarrow> returns (\<lambda>_ w'. \<mu> (env w') \<le> \<mu> (env w)) (sys_call P c w)"
  by (simp add: sys_call_def progress_sysdep)

lemma std_call_helper_loop_returns:
  assumes "monitor_progress P \<mu>" "\<mu> (env w) \<le> fuel P" "\<mu> (env w) \<le> n" "\<mu> (env w) \<le> k"
  shows "returns (\<lambda>r w'. c_int r \<noteq> SM_ERR_BUSY \<and> (unfinished (c_int r) \<longrightarrow> \<mu> (env w') < k))
    (std_call_helper_loop P n nr a b c w)"
  using assms(2-)
proof (induction n arbitrary: w)
  case (0 w)
  show ?case
    unfolding std_call_helper_loop.simps [of P 0] trusty_std_call_inner_def
  proof (rule returns_obindI [OF sys_call_progress [OF assms(1)]],
      rule returns_obindI [OF std_call_retry_loop_returns [OF assms(1), where k = 0]],
      goal_cases)
    case (3 u w1 r w2)
    then have "\<not> unfinished (c_int r)" by simp
    then show ?case by (simp add: sys_call_def unfinished_def)
  qed (use 0 in auto)
next
  case (Suc n w)
  show ?case
    unfolding std_call_helper_loop.simps [of P "Suc n"] trusty_std_call_inner_def
  proof (rule returns_obindI [OF sys_call_progress [OF assms(1)]],
      rule returns_obindI [OF std_call_retry_loop_returns [OF assms(1), where k = "\<mu> (env w)"]],
      goal_cases)
    case (3 u w1 r w2)
    show ?case
    proof (rule returns_obindI [OF sys_call_progress [OF assms(1)]], goal_cases)
      case (1 u3 w3)
      have "returns (\<lambda>r w'. c_int r \<noteq> SM_ERR_BUSY \<and> (unfinished (c_int r) \<longrightarrow> \<mu> (env w') < k))
          (obind (sys_call P (C_idle False) w3) (\<lambda>_ w. std_call_helper_loop P n nr a b c w))"
        if "c_int r = SM_ERR_BUSY"
        by (rule returns_obindI [OF sys_call_progress [OF assms(1)]], rule Suc.IH)
           (use that 3 1 Suc.prems in \<open>auto simp: unfinished_def\<close>)
      moreover have "unfinished (c_int r) \<longrightarrow> \<mu> (env w3) < k" using 3 1 Suc.prems by auto
      ultimately show ?case by simp
    qed
  qed (use Suc.prems in auto)
qed

lemma std_call_restart_loop_returns:
  assumes "monitor_progress P \<mu>" "unfinished ret \<Longrightarrow> \<mu> (env w) < n" "n \<le> Suc (fuel P)"
  shows "returns (\<lambda>_ _. True) (std_call_restart_loop P n ret w)"
  using assms(2,3)
proof (induction n arbitrary: ret w)
  case 0
  then show ?case by (auto simp: std_call_restart_loop.simps [of P 0] unfinished_def)
next
  case (Suc n)
  show ?case
  proof (cases "ret = SM_ERR_INTERRUPTED \<or> ret = SM_ERR_CPU_IDLE")
    case True
    with Suc.prems have m: "\<mu> (env w) \<le> n" by (auto simp: unfinished_def)
    have idle: "returns (\<lambda>_ w'. \<mu> (env w') \<le> \<mu> (env w))
        (if ret = SM_ERR_CPU_IDLE then sys_call P (C_idle False) w else Ret () w)"
      using sys_call_progress [OF assms(1), of w] by simp
    have "returns (\<lambda>_ _. True)
        (obind (if ret = SM_ERR_CPU_IDLE then sys_call P (C_idle False) w else Ret () w) (\<lambda>_ w.
         obind (trusty_std_call_helper P (ucast SMC_SC_RESTART_LAST) 0 0 0 w) (\<lambda>ret w.
           std_call_restart_loop P n (c_int ret) w)))"
      unfolding trusty_std_call_helper_def
      by (rule returns_obindI [OF idle],
          rule returns_obindI [OF std_call_helper_loop_returns [OF assms(1), where k = n]])
         (use m Suc in auto)
    with True show ?thesis by (simp add: std_call_restart_loop.simps [of P "Suc n"] del: returns_obind)
  next
    case False
    then show ?thesis by (simp add: std_call_restart_loop.simps [of P "Suc n"])
  qed
qed

section \<open>What the device leaves alone\<close>

text \<open>
  The interface between the device and its clients' frames: a relation between machine states that
  is reflexive and transitive and holds across every call to the platform and every write to an
  existing shared buffer holds across every operation of the device that allocates nothing.
\<close>

locale call_frame =
  fixes P :: "'e platform" and R :: "('e, 'z) machine_scheme \<Rightarrow> ('e, 'z) machine_scheme \<Rightarrow> bool"
  assumes frame_refl: "R w w"
    and frame_trans: "transp R"
    and frame_sys_call: "dev_call c \<Longrightarrow> keeps R w (sys_call P c w)"
    and frame_smc8: "keeps R w (smc8 P args w)"
    and frame_write: "keeps R w (shm_write va off bs w)"
begin

lemma keeps_bind:
  "keeps R w m \<Longrightarrow> (\<And>a w'. m = Ret a w' \<Longrightarrow> keeps R w' (f a w')) \<Longrightarrow> keeps R w (obind m f)"
  using frame_trans by (rule keeps_obind)

lemma smc_frame: "keeps R w (smc P a b c d w)"
  unfolding smc_def by (rule keeps_bind) (simp_all add: frame_smc8 frame_refl)

lemma fiq_restart_loop_frame: "keeps R w (fiq_restart_loop P n ret w)"
proof (induction n arbitrary: ret w)
  case 0
  then show ?case by (simp add: fiq_restart_loop.simps [of P 0] frame_refl)
next
  case (Suc n)
  then show ?case
    by (auto simp: fiq_restart_loop.simps [of P "Suc n"] frame_refl intro: keeps_bind smc_frame)
qed

lemma std_call_retry_loop_frame: "keeps R w (std_call_retry_loop P n nr a b c w)"
proof (induction n arbitrary: w)
  case 0
  show ?case
    by (auto simp: std_call_retry_loop.simps [of P 0]
        intro: keeps_bind smc_frame fiq_restart_loop_frame)
next
  case (Suc n)
  then show ?case
    by (auto simp: std_call_retry_loop.simps [of P "Suc n"] frame_refl
        intro!: keeps_bind [OF smc_frame] keeps_bind [OF fiq_restart_loop_frame])
qed

lemma std_call_helper_loop_frame: "keeps R w (std_call_helper_loop P n nr a b c w)"
proof (induction n arbitrary: w)
  case 0
  show ?case
    by (auto simp: std_call_helper_loop.simps [of P 0] trusty_std_call_inner_def frame_refl
        intro!: keeps_bind frame_sys_call std_call_retry_loop_frame)
next
  case (Suc n)
  then show ?case
    by (auto simp: std_call_helper_loop.simps [of P "Suc n"] trusty_std_call_inner_def frame_refl
        intro!: keeps_bind frame_sys_call std_call_retry_loop_frame)
qed

lemma std_call_restart_loop_frame: "keeps R w (std_call_restart_loop P n ret w)"
proof (induction n arbitrary: ret w)
  case 0
  then show ?case by (simp add: std_call_restart_loop.simps [of P 0] frame_refl)
next
  case (Suc n)
  then show ?case
    by (auto simp: std_call_restart_loop.simps [of P "Suc n"] trusty_std_call_helper_def frame_refl
        intro!: keeps_bind frame_sys_call std_call_helper_loop_frame)
qed

lemma trusty_std_call32_frame: "keeps R w (trusty_std_call32 P nr a b c w)"
  unfolding trusty_std_call32_def trusty_std_call_helper_def
  by (auto simp: frame_refl
      intro!: keeps_bind frame_sys_call std_call_helper_loop_frame std_call_restart_loop_frame)

lemma trusty_fast_call32_frame: "keeps R w (trusty_fast_call32 P nr a b c w)"
  unfolding trusty_fast_call32_def by (rule keeps_bind) (simp_all add: smc_frame frame_refl)

lemma trusty_call32_mem_buf_id_frame: "keeps R w (trusty_call32_mem_buf_id P nr i sz w)"
  by (simp add: trusty_call32_mem_buf_id_def trusty_fast_call32_frame trusty_std_call32_frame)

lemma trusty_dev_init_ipc_frame: "keeps R w (trusty_dev_init_ipc P dev i sz w)"
  and trusty_dev_exec_ipc_frame: "keeps R w (trusty_dev_exec_ipc P dev i sz w)"
  and trusty_dev_exec_fc_ipc_frame: "keeps R w (trusty_dev_exec_fc_ipc P dev i sz w)"
  and trusty_dev_shutdown_ipc_frame: "keeps R w (trusty_dev_shutdown_ipc P dev i sz w)"
  by (simp_all add: trusty_dev_init_ipc_def trusty_dev_exec_ipc_def trusty_dev_exec_fc_ipc_def
      trusty_dev_shutdown_ipc_def trusty_call32_mem_buf_id_frame)

lemma trusty_dev_nop_frame: "keeps R w (trusty_dev_nop P w)"
  unfolding trusty_dev_nop_def by (rule keeps_bind) (simp_all add: trusty_std_call32_frame frame_refl)

lemma trusty_dev_share_memory_frame: "keeps R w (trusty_dev_share_memory P dev pinfo n w)"
  unfolding trusty_dev_share_memory_def build_mtd_def Let_def smc_ffa_def
  by (auto simp: frame_refl intro!: keeps_bind frame_write frame_smc8)

lemma trusty_dev_reclaim_memory_frame: "keeps R w (trusty_dev_reclaim_memory P dev i w)"
  unfolding trusty_dev_reclaim_memory_def smc_ffa_def
  by (auto simp: frame_refl intro!: keeps_bind frame_smc8)

lemma trusty_dev_shutdown_frame: "keeps R w (trusty_dev_shutdown P dev w)"
  unfolding trusty_dev_shutdown_def by (auto simp: frame_refl intro!: keeps_bind smc_frame)

end

interpretation stays_frame: call_frame P stays for P
  by unfold_locales (auto intro: keeps_mono [OF shm_write_keeps] simp: shapely_def)

interpretation balanced_frame: call_frame P balanced for P
  by unfold_locales (auto intro: sys_call_balanced smc8_balanced shm_write_balanced)

interpretation shapely_frame: call_frame P "\<lambda>w w'. keeps_buffers P \<longrightarrow> shapely w w'" for P
  by unfold_locales (auto simp: keeps_imp intro: transpI shapely_trans)

section \<open>Lemmas: a monitor call stays inside of its objects\<close>

lemma sys_call_no_fault [simp]: "no_fault (sys_call P c w)"
  by (simp add: sys_call_def)

lemma smc8_no_fault [simp]: "no_fault (smc8 P args w)"
  by (simp add: smc8_def split: prod.splits)

lemma smc_no_fault [simp]: "no_fault (smc P a b c d w)"
  by (simp add: smc_def no_fault_obindI)

lemma fiq_restart_loop_no_fault: "no_fault (fiq_restart_loop P n ret w)"
proof (induction n arbitrary: ret w)
  case 0
  then show ?case by (simp add: fiq_restart_loop.simps [of P 0])
next
  case (Suc n)
  then show ?case by (auto simp: fiq_restart_loop.simps [of P "Suc n"] intro: no_fault_obindI)
qed

lemma std_call_retry_loop_no_fault: "no_fault (std_call_retry_loop P n nr a b c w)"
proof (induction n arbitrary: w)
  case 0
  show ?case
    by (auto simp: std_call_retry_loop.simps [of P 0] fiq_restart_loop_no_fault intro!: no_fault_obindI)
next
  case (Suc n)
  then show ?case
    by (auto simp: std_call_retry_loop.simps [of P "Suc n"] fiq_restart_loop_no_fault
        intro!: no_fault_obindI)
qed

lemma std_call_helper_loop_no_fault: "no_fault (std_call_helper_loop P n nr a b c w)"
proof (induction n arbitrary: w)
  case 0
  show ?case
    by (auto simp: std_call_helper_loop.simps [of P 0] trusty_std_call_inner_def
        std_call_retry_loop_no_fault intro!: no_fault_obindI)
next
  case (Suc n)
  then show ?case
    by (auto simp: std_call_helper_loop.simps [of P "Suc n"] trusty_std_call_inner_def
        std_call_retry_loop_no_fault intro!: no_fault_obindI)
qed

lemma std_call_restart_loop_no_fault: "no_fault (std_call_restart_loop P n ret w)"
proof (induction n arbitrary: ret w)
  case 0
  then show ?case by (simp add: std_call_restart_loop.simps [of P 0])
next
  case (Suc n)
  then show ?case
    by (auto simp: std_call_restart_loop.simps [of P "Suc n"] trusty_std_call_helper_def
        std_call_helper_loop_no_fault intro!: no_fault_obindI)
qed

lemma trusty_call32_mem_buf_id_no_fault: "no_fault (trusty_call32_mem_buf_id P nr i sz w)"
  by (auto simp: trusty_call32_mem_buf_id_def trusty_fast_call32_def trusty_std_call32_def
      trusty_std_call_helper_def std_call_helper_loop_no_fault std_call_restart_loop_no_fault
      intro!: no_fault_obindI)

lemma trusty_dev_ipc_no_fault [simp]:
  "no_fault (trusty_dev_init_ipc P dev i sz w)" "no_fault (trusty_dev_exec_ipc P dev i sz w)"
  "no_fault (trusty_dev_exec_fc_ipc P dev i sz w)" "no_fault (trusty_dev_shutdown_ipc P dev i sz w)"
  by (simp_all add: trusty_dev_init_ipc_def trusty_dev_exec_ipc_def trusty_dev_exec_fc_ipc_def
      trusty_dev_shutdown_ipc_def trusty_call32_mem_buf_id_no_fault)

section \<open>Lemmas: the memory transaction\<close>

lemma length_share_transaction [simp]: "length (share_transaction dev pinfo n) = 80"
  by (simp add: share_transaction_def ffa_mtd_bytes_def ffa_emad_bytes_def ffa_comp_mrd_bytes_def
      ffa_cons_mrd_bytes_def)

text \<open>The field writes of \<open>build_mtd\<close>, in their order, on the zeroed descriptor.\<close>

definition mtd_fields :: "trusty_dev \<Rightarrow> ns_mem_page_info \<Rightarrow> u64 \<Rightarrow> bytes \<Rightarrow> bytes" where
  "mtd_fields dev pinfo n =
     put_bytes 72 (le32 (ucast n)) \<circ> put_bytes 64 (le64 (pi_paddr pinfo)) \<circ> put_bytes 52 (le32 1) \<circ>
     put_bytes 48 (le32 (ucast n)) \<circ> put_bytes 36 (le32 48) \<circ> put_bytes 34 [pi_ffa_mem_perm pinfo] \<circ>
     put_bytes 32 (le16 (td_ffa_remote_id dev)) \<circ> put_bytes 28 (le32 1) \<circ>
     put_bytes 2 [pi_ffa_mem_attr pinfo] \<circ> put_bytes 0 (le16 (td_ffa_local_id dev))"

lemma mtd_fields_zeroed: "mtd_fields dev pinfo n (replicate 80 0) = share_transaction dev pinfo n"
  by (simp add: mtd_fields_def share_transaction_def ffa_mtd_bytes_def ffa_emad_bytes_def
      ffa_comp_mrd_bytes_def ffa_cons_mrd_bytes_def le_bytes_list put_bytes_def eval_nat_numeral)

lemma mtd_fields_append:
  assumes "length xs = 80"
  shows "mtd_fields dev pinfo n (xs @ ys) = mtd_fields dev pinfo n xs @ ys"
  using assms by (simp add: mtd_fields_def put_bytes_app)

lemma build_mtd_eq:
  assumes "shm w (td_ffa_tx dev) = Some buf" and "80 \<le> length buf"
  shows "build_mtd dev pinfo n w =
    Ret () (w\<lparr>shm := (shm w)(td_ffa_tx dev \<mapsto> put_bytes 0 (share_transaction dev pinfo n) buf)\<rparr>)"
proof -
  have z: "put_bytes 0 (replicate 80 0) buf = replicate 80 0 @ drop 80 buf"
    by (simp add: put_bytes_def)
  have "build_mtd dev pinfo n w =
      Ret () (w\<lparr>shm := (shm w)(td_ffa_tx dev \<mapsto>
        mtd_fields dev pinfo n (put_bytes 0 (replicate 80 0) buf))\<rparr>)"
    using assms by (simp add: build_mtd_def shm_write_def mtd_tx_size_def cons_mrd_offset_def
        comp_mrd_offset_def mtd_fields_def)
  also have "mtd_fields dev pinfo n (put_bytes 0 (replicate 80 0) buf) =
      put_bytes 0 (share_transaction dev pinfo n) buf"
    by (simp only: z mtd_fields_append length_replicate mtd_fields_zeroed) (simp add: put_bytes_def)
  finally show ?thesis .
qed

lemma script_progress: "monitor_progress script_platform (\<lambda>e. length (fst e))"
  by (auto simp: monitor_progress_def script_platform_def reply_def unfinished_def c_int_def sm_err_defs
      split: list.splits)

section \<open>Lemmas: how often a busy monitor is called\<close>

fun is_call :: "u64 list \<Rightarrow> ext_call \<Rightarrow> bool" where
  "is_call args (C_smc8 args' r) = (args' = args)"
| "is_call args _ = False"

definition issues :: "u64 list \<Rightarrow> ext_call list \<Rightarrow> nat" where
  "issues args t = length (filter (is_call args) t)"

lemma issues_simps [simp]:
  "issues args [] = 0" "issues args (c # t) = (if is_call args c then 1 else 0) + issues args t"
  "issues args (t @ t') = issues args t + issues args t'"
  by (simp_all add: issues_def)

lemma fiq_restart_loop_issues:
  assumes "fiq_restart_loop P n ret w = Ret r w'" and "args \<noteq> restart_fiq_regs"
  shows "\<exists>t. calls w' = calls w @ t \<and> issues args t = 0"
  using assms(1)
proof (induction n arbitrary: ret w)
  case 0
  then show ?case by (auto simp: fiq_restart_loop.simps split: if_splits)
next
  case (Suc n)
  obtain ret1 w1 where smc: "smc P (ucast SMC_SC_RESTART_FIQ) 0 0 0 w = Ret ret1 w1"
    and c1: "calls w1 = calls w @ [C_smc8 restart_fiq_regs ret1]"
    using smc_Ret by blast
  from Suc.prems smc have "fiq_restart_loop P n ret1 w1 = Ret r w' \<or> w' = w"
    by (auto simp: fiq_restart_loop.simps [of P "Suc n"] split: if_splits)
  then show ?case
    using Suc.IH [of ret1 w1] c1 assms(2) by fastforce
qed

lemma std_call_retry_loop_issues:
  assumes "std_call_retry_loop P k nr a b c w = Ret r w'"
  defines "cur \<equiv> [nr, a, b, c, 0, 0, 0, 0]"
  assumes "cur \<noteq> restart_fiq_regs"
  shows "\<exists>t. calls w' = calls w @ t \<and> issues cur t \<le> Suc k \<and> 1 \<le> issues cur t \<and>
     (c_int r = SM_ERR_BUSY \<longrightarrow> issues cur t = Suc k)"
  using assms(1)
proof (induction k arbitrary: w)
  case (0 w)
  obtain ret1 w1 where smc: "smc P nr a b c w = Ret ret1 w1"
    and c1: "calls w1 = calls w @ [C_smc8 cur ret1]"
    using smc_Ret unfolding cur_def by blast
  from 0 smc obtain "fiq_restart_loop P (fuel P) ret1 w1 = Ret r w'"
    by (auto simp: std_call_retry_loop.simps [of P 0] outcome_simps)
  from fiq_restart_loop_issues [OF this assms(3)] c1 show ?case by fastforce
next
  case (Suc k w)
  obtain ret1 w1 where smc: "smc P nr a b c w = Ret ret1 w1"
    and c1: "calls w1 = calls w @ [C_smc8 cur ret1]"
    using smc_Ret unfolding cur_def by blast
  from Suc.prems smc obtain ret2 w2 where
    fiq: "fiq_restart_loop P (fuel P) ret1 w1 = Ret ret2 w2" and
    rest: "(if c_int ret2 \<noteq> SM_ERR_BUSY then Ret ret2 w2
      else std_call_retry_loop P k nr a b c w2) = Ret r w'"
    by (auto simp: std_call_retry_loop.simps [of P "Suc k"] outcome_simps cong: if_cong)
  from fiq_restart_loop_issues [OF fiq assms(3)] obtain t where
    t: "calls w2 = calls w1 @ t" "issues cur t = 0" by blast
  show ?case
  proof (cases "c_int ret2 = SM_ERR_BUSY")
    case True
    with rest Suc.IH [of w2] obtain t' where t': "calls w' = calls w2 @ t'"
      "issues cur t' \<le> Suc k" "c_int r = SM_ERR_BUSY \<longrightarrow> issues cur t' = Suc k" by auto
    with t c1 show ?thesis by (intro exI [of _ "C_smc8 cur ret1 # t @ t'"]) simp
  next
    case False
    with rest t c1 show ?thesis by (intro exI [of _ "C_smc8 cur ret1 # t"]) simp
  qed
qed

section \<open>The device invariant\<close>

text \<open>
  A device that negotiated memory sharing owns a transmit buffer of at least one page; before that, and on
  the old interface, it has none.
\<close>

definition dev_ready :: "trusty_dev \<Rightarrow> ('e, 'z) machine_scheme \<Rightarrow> bool" where
  "dev_ready dev w \<longleftrightarrow>
     td_ffa_tx dev = 0 \<or> (\<exists>buf. shm w (td_ffa_tx dev) = Some buf \<and> PAGE_SIZE \<le> length buf)"

lemma dev_ready_shapely: "dev_ready dev w \<Longrightarrow> shapely w w' \<Longrightarrow> dev_ready dev w'"
  unfolding dev_ready_def by (metis shapely_buf)

section \<open>Lemmas: initialisation\<close>

lemma trusty_init_api_version_Ret:
  assumes "trusty_init_api_version P dev w = Ret (r, dev') w'"
  shows "(r = 0 \<and> td_api_version dev' \<le> TRUSTY_API_VERSION_CURRENT \<or> r = -1) \<and>
    td_ffa_tx dev' = td_ffa_tx dev \<and> td_priv_data dev' = td_priv_data dev"
  using assms by (auto simp: trusty_init_api_version_def outcome_simps Let_def split: if_splits)

lemma smc_ffa_shapely: "smc_ffa P nr a b c w = Ret s w' \<Longrightarrow> keeps_buffers P \<Longrightarrow> shapely w w'"
  using smc8_keeps [of P w "[ucast nr, a, b, c, 0, 0, 0, 0]"] by (simp add: smc_ffa_def)

lemma trusty_alloc_pages_Ret:
  "trusty_alloc_pages P n w = Ret va w' \<Longrightarrow> va \<noteq> 0 \<Longrightarrow>
   shm w' = (shm w)(va \<mapsto> uninit P (unat n * PAGE_SIZE))"
  by (auto simp: trusty_alloc_pages_def split: prod.splits)

lemma trusty_encode_page_info_shm:
  "trusty_encode_page_info P i va w = Ret x w' \<Longrightarrow> shm w' = shm w"
  by (auto simp: trusty_encode_page_info_def split: prod.splits)

lemma init_mailboxes:
  assumes "trusty_alloc_pages P 1 w = Ret tx w1" "tx \<noteq> 0" "trusty_alloc_pages P 1 w1 = Ret rx w2" "rx \<noteq> 0"
    and "trusty_encode_page_info P i1 tx w2 = Ret x1 w3" "trusty_encode_page_info P i2 rx w3 = Ret x2 w4"
    and "smc_ffa P nr a b c w4 = Ret s w'" "keeps_buffers P" and "va = tx \<or> va = rx"
  shows "\<exists>buf. shm w' va = Some buf \<and> length buf = PAGE_SIZE"
proof -
  from assms(1-6,9) have "\<exists>buf. shm w4 va = Some buf \<and> length buf = PAGE_SIZE"
    by (auto simp: trusty_encode_page_info_shm trusty_alloc_pages_Ret uninit_def)
  with smc_ffa_shapely [OF assms(7,8)] show ?thesis by (metis shapely_buf)
qed

section \<open>Properties\<close>

text \<open>
  C1: a standard call follows the convention of \<open>smcall.h\<close> and \<open>sm_err.h\<close>. When
  \<open>trusty_std_call32\<close> returns \<open>r\<close>, the calls it made are a run of the convention's state
  machine: it issues the call, repeats it while the monitor is busy, answers an FIQ with
  \<open>SMC_SC_RESTART_FIQ\<close> and an interrupt or an idle CPU with \<open>SMC_SC_RESTART_LAST\<close>, and stops
  exactly at the status it returns, which is none of these four. Every monitor call is made with
  interrupts off, every wait with interrupts on, and all of it under the device lock unless the
  call is \<open>SMC_SC_NOP\<close>.
\<close>

theorem trusty_std_call32_convention:
  assumes "trusty_std_call32 P nr a b c w = Ret r w'"
  defines "cur \<equiv> [ucast nr, ucast a, ucast b, ucast c, 0, 0, 0, 0]"
  shows "\<exists>t. calls w' = calls w @ t \<and> sm_run (Expect cur cur) t (Finished r) \<and>
     disc_run (False, False) t = Some (False, False) \<and>
     (nr \<noteq> SMC_SC_NOP \<longrightarrow> (\<exists>t'. t = C_lock # t' @ [C_unlock])) \<and> \<not> unfinished r"
proof -
  let ?l = "nr \<noteq> SMC_SC_NOP"
  define w1 where "w1 = (if ?l
    then w\<lparr>env := sysdep P C_lock (env w), calls := calls w @ [C_lock]\<rparr> else w)"
  from assms(1) obtain ret2 w2 w3 where
    helper: "std_call_helper_loop P (fuel P) (ucast nr) (ucast a) (ucast b) (ucast c) w1 = Ret ret2 w2"
    and rest: "std_call_restart_loop P (fuel P) (c_int ret2) w2 = Ret r w3"
    and w': "w' = (if ?l
      then w3\<lparr>env := sysdep P C_unlock (env w3), calls := calls w3 @ [C_unlock]\<rparr> else w3)"
    by (auto simp: trusty_std_call32_def trusty_std_call_helper_def outcome_simps sys_call_def
        w1_def split: if_splits)
  from std_call_helper_loop_run [OF helper] obtain t1 where t1: "calls w2 = calls w1 @ t1"
    "sm_run (Expect cur cur) t1 (sm_after cur (c_int ret2))"
    "\<forall>l. disc_run (l, False) t1 = Some (l, False)"
    "c_int ret2 \<noteq> SM_ERR_FIQ_INTERRUPTED" "c_int ret2 \<noteq> SM_ERR_BUSY"
    unfolding cur_def by blast
  from std_call_restart_loop_run [OF rest t1(4,5), of cur] obtain t2 where t2: "calls w3 = calls w2 @ t2"
    "sm_run (sm_after cur (c_int ret2)) t2 (Finished r)"
    "\<forall>l. disc_run (l, False) t2 = Some (l, False)" "\<not> unfinished r" by blast
  let ?t = "(if ?l then [C_lock] else []) @ t1 @ t2 @ (if ?l then [C_unlock] else [])"
  have "sm_run (Expect cur cur) (t1 @ t2) (Finished r)"
    using t1(2) t2(2) by (rule sm_run_append)
  then have "sm_run (Expect cur cur) ((t1 @ t2) @ (if ?l then [C_unlock] else [])) (Finished r)"
    by (rule sm_run_append) (simp add: sm_run_others)
  then have "sm_run (Expect cur cur) ?t (Finished r)"
    by (auto intro!: sm_run.cons sm_step.other)
  moreover have "disc_run (False, False) ?t = Some (False, False)"
    using t1(3) t2(3) by (simp add: disc_run_append)
  moreover have "calls w' = calls w @ ?t"
    using t1(1) t2(1) w' by (simp add: w1_def)
  moreover have "nr \<noteq> SMC_SC_NOP \<longrightarrow> (\<exists>t'. ?t = C_lock # t' @ [C_unlock])" by simp
  ultimately show ?thesis using t2(4) by blast
qed

definition demo_busy_machine :: "script machine" where
  "demo_busy_machine = script_machine
     [(reply 0xfffffffb 0, None), (reply 0xfffffff4 0, None), (reply 0xfffffffd 0, None),
      (reply 0xfffffff3 0, None), (reply 7 0, None)]"

lemma demo_std_call: "\<exists>w'. trusty_std_call32 script_platform SMC_SC_TRUSTY_IPC_HANDLE_QL_DEV_CMD 1 2 3
    demo_busy_machine = Ret 7 w'"
proof -
  have "case trusty_std_call32 script_platform SMC_SC_TRUSTY_IPC_HANDLE_QL_DEV_CMD 1 2 3
      demo_busy_machine of Ret r w \<Rightarrow> r = 7 | _ \<Rightarrow> False"
    by code_simp
  then show ?thesis by (auto split: outcome.splits)
qed

lemma trusty_std_call32_convention_witness:
  "\<exists>w' t. trusty_std_call32 script_platform SMC_SC_TRUSTY_IPC_HANDLE_QL_DEV_CMD 1 2 3
     demo_busy_machine = Ret 7 w' \<and> calls w' = t \<and>
     disc_run (False, False) t = Some (False, False) \<and> (\<exists>t'. t = C_lock # t' @ [C_unlock])"
proof -
  obtain w' where w': "trusty_std_call32 script_platform SMC_SC_TRUSTY_IPC_HANDLE_QL_DEV_CMD 1 2 3
      demo_busy_machine = Ret 7 w'" using demo_std_call by blast
  from trusty_std_call32_convention [OF this] w' show ?thesis
    by (auto simp: demo_busy_machine_def script_machine_def smc_number_values)
qed

text \<open>
  C8: a standard call returns. If the secure monitor makes progress in a measure \<open>\<mu>\<close> and every
  loop is granted at least \<open>\<mu>\<close> iterations, \<open>trusty_std_call32\<close> returns, for every call number and
  arguments.
\<close>

theorem trusty_std_call32_terminates:
  assumes "monitor_progress P \<mu>" "\<mu> (env w) \<le> fuel P"
  shows "returns (\<lambda>_ _. True) (trusty_std_call32 P nr a b c w)"
proof -
  have lock: "returns (\<lambda>_ w'. \<mu> (env w') \<le> \<mu> (env w))
      (if nr \<noteq> SMC_SC_NOP then sys_call P C_lock w else Ret () w)"
    using sys_call_progress [OF assms(1), of w] by simp
  show ?thesis
    unfolding trusty_std_call32_def trusty_std_call_helper_def
    by (rule returns_obindI [OF lock],
        rule returns_obindI [OF std_call_helper_loop_returns [OF assms(1), where k = "fuel P"]],
        rule_tac [4] returns_obindI [OF std_call_restart_loop_returns [OF assms(1)]])
       (use assms(2) in \<open>auto simp: sys_call_def\<close>)
qed

lemma trusty_std_call32_terminates_witness:
  "monitor_progress script_platform (\<lambda>e. length (fst e)) \<and>
   returns (\<lambda>_ _. True) (trusty_std_call32 script_platform SMC_SC_NOP 0 0 0 demo_busy_machine)"
  using trusty_std_call32_terminates [OF script_progress, of demo_busy_machine SMC_SC_NOP 0 0 0]
    script_progress
  by (simp add: demo_busy_machine_def script_machine_def)

text \<open>
  A busy monitor is called six times in a row. Between disabling and restoring interrupts,
  \<open>trusty_std_call_inner\<close> issues its call at least once and at most six times, and gives
  \<open>SM_ERR_BUSY\<close> back to its caller only after all six.
\<close>

theorem trusty_std_call_inner_attempts:
  assumes "trusty_std_call_inner P nr a b c w = Ret r w'"
    and "[nr, a, b, c, 0, 0, 0, 0] \<noteq> restart_fiq_regs"
  shows "\<exists>t. calls w' = calls w @ t \<and> 1 \<le> issues [nr, a, b, c, 0, 0, 0, 0] t \<and>
     issues [nr, a, b, c, 0, 0, 0, 0] t \<le> 6 \<and>
     (c_int r = SM_ERR_BUSY \<longrightarrow> issues [nr, a, b, c, 0, 0, 0, 0] t = 6)"
  using std_call_retry_loop_issues [OF assms(1) [unfolded trusty_std_call_inner_def] assms(2)]
  by auto

lemma trusty_std_call_inner_attempts_witness:
  "\<exists>r w'. trusty_std_call_inner script_platform 5 1 2 3
      (script_machine (replicate 9 (reply 0xfffffffb 0, None))) = Ret r w' \<and>
     issues [5, 1, 2, 3, 0, 0, 0, 0] (calls w') = 6"
proof -
  have "case trusty_std_call_inner script_platform 5 1 2 3
      (script_machine (replicate 9 (reply 0xfffffffb 0, None))) of
      Ret r w' \<Rightarrow> c_int r = SM_ERR_BUSY | _ \<Rightarrow> False"
    by code_simp
  then obtain r w' where r: "trusty_std_call_inner script_platform 5 1 2 3
      (script_machine (replicate 9 (reply 0xfffffffb 0, None))) = Ret r w'" "c_int r = SM_ERR_BUSY"
    by (auto split: outcome.splits)
  with trusty_std_call_inner_attempts [OF r(1)] show ?thesis
    by (auto simp: script_machine_def smc_number_values)
qed

text \<open>
  C9: sharing memory sends the FF-A transaction. On a device with a transmit buffer,
  \<open>trusty_dev_share_memory\<close> never leaves the buffer, overwrites exactly its first 80 bytes with
  the encoding of the transaction (one endpoint, the remote id; one constituent, the given pages),
  then makes the single call \<open>FFA_MEM_SHARE\<close> with that length, and returns the handle of the reply
  on \<open>FFA_SUCCESS\<close> and -1 without an id otherwise. On a device without one it makes no call and
  the id is the page attribute itself.
\<close>

theorem trusty_dev_share_memory_transaction:
  assumes "dev_ready dev w"
  shows "if td_ffa_tx dev = 0
     then trusty_dev_share_memory P dev pinfo n w = Ret (0, Some (pi_attr pinfo)) w
     else \<exists>buf ret e m. shm w (td_ffa_tx dev) = Some buf \<and>
       secmon P [ucast SMC_FC_FFA_MEM_SHARE, 80, 80, 0, 0, 0, 0, 0] (env w)
         ((shm w)(td_ffa_tx dev \<mapsto> share_transaction dev pinfo n @ drop 80 buf)) = (ret, e, m) \<and>
       trusty_dev_share_memory P dev pinfo n w =
         Ret (if (ucast (r0 ret) :: u32) = SMC_FC_FFA_SUCCESS then (0, Some (r2 ret)) else (-1, None))
           (w\<lparr>env := e,
              calls := calls w @ [C_smc8 [ucast SMC_FC_FFA_MEM_SHARE, 80, 80, 0, 0, 0, 0, 0] (r0 ret)],
              shm := m\<rparr>)"
proof (cases "td_ffa_tx dev = 0")
  case True
  then show ?thesis by (simp add: trusty_dev_share_memory_def)
next
  case False
  with assms obtain buf where buf: "shm w (td_ffa_tx dev) = Some buf" "80 \<le> length buf"
    by (auto simp: dev_ready_def PAGE_SIZE_def)
  have "put_bytes 0 (share_transaction dev pinfo n) buf = share_transaction dev pinfo n @ drop 80 buf"
    by (simp add: put_bytes_def)
  with False buf show ?thesis
    by (cases "secmon P [ucast SMC_FC_FFA_MEM_SHARE, 80, 80, 0, 0, 0, 0, 0] (env w)
          ((shm w)(td_ffa_tx dev \<mapsto> share_transaction dev pinfo n @ drop 80 buf))")
       (auto simp: trusty_dev_share_memory_def build_mtd_eq smc_ffa_def smc8_def mtd_tx_size_def
        cons_mrd_offset_def)
qed

definition demo_dev :: trusty_dev where
  "demo_dev = \<lparr>td_priv_data = 0, td_api_version = 5, td_ffa_local_id = 1, td_ffa_remote_id = 0x8000,
     td_ffa_tx = 0x1000, td_ffa_rx = 0x2000\<rparr>"

definition demo_pinfo :: ns_mem_page_info where
  "demo_pinfo =
     \<lparr>pi_attr = 0x3000, pi_paddr = 0x3000, pi_ffa_mem_attr = 0x2f, pi_ffa_mem_perm = 0x06\<rparr>"

definition demo_share_machine :: "script machine" where
  "demo_share_machine =
     (script_machine [(reply 0x84000061 0x77, None)])\<lparr>shm := [0x1000 \<mapsto> replicate 4096 0]\<rparr>"

lemma demo_dev_ready: "dev_ready demo_dev demo_share_machine"
  by (simp add: dev_ready_def demo_dev_def demo_share_machine_def PAGE_SIZE_def)

lemma trusty_dev_share_memory_transaction_witness:
  "\<exists>w'. trusty_dev_share_memory script_platform demo_dev demo_pinfo 1 demo_share_machine =
     Ret (0, Some 0x77) w'"
  using trusty_dev_share_memory_transaction [OF demo_dev_ready, of script_platform demo_pinfo 1]
  by (auto simp: demo_share_machine_def demo_dev_def script_machine_def script_platform_def reply_def
      script_write_def ffa_number_values)

text \<open>
  Reclaiming undoes sharing by handle. \<open>trusty_dev_reclaim_memory\<close> passes the handle in two
  32 bit halves from which the secure side recovers all of it, and reports 0 exactly when the reply
  is \<open>FFA_SUCCESS\<close>; without a transmit buffer it does nothing.
\<close>

theorem trusty_dev_reclaim_memory_handle:
  "if td_ffa_tx dev = 0 then trusty_dev_reclaim_memory P dev mem_id w = Ret 0 w
   else \<exists>lo hi ret e m. mem_id = push_bit 32 hi OR lo \<and> lo < 2 ^ 32 \<and> hi < 2 ^ 32 \<and>
     secmon P [ucast SMC_FC_FFA_MEM_RECLAIM, lo, hi, 0, 0, 0, 0, 0] (env w) (shm w) = (ret, e, m) \<and>
     trusty_dev_reclaim_memory P dev mem_id w =
       Ret (if (ucast (r0 ret) :: u32) = SMC_FC_FFA_SUCCESS then 0 else -1)
         (w\<lparr>env := e,
            calls := calls w @ [C_smc8 [ucast SMC_FC_FFA_MEM_RECLAIM, lo, hi, 0, 0, 0, 0, 0] (r0 ret)],
            shm := m\<rparr>)"
proof (cases "td_ffa_tx dev = 0")
  case True
  then show ?thesis by (simp add: trusty_dev_reclaim_memory_def)
next
  case False
  let ?lo = "ucast (ucast mem_id :: u32) :: u64" and ?hi = "drop_bit 32 mem_id"
  have "mem_id = push_bit 32 ?hi OR ?lo" "?lo < 2 ^ 32" "?hi < 2 ^ 32"
    by (rule word_halves)+
  moreover obtain ret e m where
    "secmon P [ucast SMC_FC_FFA_MEM_RECLAIM, ?lo, ?hi, 0, 0, 0, 0, 0] (env w) (shm w) = (ret, e, m)"
    by (rule prod_cases3)
  ultimately show ?thesis
    unfolding if_not_P [OF False]
    by (intro exI [of _ ?lo] exI [of _ ?hi] exI [of _ ret] exI [of _ e] exI [of _ m])
       (simp add: False trusty_dev_reclaim_memory_def smc_ffa_def smc8_def)
qed

lemma trusty_dev_init_Ret:
  assumes "trusty_dev_init P dev priv w = Ret (r, dev') w'" and "keeps_buffers P"
  shows "dev_ready dev' w' \<and> td_priv_data dev' = priv \<and>
     (r = 0 \<and> td_api_version dev' \<le> TRUSTY_API_VERSION_CURRENT \<and>
        (if td_api_version dev' < TRUSTY_API_VERSION_MEM_OBJ then td_ffa_tx dev' = 0
         else td_ffa_tx dev' \<noteq> 0 \<and> td_ffa_rx dev' \<noteq> 0 \<and> td_ffa_remote_id dev' = 0x8000 \<and>
           (\<exists>buf. shm w' (td_ffa_rx dev') = Some buf \<and> length buf = PAGE_SIZE)) \<or>
      r = -1 \<and> td_ffa_tx dev' = 0)"
proof -
  let ?d = "dev\<lparr>td_priv_data := priv, td_ffa_tx := 0\<rparr>"
  from assms(1) obtain rv d1 w1 where api: "trusty_init_api_version P ?d w = Ret (rv, d1) w1"
    by (auto simp: trusty_dev_init_def outcome_simps)
  note v = trusty_init_api_version_Ret [OF api]
  show ?thesis
  proof (cases "rv = 0 \<and> \<not> td_api_version d1 < TRUSTY_API_VERSION_MEM_OBJ")
    case False
    with assms(1) api v show ?thesis
      by (auto simp: trusty_dev_init_def dev_ready_def split: if_splits)
  next
    case True
    with assms(1) api obtain tx rx i s w2 wt wr we1 we2 p1 p2 where
      "trusty_alloc_pages P 1 w2 = Ret tx wt" "tx \<noteq> 0"
      "trusty_alloc_pages P 1 wt = Ret rx wr" "rx \<noteq> 0"
      "trusty_encode_page_info P (uninit_page_info P) tx wr = Ret (0, p1) we1"
      "trusty_encode_page_info P (uninit_page_info P) rx we1 = Ret (0, p2) we2"
      "smc_ffa P SMC_FC64_FFA_RXTX_MAP (pi_paddr p1) (pi_paddr p2) 1 we2 = Ret s w'"
      and d: "r = 0"
        "dev' = d1\<lparr>td_ffa_local_id := i, td_ffa_remote_id := 0x8000, td_ffa_tx := tx, td_ffa_rx := rx\<rparr>"
      by (auto simp: trusty_dev_init_def outcome_simps Let_def split: if_splits prod.splits)
    with assms(2) have "\<exists>b. shm w' tx = Some b \<and> length b = PAGE_SIZE"
      "\<exists>b. shm w' rx = Some b \<and> length b = PAGE_SIZE" "tx \<noteq> 0" "rx \<noteq> 0"
      using init_mailboxes by metis+
    with True d v show ?thesis by (auto simp: dev_ready_def)
  qed
qed

text \<open>
  A device that \<open>trusty_dev_init\<close> accepts is ready. If it returns 0 the negotiated version is
  at most the current one, and either memory objects are not supported and there is no transmit
  buffer, or the version is current, the FF-A major version agreed, both mailbox pages exist as
  page-sized buffers and the remote endpoint is 0x8000; if it returns anything else it is -1 and
  the monitor reported a newer version. In every case the device invariant holds afterwards.
\<close>

theorem trusty_dev_init_ready:
  assumes "trusty_dev_init P dev priv w = Ret (r, dev') w'" and "keeps_buffers P"
  shows "dev_ready dev' w' \<and> td_priv_data dev' = priv \<and>
     (r = 0 \<and> td_api_version dev' \<le> TRUSTY_API_VERSION_CURRENT \<and>
        (if td_api_version dev' < TRUSTY_API_VERSION_MEM_OBJ then td_ffa_tx dev' = 0
         else td_ffa_tx dev' \<noteq> 0 \<and> td_ffa_rx dev' \<noteq> 0 \<and> td_ffa_remote_id dev' = 0x8000 \<and>
           (\<exists>buf. shm w' (td_ffa_rx dev') = Some buf \<and> length buf = PAGE_SIZE)) \<or>
      r = -1 \<and> td_ffa_tx dev' = 0)"
  using assms by (rule trusty_dev_init_Ret)

definition demo_init_replies :: "(smc_ret8 \<times> (u64 \<times> bytes) option) list" where
  "demo_init_replies = [(reply 5 0, None), (reply 0x10000 0, None), (reply 0x84000061 0, None),
     (reply 0x84000061 1, None), (reply 0x84000061 0, None)]"

lemma demo_init: "\<exists>dev' w'. trusty_dev_init script_platform demo_dev 9 (script_machine demo_init_replies) =
    Ret (0, dev') w' \<and> td_api_version dev' = 5"
  by (simp add: trusty_dev_init_def trusty_init_api_version_def trusty_fast_call32_def smc_def smc8_def
      smc_ffa_def script_platform_def script_machine_def demo_init_replies_def reply_def script_write_def
      trusty_alloc_pages_def trusty_encode_page_info_def ffa_number_values FFA_VERSION_TO_MAJOR_def
      FFA_CURRENT_VERSION_MAJOR_def TRUSTY_API_VERSION_CURRENT_def TRUSTY_API_VERSION_MEM_OBJ_def
      SM_ERR_UNDEFINED_SMC_def c_int_def drop_bit_eq_div)

lemma trusty_dev_init_ready_witness:
  "\<exists>dev' w'. trusty_dev_init script_platform demo_dev 9 (script_machine demo_init_replies) =
     Ret (0, dev') w' \<and> dev_ready dev' w' \<and> td_ffa_tx dev' \<noteq> 0"
proof -
  from demo_init obtain dev' w' where
    i: "trusty_dev_init script_platform demo_dev 9 (script_machine demo_init_replies) = Ret (0, dev') w'"
      "td_api_version dev' = 5" by blast
  from trusty_dev_init_ready [OF i(1) script_keeps_buffers] i show ?thesis
    by (auto simp: TRUSTY_API_VERSION_MEM_OBJ_def)
qed

end
