(* ===== verification/Ipc_Dev.thy ===== *)
theory Ipc_Dev
  imports Trusty_Dev
begin

text \<open>
  The Trusty IPC device, \<open>ql-tipc/ipc_dev.c\<close>: commands to the secure side are laid out in a shared
  buffer, executed by a monitor call, and answered in the same buffer. An iovec is the content of
  the object its base points to together with the length it announces; distinct iovecs are distinct
  objects. The lemmas show that each operation transmits the encoding of one abstract command and
  decodes its answer, what it returns on every branch, where it stays inside of the shared buffer,
  and that creating and shutting down a device is balanced in its allocations.
\<close>

section \<open>Types and constants (trusty\_ipc.h)\<close>

type_synonym handle_t = u32

text \<open>A C string, without its terminating zero.\<close>

type_synonym cstring = bytes

definition INVALID_IPC_HANDLE :: handle_t where "INVALID_IPC_HANDLE = 0"

definition TRUSTY_ERR_NONE :: int where "TRUSTY_ERR_NONE = 0"
definition TRUSTY_ERR_GENERIC :: int where "TRUSTY_ERR_GENERIC = -1"
definition TRUSTY_ERR_NOT_SUPPORTED :: int where "TRUSTY_ERR_NOT_SUPPORTED = -2"
definition TRUSTY_ERR_NO_MEMORY :: int where "TRUSTY_ERR_NO_MEMORY = -3"
definition TRUSTY_ERR_INVALID_ARGS :: int where "TRUSTY_ERR_INVALID_ARGS = -4"
definition TRUSTY_ERR_SECOS_ERR :: int where "TRUSTY_ERR_SECOS_ERR = -5"
definition TRUSTY_ERR_MSG_TOO_BIG :: int where "TRUSTY_ERR_MSG_TOO_BIG = -6"
definition TRUSTY_ERR_NO_MSG :: int where "TRUSTY_ERR_NO_MSG = -7"
definition TRUSTY_ERR_CHANNEL_CLOSED :: int where "TRUSTY_ERR_CHANNEL_CLOSED = -8"
definition TRUSTY_ERR_SEND_BLOCKED :: int where "TRUSTY_ERR_SEND_BLOCKED = -9"
definition TRUSTY_EVENT_HANDLED :: int where "TRUSTY_EVENT_HANDLED = 1"
definition TRUSTY_EVENT_NONE :: int where "TRUSTY_EVENT_NONE = 2"

definition IPC_HANDLE_POLL_NONE :: u32 where "IPC_HANDLE_POLL_NONE = 0x0"
definition IPC_HANDLE_POLL_READY :: u32 where "IPC_HANDLE_POLL_READY = 0x1"
definition IPC_HANDLE_POLL_ERROR :: u32 where "IPC_HANDLE_POLL_ERROR = 0x2"
definition IPC_HANDLE_POLL_HUP :: u32 where "IPC_HANDLE_POLL_HUP = 0x4"
definition IPC_HANDLE_POLL_MSG :: u32 where "IPC_HANDLE_POLL_MSG = 0x8"
definition IPC_HANDLE_POLL_SEND_UNBLOCKED :: u32 where "IPC_HANDLE_POLL_SEND_UNBLOCKED = 0x10"

lemmas trusty_err_defs = TRUSTY_ERR_NONE_def TRUSTY_ERR_GENERIC_def TRUSTY_ERR_NOT_SUPPORTED_def
  TRUSTY_ERR_NO_MEMORY_def TRUSTY_ERR_INVALID_ARGS_def TRUSTY_ERR_SECOS_ERR_def
  TRUSTY_ERR_MSG_TOO_BIG_def TRUSTY_ERR_NO_MSG_def TRUSTY_ERR_CHANNEL_CLOSED_def
  TRUSTY_ERR_SEND_BLOCKED_def TRUSTY_EVENT_HANDLED_def TRUSTY_EVENT_NONE_def

record trusty_ipc_event =
  ev_event :: u32
  ev_handle :: u32
  ev_cookie :: u64

record trusty_ipc_iovec =
  iov_base :: bytes
  iov_len :: u64

record trusty_ipc_dev =
  id_buf_vaddr :: u64
  id_buf_size :: u64
  id_buf_id :: u64
  id_buf_ns :: ns_mem_page_info
  id_tdev :: trusty_dev
  id_self :: u64

text \<open>The device record also keeps its own address, \<open>id_self\<close>, which \<open>trusty_free\<close> is given.\<close>

definition QL_TIPC_DEV_RESP :: u16 where "QL_TIPC_DEV_RESP = 0x8000"
definition QL_TIPC_DEV_CONNECT :: u16 where "QL_TIPC_DEV_CONNECT = 0x1"
definition QL_TIPC_DEV_GET_EVENT :: u16 where "QL_TIPC_DEV_GET_EVENT = 0x2"
definition QL_TIPC_DEV_SEND :: u16 where "QL_TIPC_DEV_SEND = 0x3"
definition QL_TIPC_DEV_RECV :: u16 where "QL_TIPC_DEV_RECV = 0x4"
definition QL_TIPC_DEV_DISCONNECT :: u16 where "QL_TIPC_DEV_DISCONNECT = 0x5"
definition QL_TIPC_DEV_FC_HAS_EVENT :: u16 where "QL_TIPC_DEV_FC_HAS_EVENT = 0x100"

text \<open>The command header at the start of the shared buffer, and the offsets of its fields.\<close>

record trusty_ipc_cmd_hdr =
  hdr_opcode :: u16
  hdr_flags :: u16
  hdr_status :: u32
  hdr_handle :: u32
  hdr_payload_len :: u32

abbreviation (input) OFF_opcode :: nat where "OFF_opcode \<equiv> 0"
abbreviation (input) OFF_status :: nat where "OFF_status \<equiv> 4"
abbreviation (input) OFF_handle :: nat where "OFF_handle \<equiv> 8"
abbreviation (input) OFF_payload_len :: nat where "OFF_payload_len \<equiv> 12"
abbreviation (input) SIZEOF_cmd :: nat where "SIZEOF_cmd \<equiv> 16"
abbreviation (input) SIZEOF_connect_req :: nat where "SIZEOF_connect_req \<equiv> 16"
abbreviation (input) SIZEOF_wait_req :: nat where "SIZEOF_wait_req \<equiv> 8"

definition shm_read_u16 ::
  "u64 \<Rightarrow> nat \<Rightarrow> ('e, 'z) machine_scheme \<Rightarrow> (u16, ('e, 'z) machine_scheme) outcome"
where
  "shm_read_u16 va off w = obind (shm_read va off 2 w) (\<lambda>bs w. Ret (le_word bs) w)"

definition shm_read_u32 ::
  "u64 \<Rightarrow> nat \<Rightarrow> ('e, 'z) machine_scheme \<Rightarrow> (u32, ('e, 'z) machine_scheme) outcome"
where
  "shm_read_u32 va off w = obind (shm_read va off 4 w) (\<lambda>bs w. Ret (le_word bs) w)"

section \<open>Gathering and scattering iovecs\<close>

definition iovec_size :: "trusty_ipc_iovec list \<Rightarrow> u64" where
  "iovec_size iovs = foldl (\<lambda>cb iov. cb + iov_len iov) 0 iovs"

text \<open>The loop of \<open>iovec_to_buf\<close>; \<open>off\<close> is where the destination starts in the buffer at \<open>va\<close>.\<close>

fun iovec_to_buf_loop ::
  "u64 \<Rightarrow> nat \<Rightarrow> u64 \<Rightarrow> u64 \<Rightarrow> trusty_ipc_iovec list \<Rightarrow> ('e, 'z) machine_scheme \<Rightarrow>
   (u64, ('e, 'z) machine_scheme) outcome"
where
  "iovec_to_buf_loop va off buf_pos buf_len [] w = Ret buf_pos w"
| "iovec_to_buf_loop va off buf_pos buf_len (iov # iovs) w =
     (let to_copy = iov_len iov in
      if to_copy = 0 then iovec_to_buf_loop va off buf_pos buf_len iovs w
      else
        let to_copy = (if to_copy > buf_len then buf_len else to_copy) in
        if length (iov_base iov) < unat to_copy then Fault
        else
          obind (shm_write va (off + unat buf_pos) (take (unat to_copy) (iov_base iov)) w) (\<lambda>_ w.
            let buf_pos = buf_pos + to_copy; buf_len = buf_len - to_copy in
            if buf_len = 0 then Ret buf_pos w
            else iovec_to_buf_loop va off buf_pos buf_len iovs w))"

definition iovec_to_buf ::
  "u64 \<Rightarrow> nat \<Rightarrow> u64 \<Rightarrow> trusty_ipc_iovec list \<Rightarrow> ('e, 'z) machine_scheme \<Rightarrow>
   (u64, ('e, 'z) machine_scheme) outcome"
where
  "iovec_to_buf va off buf_len iovs w = iovec_to_buf_loop va off 0 buf_len iovs w"

text \<open>The loop of \<open>buf_to_iovec\<close>; it returns the bytes copied and the iovecs with their new content.\<close>

fun buf_to_iovec_loop ::
  "u64 \<Rightarrow> nat \<Rightarrow> u64 \<Rightarrow> u64 \<Rightarrow> trusty_ipc_iovec list \<Rightarrow> ('e, 'z) machine_scheme \<Rightarrow>
   (u64 \<times> trusty_ipc_iovec list, ('e, 'z) machine_scheme) outcome"
where
  "buf_to_iovec_loop va buf_ptr buf_len copied [] w = Ret (copied, []) w"
| "buf_to_iovec_loop va buf_ptr buf_len copied (iov # iovs) w =
     (let to_copy = (if buf_len > iov_len iov then iov_len iov else buf_len) in
      if to_copy = 0 then
        obind (buf_to_iovec_loop va buf_ptr buf_len copied iovs w) (\<lambda>(n, iovs') w. Ret (n, iov # iovs') w)
      else if length (iov_base iov) < unat to_copy then Fault
      else
        obind (shm_read va buf_ptr (unat to_copy) w) (\<lambda>bs w.
          let iov = iov\<lparr>iov_base := put_bytes 0 bs (iov_base iov)\<rparr>;
              copied = copied + to_copy; buf_ptr = buf_ptr + unat to_copy; buf_len = buf_len - to_copy
          in if buf_len = 0 then Ret (copied, iov # iovs) w
             else obind (buf_to_iovec_loop va buf_ptr buf_len copied iovs w)
                    (\<lambda>(n, iovs') w. Ret (n, iov # iovs') w)))"

definition buf_to_iovec ::
  "trusty_ipc_iovec list \<Rightarrow> u64 \<Rightarrow> nat \<Rightarrow> u64 \<Rightarrow> ('e, 'z) machine_scheme \<Rightarrow>
   (u64 \<times> trusty_ipc_iovec list, ('e, 'z) machine_scheme) outcome"
where
  "buf_to_iovec iovs va off buf_len w =
     (if iovs = [] \<or> buf_len = 0 then Ret (0, iovs) w
      else buf_to_iovec_loop va off buf_len 0 iovs w)"

definition check_response ::
  "u64 \<Rightarrow> u16 \<Rightarrow> ('e, 'z) machine_scheme \<Rightarrow> (int, ('e, 'z) machine_scheme) outcome"
where
  "check_response va cmd w =
     obind (shm_read_u16 va OFF_opcode w) (\<lambda>opcode w.
       if opcode \<noteq> cmd OR QL_TIPC_DEV_RESP then Ret TRUSTY_ERR_SECOS_ERR w
       else
         obind (shm_read_u32 va OFF_status w) (\<lambda>status w.
           if status \<noteq> 0 then Ret TRUSTY_ERR_SECOS_ERR w else Ret TRUSTY_ERR_NONE w))"

section \<open>Creating and shutting down the device\<close>

abbreviation (input) SIZEOF_ipc_dev :: u64 where "SIZEOF_ipc_dev \<equiv> 56"

text \<open>The error exits of \<open>trusty_ipc_dev_create\<close>, by the label they start from.\<close>

definition create_err_alloc_pages ::
  "'e platform \<Rightarrow> trusty_ipc_dev \<Rightarrow> int \<Rightarrow> ('e, 'z) machine_scheme \<Rightarrow>
   (int \<times> trusty_ipc_dev option, ('e, 'z) machine_scheme) outcome"
where
  "create_err_alloc_pages P dev rc w =
     obind (sys_call P (C_free (id_self dev)) w) (\<lambda>_ w. Ret (rc, None) w)"

definition create_err_share_memory ::
  "'e platform \<Rightarrow> trusty_ipc_dev \<Rightarrow> int \<Rightarrow> ('e, 'z) machine_scheme \<Rightarrow>
   (int \<times> trusty_ipc_dev option, ('e, 'z) machine_scheme) outcome"
where
  "create_err_share_memory P dev rc w =
     obind (trusty_free_pages P (id_buf_vaddr dev) (ucast (id_buf_size dev div of_nat PAGE_SIZE)) w)
       (\<lambda>_ w. create_err_alloc_pages P dev rc w)"

definition create_err_create_sec_dev ::
  "'e platform \<Rightarrow> trusty_ipc_dev \<Rightarrow> int \<Rightarrow> ('e, 'z) machine_scheme \<Rightarrow>
   (int \<times> trusty_ipc_dev option, ('e, 'z) machine_scheme) outcome"
where
  "create_err_create_sec_dev P dev rc w =
     obind (trusty_dev_reclaim_memory P (id_tdev dev) (id_buf_id dev) w) (\<lambda>rc2 w.
       if rc2 \<noteq> 0 then Abort w else create_err_share_memory P dev rc w)"

definition trusty_ipc_dev_create ::
  "'e platform \<Rightarrow> trusty_dev \<Rightarrow> u64 \<Rightarrow> ('e, 'z) machine_scheme \<Rightarrow>
   (int \<times> trusty_ipc_dev option, ('e, 'z) machine_scheme) outcome"
where
  "trusty_ipc_dev_create P tdev shared_buf_size w =
     obind (trusty_calloc P 1 SIZEOF_ipc_dev w) (\<lambda>self w.
     if self = 0 then Ret (TRUSTY_ERR_NO_MEMORY, None) w else
     let dev = \<lparr>id_buf_vaddr = 0, id_buf_size = shared_buf_size, id_buf_id = 0,
                id_buf_ns = \<lparr>pi_attr = 0, pi_paddr = 0, pi_ffa_mem_attr = 0, pi_ffa_mem_perm = 0\<rparr>,
                id_tdev = tdev, id_self = self\<rparr> in
     obind (trusty_alloc_pages P (ucast (shared_buf_size div of_nat PAGE_SIZE)) w) (\<lambda>vaddr w.
     let dev = dev\<lparr>id_buf_vaddr := vaddr\<rparr> in
     if vaddr = 0 then create_err_alloc_pages P dev TRUSTY_ERR_NO_MEMORY w else
     obind (trusty_encode_page_info P (id_buf_ns dev) vaddr w) (\<lambda>(rc, ns) w.
     let dev = dev\<lparr>id_buf_ns := ns\<rparr> in
     if rc \<noteq> 0 then create_err_create_sec_dev P dev TRUSTY_ERR_GENERIC w else
     obind (trusty_dev_share_memory P tdev ns (id_buf_size dev div of_nat PAGE_SIZE) w) (\<lambda>(rc, idp) w.
     let dev = dev\<lparr>id_buf_id := (case idp of None \<Rightarrow> id_buf_id dev | Some i \<Rightarrow> i)\<rparr> in
     if rc \<noteq> 0 then create_err_share_memory P dev TRUSTY_ERR_SECOS_ERR w else
     obind (trusty_dev_init_ipc P tdev (id_buf_id dev) (ucast (id_buf_size dev)) w) (\<lambda>rc w.
     if rc \<noteq> 0 then create_err_create_sec_dev P dev TRUSTY_ERR_SECOS_ERR w
     else Ret (TRUSTY_ERR_NONE, Some dev) w)))))"

definition trusty_ipc_dev_shutdown ::
  "'e platform \<Rightarrow> trusty_ipc_dev \<Rightarrow> ('e, 'z) machine_scheme \<Rightarrow>
   (unit, ('e, 'z) machine_scheme) outcome"
where
  "trusty_ipc_dev_shutdown P dev w =
     obind (trusty_dev_shutdown_ipc P (id_tdev dev) (id_buf_id dev) (ucast (id_buf_size dev)) w) (\<lambda>rc w.
     obind (trusty_dev_reclaim_memory P (id_tdev dev) (id_buf_id dev) w) (\<lambda>rc w.
     if rc \<noteq> 0 then Abort w else
     obind (trusty_free_pages P (id_buf_vaddr dev) (ucast (id_buf_size dev div of_nat PAGE_SIZE)) w) (\<lambda>_ w.
     sys_call P (C_free (id_self dev)) w)))"

section \<open>The commands\<close>

text \<open>\<open>sizeof(*cmd) + cmd->payload_len\<close>, read back from the buffer and narrowed to 32 bits.\<close>

definition cmd_size ::
  "u64 \<Rightarrow> ('e, 'z) machine_scheme \<Rightarrow> (u32, ('e, 'z) machine_scheme) outcome"
where
  "cmd_size va w =
     obind (shm_read_u32 va OFF_payload_len w) (\<lambda>n w.
       Ret (ucast (of_nat SIZEOF_cmd + ucast n :: u64)) w)"

definition trusty_ipc_dev_connect ::
  "'e platform \<Rightarrow> trusty_ipc_dev \<Rightarrow> cstring \<Rightarrow> u64 \<Rightarrow> ('e, 'z) machine_scheme \<Rightarrow>
   (int, ('e, 'z) machine_scheme) outcome"
where
  "trusty_ipc_dev_connect P dev port cookie w =
     (let port_len = of_nat (length port) + 1 :: u64; cmd = id_buf_vaddr dev in
      if port_len > id_buf_size dev - of_nat SIZEOF_cmd + of_nat SIZEOF_connect_req
      then Ret TRUSTY_ERR_INVALID_ARGS w
      else
        obind (shm_write cmd 0 (replicate SIZEOF_cmd 0) w) (\<lambda>_ w.
        obind (shm_write cmd OFF_opcode (le16 QL_TIPC_DEV_CONNECT) w) (\<lambda>_ w.
        obind (shm_write cmd SIZEOF_cmd (replicate SIZEOF_connect_req 0) w) (\<lambda>_ w.
        obind (shm_write cmd SIZEOF_cmd (le64 cookie) w) (\<lambda>_ w.
        obind (shm_write cmd (SIZEOF_cmd + SIZEOF_connect_req) (port @ [0]) w) (\<lambda>_ w.
        obind (shm_write cmd OFF_payload_len (le32 (ucast (of_nat SIZEOF_connect_req + port_len))) w) (\<lambda>_ w.
        obind (cmd_size cmd w) (\<lambda>n w.
        obind (trusty_dev_exec_ipc P (id_tdev dev) (id_buf_id dev) n w) (\<lambda>rc w.
        if rc \<noteq> 0 then Ret TRUSTY_ERR_SECOS_ERR w else
        obind (check_response cmd QL_TIPC_DEV_CONNECT w) (\<lambda>rc w.
        if rc \<noteq> 0 then Ret rc w else
        obind (shm_read_u32 cmd OFF_handle w) (\<lambda>h w. Ret (c_int h) w)))))))))))"

definition trusty_ipc_dev_close ::
  "'e platform \<Rightarrow> trusty_ipc_dev \<Rightarrow> handle_t \<Rightarrow> ('e, 'z) machine_scheme \<Rightarrow>
   (int, ('e, 'z) machine_scheme) outcome"
where
  "trusty_ipc_dev_close P dev handle w =
     (let cmd = id_buf_vaddr dev in
      obind (shm_write cmd 0 (replicate SIZEOF_cmd 0) w) (\<lambda>_ w.
      obind (shm_write cmd OFF_opcode (le16 QL_TIPC_DEV_DISCONNECT) w) (\<lambda>_ w.
      obind (shm_write cmd OFF_handle (le32 handle) w) (\<lambda>_ w.
      obind (cmd_size cmd w) (\<lambda>n w.
      obind (trusty_dev_exec_ipc P (id_tdev dev) (id_buf_id dev) n w) (\<lambda>rc w.
      if rc \<noteq> 0 then Ret TRUSTY_ERR_SECOS_ERR w else
      obind (check_response cmd QL_TIPC_DEV_DISCONNECT w) (\<lambda>rc w.
      if rc \<noteq> 0 then Ret rc w else Ret TRUSTY_ERR_NONE w)))))))"

definition trusty_ipc_dev_has_event ::
  "'e platform \<Rightarrow> trusty_ipc_dev \<Rightarrow> handle_t \<Rightarrow> ('e, 'z) machine_scheme \<Rightarrow>
   (bool, ('e, 'z) machine_scheme) outcome"
where
  "trusty_ipc_dev_has_event P dev chan w =
     (let cmd = id_buf_vaddr dev in
      obind (shm_write cmd 0 (replicate SIZEOF_cmd 0) w) (\<lambda>_ w.
      obind (shm_write cmd OFF_opcode (le16 QL_TIPC_DEV_FC_HAS_EVENT) w) (\<lambda>_ w.
      obind (shm_write cmd OFF_handle (le32 chan) w) (\<lambda>_ w.
      obind (shm_write cmd OFF_payload_len (le32 0) w) (\<lambda>_ w.
      obind (cmd_size cmd w) (\<lambda>n w.
      obind (trusty_dev_exec_fc_ipc P (id_tdev dev) (id_buf_id dev) n w) (\<lambda>rc w.
      if rc \<noteq> 0 then Ret False w else
      obind (check_response cmd QL_TIPC_DEV_FC_HAS_EVENT w) (\<lambda>rc w.
      if rc \<noteq> 0 then Ret False w else
      obind (shm_read_u32 cmd OFF_payload_len w) (\<lambda>n w.
      if n < 1 then Ret False w else
      obind (shm_read cmd SIZEOF_cmd 1 w) (\<lambda>bs w. Ret (bs \<noteq> [0]) w))))))))))"

definition event_of_bytes :: "bytes \<Rightarrow> trusty_ipc_event" where
  "event_of_bytes bs =
     \<lparr>ev_event = le_word (take 4 bs), ev_handle = le_word (take 4 (drop 4 bs)),
      ev_cookie = le_word (take 8 (drop 8 bs))\<rparr>"

definition trusty_ipc_dev_get_event ::
  "'e platform \<Rightarrow> trusty_ipc_dev \<Rightarrow> handle_t \<Rightarrow> ('e, 'z) machine_scheme \<Rightarrow>
   (int \<times> trusty_ipc_event option, ('e, 'z) machine_scheme) outcome"
where
  "trusty_ipc_dev_get_event P dev chan w =
     (let cmd = id_buf_vaddr dev in
      obind (shm_write cmd 0 (replicate SIZEOF_cmd 0) w) (\<lambda>_ w.
      obind (shm_write cmd OFF_opcode (le16 QL_TIPC_DEV_GET_EVENT) w) (\<lambda>_ w.
      obind (shm_write cmd OFF_handle (le32 chan) w) (\<lambda>_ w.
      obind (shm_write cmd SIZEOF_cmd (replicate SIZEOF_wait_req 0) w) (\<lambda>_ w.
      obind (shm_write cmd OFF_payload_len (le32 (of_nat SIZEOF_wait_req)) w) (\<lambda>_ w.
      obind (cmd_size cmd w) (\<lambda>n w.
      obind (trusty_dev_exec_ipc P (id_tdev dev) (id_buf_id dev) n w) (\<lambda>rc w.
      if rc \<noteq> 0 then Ret (TRUSTY_ERR_SECOS_ERR, None) w else
      obind (check_response cmd QL_TIPC_DEV_GET_EVENT w) (\<lambda>rc w.
      if rc \<noteq> 0 then Ret (rc, None) w else
      obind (shm_read_u32 cmd OFF_payload_len w) (\<lambda>n w.
      if n < 16 then Ret (TRUSTY_ERR_SECOS_ERR, None) w else
      obind (shm_read cmd SIZEOF_cmd 16 w) (\<lambda>bs w.
        Ret (TRUSTY_ERR_NONE, Some (event_of_bytes bs)) w)))))))))))"

definition trusty_ipc_dev_send ::
  "'e platform \<Rightarrow> trusty_ipc_dev \<Rightarrow> handle_t \<Rightarrow> trusty_ipc_iovec list \<Rightarrow> ('e, 'z) machine_scheme \<Rightarrow>
   (int, ('e, 'z) machine_scheme) outcome"
where
  "trusty_ipc_dev_send P dev chan iovs w =
     (let msg_size = iovec_size iovs; cmd = id_buf_vaddr dev in
      if msg_size > id_buf_size dev - of_nat SIZEOF_cmd then Ret TRUSTY_ERR_MSG_TOO_BIG w
      else
        obind (shm_write cmd 0 (replicate SIZEOF_cmd 0) w) (\<lambda>_ w.
        obind (shm_write cmd OFF_opcode (le16 QL_TIPC_DEV_SEND) w) (\<lambda>_ w.
        obind (shm_write cmd OFF_handle (le32 chan) w) (\<lambda>_ w.
        obind (shm_write cmd OFF_payload_len (le32 (ucast msg_size)) w) (\<lambda>_ w.
        obind (iovec_to_buf cmd SIZEOF_cmd (id_buf_size dev - of_nat SIZEOF_cmd) iovs w) (\<lambda>msg_size w.
        obind (cmd_size cmd w) (\<lambda>n w.
        obind (trusty_dev_exec_ipc P (id_tdev dev) (id_buf_id dev) n w) (\<lambda>rc w.
        if rc < 0 then Ret TRUSTY_ERR_SECOS_ERR w
        else check_response cmd QL_TIPC_DEV_SEND w))))))))"

text \<open>The result is the return value and the iovecs with the received data.\<close>

definition trusty_ipc_dev_recv ::
  "'e platform \<Rightarrow> trusty_ipc_dev \<Rightarrow> handle_t \<Rightarrow> trusty_ipc_iovec list \<Rightarrow> ('e, 'z) machine_scheme \<Rightarrow>
   (int \<times> trusty_ipc_iovec list, ('e, 'z) machine_scheme) outcome"
where
  "trusty_ipc_dev_recv P dev chan iovs w =
     (let cmd = id_buf_vaddr dev in
      obind (shm_write cmd 0 (replicate SIZEOF_cmd 0) w) (\<lambda>_ w.
      obind (shm_write cmd OFF_opcode (le16 QL_TIPC_DEV_RECV) w) (\<lambda>_ w.
      obind (shm_write cmd OFF_handle (le32 chan) w) (\<lambda>_ w.
      obind (cmd_size cmd w) (\<lambda>n w.
      obind (trusty_dev_exec_ipc P (id_tdev dev) (id_buf_id dev) n w) (\<lambda>rc w.
      if rc < 0 then Ret (TRUSTY_ERR_SECOS_ERR, iovs) w else
      obind (check_response cmd QL_TIPC_DEV_RECV w) (\<lambda>rc w.
      if rc \<noteq> 0 then Ret (rc, iovs) w else
      obind (shm_read_u32 cmd OFF_payload_len w) (\<lambda>n w.
      obind (buf_to_iovec iovs cmd SIZEOF_cmd (ucast n) w) (\<lambda>(copied, iovs) w.
      obind (shm_read_u32 cmd OFF_payload_len w) (\<lambda>n w.
      if copied \<noteq> ucast n then Ret (TRUSTY_ERR_MSG_TOO_BIG, iovs) w
      else Ret (c_int copied, iovs) w))))))))))"

definition trusty_ipc_dev_idle ::
  "'e platform \<Rightarrow> trusty_ipc_dev \<Rightarrow> bool \<Rightarrow> ('e, 'z) machine_scheme \<Rightarrow>
   (unit, ('e, 'z) machine_scheme) outcome"
where
  "trusty_ipc_dev_idle P dev event_poll w = sys_call P (C_idle event_poll) w"

section \<open>The commands, abstractly\<close>

text \<open>
  What is said to the secure side, apart from where and how it is written: a command with its
  handle and payload, and the message that stands for it in the shared buffer.
\<close>

datatype ipc_cmd =
    Connect cstring u64
  | Disconnect handle_t
  | Has_event handle_t
  | Get_event handle_t
  | Send handle_t bytes
  | Recv handle_t

fun cmd_opcode :: "ipc_cmd \<Rightarrow> u16" where
  "cmd_opcode (Connect port cookie) = QL_TIPC_DEV_CONNECT"
| "cmd_opcode (Disconnect h) = QL_TIPC_DEV_DISCONNECT"
| "cmd_opcode (Has_event h) = QL_TIPC_DEV_FC_HAS_EVENT"
| "cmd_opcode (Get_event h) = QL_TIPC_DEV_GET_EVENT"
| "cmd_opcode (Send h bs) = QL_TIPC_DEV_SEND"
| "cmd_opcode (Recv h) = QL_TIPC_DEV_RECV"

fun cmd_handle :: "ipc_cmd \<Rightarrow> handle_t" where
  "cmd_handle (Connect port cookie) = 0"
| "cmd_handle (Disconnect h) = h"
| "cmd_handle (Has_event h) = h"
| "cmd_handle (Get_event h) = h"
| "cmd_handle (Send h bs) = h"
| "cmd_handle (Recv h) = h"

fun cmd_payload :: "ipc_cmd \<Rightarrow> bytes" where
  "cmd_payload (Connect port cookie) = le64 cookie @ le64 0 @ port @ [0]"
| "cmd_payload (Get_event h) = le64 0"
| "cmd_payload (Send h bs) = bs"
| "cmd_payload c = []"

definition cmd_hdr_bytes :: "trusty_ipc_cmd_hdr \<Rightarrow> bytes" where
  "cmd_hdr_bytes h =
     le16 (hdr_opcode h) @ le16 (hdr_flags h) @ le32 (hdr_status h) @ le32 (hdr_handle h) @
     le32 (hdr_payload_len h)"

definition cmd_hdr_of_bytes :: "bytes \<Rightarrow> trusty_ipc_cmd_hdr" where
  "cmd_hdr_of_bytes bs =
     \<lparr>hdr_opcode = le_word (get_bytes 0 2 bs), hdr_flags = le_word (get_bytes 2 2 bs),
      hdr_status = le_word (get_bytes 4 4 bs), hdr_handle = le_word (get_bytes 8 4 bs),
      hdr_payload_len = le_word (get_bytes 12 4 bs)\<rparr>"

definition cmd_hdr :: "ipc_cmd \<Rightarrow> trusty_ipc_cmd_hdr" where
  "cmd_hdr c =
     \<lparr>hdr_opcode = cmd_opcode c, hdr_flags = 0, hdr_status = 0, hdr_handle = cmd_handle c,
      hdr_payload_len = of_nat (length (cmd_payload c))\<rparr>"

definition encode_cmd :: "ipc_cmd \<Rightarrow> bytes" where
  "encode_cmd c = cmd_hdr_bytes (cmd_hdr c) @ cmd_payload c"

text \<open>
  Transmitting a command: its message is placed at the start of the shared buffer, and a monitor
  call (a fast call for \<open>Has_event\<close>, a standard call otherwise) names the buffer and the message's
  length.
\<close>

definition transmit ::
  "'e platform \<Rightarrow> trusty_ipc_dev \<Rightarrow> ipc_cmd \<Rightarrow> ('e, 'z) machine_scheme \<Rightarrow>
   (int, ('e, 'z) machine_scheme) outcome"
where
  "transmit P dev c w =
     obind (shm_write (id_buf_vaddr dev) 0 (encode_cmd c) w) (\<lambda>_ w.
       (case c of Has_event h \<Rightarrow> trusty_dev_exec_fc_ipc | _ \<Rightarrow> trusty_dev_exec_ipc)
         P (id_tdev dev) (id_buf_id dev) (of_nat (length (encode_cmd c))) w)"

text \<open>The answer: the header and payload found in the buffer after the call.\<close>

definition response_ok :: "u16 \<Rightarrow> trusty_ipc_cmd_hdr \<Rightarrow> bool" where
  "response_ok op h \<longleftrightarrow> hdr_opcode h = op OR QL_TIPC_DEV_RESP \<and> hdr_status h = 0"

section \<open>The device invariant\<close>

definition idev_ok :: "trusty_ipc_dev \<Rightarrow> ('e, 'z) machine_scheme \<Rightarrow> bool" where
  "idev_ok dev w \<longleftrightarrow>
     (\<exists>buf. shm w (id_buf_vaddr dev) = Some buf \<and> length buf = unat (id_buf_size dev)) \<and>
     PAGE_SIZE \<le> unat (id_buf_size dev) \<and> dev_ready (id_tdev dev) w"

definition iov_ok :: "trusty_ipc_iovec \<Rightarrow> bool" where
  "iov_ok iov \<longleftrightarrow> unat (iov_len iov) \<le> length (iov_base iov)"

definition iov_total :: "trusty_ipc_iovec list \<Rightarrow> nat" where
  "iov_total iovs = sum_list (map (\<lambda>iov. unat (iov_len iov)) iovs)"

text \<open>The message in a list of iovecs, and the iovecs after a message was delivered into them.\<close>

definition gather :: "trusty_ipc_iovec list \<Rightarrow> bytes" where
  "gather iovs = concat (map (\<lambda>iov. take (unat (iov_len iov)) (iov_base iov)) iovs)"

fun scatter :: "trusty_ipc_iovec list \<Rightarrow> bytes \<Rightarrow> trusty_ipc_iovec list" where
  "scatter [] bs = []"
| "scatter (iov # iovs) bs =
     iov\<lparr>iov_base := put_bytes 0 (take (unat (iov_len iov)) bs) (iov_base iov)\<rparr> #
     scatter iovs (drop (unat (iov_len iov)) bs)"

section \<open>Lemmas: headers\<close>

lemma length_cmd_hdr_bytes [simp]: "length (cmd_hdr_bytes h) = 16"
  by (simp add: cmd_hdr_bytes_def)

lemma cmd_hdr_of_bytes_enc [simp]: "cmd_hdr_of_bytes (cmd_hdr_bytes h @ pl) = h"
  by (simp add: cmd_hdr_of_bytes_def cmd_hdr_bytes_def get_bytes_def)

interpretation hdr_format: wire_format cmd_hdr_bytes cmd_hdr_of_bytes 16
proof unfold_locales
  fix x show "cmd_hdr_of_bytes (cmd_hdr_bytes x) = x"
    using cmd_hdr_of_bytes_enc [of x "[]"] by simp
next
  fix bs :: bytes assume len: "length bs = 16"
  then have "bs = get_bytes 0 2 bs @ get_bytes 2 2 bs @ get_bytes 4 4 bs @ get_bytes 8 4 bs @
      get_bytes 12 4 bs"
    by (intro nth_equalityI) (auto simp: get_bytes_def nth_append intro!: arg_cong [where f = "(!) bs"])
  with len show "cmd_hdr_bytes (cmd_hdr_of_bytes bs) = bs"
    by (simp add: cmd_hdr_bytes_def cmd_hdr_of_bytes_def le_bytes_le_word)
qed simp

lemma length_encode_cmd [simp]: "length (encode_cmd c) = 16 + length (cmd_payload c)"
  by (simp add: encode_cmd_def)

lemma encode_cmd_inject:
  assumes "encode_cmd c = encode_cmd c'"
  shows "c = c'"
proof -
  from assms have h: "cmd_hdr c = cmd_hdr c'" and p: "cmd_payload c = cmd_payload c'"
    by (simp_all add: encode_cmd_def hdr_format.enc_inject)
  from h have "cmd_opcode c = cmd_opcode c'" "cmd_handle c = cmd_handle c'"
    by (simp_all add: cmd_hdr_def)
  with p show ?thesis
    by (cases c; cases c') (simp_all add: QL_TIPC_DEV_CONNECT_def QL_TIPC_DEV_DISCONNECT_def
        QL_TIPC_DEV_FC_HAS_EVENT_def QL_TIPC_DEV_GET_EVENT_def QL_TIPC_DEV_SEND_def
        QL_TIPC_DEV_RECV_def wf64.enc_inject)
qed

section \<open>Lemmas: writing a command\<close>

definition mk_hdr :: "u16 \<Rightarrow> u32 \<Rightarrow> u32 \<Rightarrow> trusty_ipc_cmd_hdr" where
  "mk_hdr op h n =
     \<lparr>hdr_opcode = op, hdr_flags = 0, hdr_status = 0, hdr_handle = h, hdr_payload_len = n\<rparr>"

lemma put_opcode:
  "16 \<le> length b \<Longrightarrow> put_bytes 0 (le16 op) (put_bytes 0 (replicate 16 0) b) =
     put_bytes 0 (cmd_hdr_bytes (mk_hdr op 0 0)) b"
  by (simp add: put_bytes_def cmd_hdr_bytes_def mk_hdr_def eval_nat_numeral)

lemma put_handle:
  "16 \<le> length b \<Longrightarrow> put_bytes 8 (le32 h) (put_bytes 0 (cmd_hdr_bytes (mk_hdr op h' n)) b) =
     put_bytes 0 (cmd_hdr_bytes (mk_hdr op h n)) b"
  by (simp add: put_bytes_def cmd_hdr_bytes_def mk_hdr_def)

lemma put_payload_len:
  "16 + length pl \<le> length b \<Longrightarrow>
   put_bytes 12 (le32 n) (put_bytes 0 (cmd_hdr_bytes (mk_hdr op h n') @ pl) b) =
     put_bytes 0 (cmd_hdr_bytes (mk_hdr op h n) @ pl) b"
  by (simp add: put_bytes_def cmd_hdr_bytes_def mk_hdr_def)

lemma put_payload:
  assumes "16 + length pl + length bs \<le> length b" and "off = 16 + length pl"
  shows "put_bytes off bs (put_bytes 0 (cmd_hdr_bytes h @ pl) b) =
     put_bytes 0 (cmd_hdr_bytes h @ pl @ bs) b"
  using put_bytes_append [of 0 "cmd_hdr_bytes h @ pl" bs b] assms by simp

lemma put_cookie:
  "32 \<le> length b \<Longrightarrow>
   put_bytes 16 (le64 c) (put_bytes 0 (cmd_hdr_bytes h @ replicate 16 0) b) =
     put_bytes 0 (cmd_hdr_bytes h @ le64 c @ replicate 8 0) b"
  by (simp add: put_bytes_def)

lemmas put_cmd = put_opcode put_handle put_payload_len [of "[]", simplified] put_payload_len
  put_payload [of "[]", simplified] put_payload put_cookie

lemma cmd_size_encoded:
  assumes "16 + length pl \<le> length b"
  shows "cmd_size va (set_buf va (put_bytes 0 (cmd_hdr_bytes (mk_hdr op h n) @ pl) b) w) =
    Ret (16 + n) (set_buf va (put_bytes 0 (cmd_hdr_bytes (mk_hdr op h n) @ pl) b) w)"
proof -
  have "get_bytes 12 4 (put_bytes 0 (cmd_hdr_bytes (mk_hdr op h n) @ pl) b) = le32 n"
    by (simp add: get_bytes_def put_bytes_def cmd_hdr_bytes_def mk_hdr_def)
  moreover have "(ucast (16 + ucast n :: u64) :: u32) = 16 + n"
    by transfer (simp add: take_bit_eq_mod mod_simps)
  ultimately show ?thesis using assms by (simp add: cmd_size_def shm_read_u32_def region_simps)
qed

lemma encode_cmd_mk_hdr:
  "encode_cmd c = cmd_hdr_bytes (mk_hdr (cmd_opcode c) (cmd_handle c) (of_nat (length (cmd_payload c)))) @
     cmd_payload c"
  by (simp add: encode_cmd_def cmd_hdr_def mk_hdr_def)

lemma idev_ok_buf:
  assumes "idev_ok dev w"
  obtains b w' where "w = set_buf (id_buf_vaddr dev) b w'" "length b = unat (id_buf_size dev)"
    "4096 \<le> length b"
proof -
  from assms obtain b where "shm w (id_buf_vaddr dev) = Some b"
    "length b = unat (id_buf_size dev)" "4096 \<le> length b"
    unfolding idev_ok_def PAGE_SIZE_def by auto
  with that [of b w] show thesis by (simp add: set_buf_self)
qed

lemma check_response_eq:
  assumes "16 \<le> length b"
  shows "check_response va op (set_buf va b w) =
    Ret (if response_ok op (cmd_hdr_of_bytes b) then TRUSTY_ERR_NONE else TRUSTY_ERR_SECOS_ERR)
      (set_buf va b w)"
  using assms
  by (simp add: check_response_def shm_read_u16_def shm_read_u32_def region_simps response_ok_def
      cmd_hdr_of_bytes_def)

section \<open>Lemmas: every operation transmits its command\<close>

lemma trusty_ipc_dev_close_transmits:
  assumes "idev_ok dev w"
  shows "trusty_ipc_dev_close P dev h w =
    obind (transmit P dev (Disconnect h) w) (\<lambda>rc w.
      if rc \<noteq> 0 then Ret TRUSTY_ERR_SECOS_ERR w else
      obind (check_response (id_buf_vaddr dev) QL_TIPC_DEV_DISCONNECT w) (\<lambda>rc w.
        if rc \<noteq> 0 then Ret rc w else Ret TRUSTY_ERR_NONE w))"
  using assms
proof (rule idev_ok_buf)
  fix b w' assume "w = set_buf (id_buf_vaddr dev) b w'" "4096 \<le> length b"
  then show ?thesis
    using cmd_size_encoded [of "[]" b "id_buf_vaddr dev" QL_TIPC_DEV_DISCONNECT h 0 w']
    by (simp add: trusty_ipc_dev_close_def transmit_def region_simps encode_cmd_mk_hdr put_cmd Let_def)
qed

lemma trusty_ipc_dev_has_event_transmits:
  assumes "idev_ok dev w"
  shows "trusty_ipc_dev_has_event P dev h w =
    obind (transmit P dev (Has_event h) w) (\<lambda>rc w.
      if rc \<noteq> 0 then Ret False w else
      obind (check_response (id_buf_vaddr dev) QL_TIPC_DEV_FC_HAS_EVENT w) (\<lambda>rc w.
      if rc \<noteq> 0 then Ret False w else
      obind (shm_read_u32 (id_buf_vaddr dev) OFF_payload_len w) (\<lambda>n w.
      if n < 1 then Ret False w else
      obind (shm_read (id_buf_vaddr dev) SIZEOF_cmd 1 w) (\<lambda>bs w. Ret (bs \<noteq> [0]) w))))"
  using assms
proof (rule idev_ok_buf)
  fix b w' assume "w = set_buf (id_buf_vaddr dev) b w'" "4096 \<le> length b"
  then show ?thesis
    using cmd_size_encoded [of "[]" b "id_buf_vaddr dev" QL_TIPC_DEV_FC_HAS_EVENT h 0 w']
    by (simp add: trusty_ipc_dev_has_event_def transmit_def region_simps encode_cmd_mk_hdr put_cmd Let_def
        del: le_bytes_zero)
qed

lemma trusty_ipc_dev_get_event_transmits:
  assumes "idev_ok dev w"
  shows "trusty_ipc_dev_get_event P dev h w =
    obind (transmit P dev (Get_event h) w) (\<lambda>rc w.
      if rc \<noteq> 0 then Ret (TRUSTY_ERR_SECOS_ERR, None) w else
      obind (check_response (id_buf_vaddr dev) QL_TIPC_DEV_GET_EVENT w) (\<lambda>rc w.
      if rc \<noteq> 0 then Ret (rc, None) w else
      obind (shm_read_u32 (id_buf_vaddr dev) OFF_payload_len w) (\<lambda>n w.
      if n < 16 then Ret (TRUSTY_ERR_SECOS_ERR, None) w else
      obind (shm_read (id_buf_vaddr dev) SIZEOF_cmd 16 w) (\<lambda>bs w.
        Ret (TRUSTY_ERR_NONE, Some (event_of_bytes bs)) w))))"
  using assms
proof (rule idev_ok_buf)
  fix b w' assume "w = set_buf (id_buf_vaddr dev) b w'" "4096 \<le> length b"
  then show ?thesis
    using cmd_size_encoded [of "replicate 8 0" b "id_buf_vaddr dev" QL_TIPC_DEV_GET_EVENT h 8 w']
    by (simp add: trusty_ipc_dev_get_event_def transmit_def region_simps encode_cmd_mk_hdr put_cmd Let_def)
qed

lemma trusty_ipc_dev_connect_transmits:
  assumes "idev_ok dev w" and "33 + length port \<le> unat (id_buf_size dev)"
  shows "trusty_ipc_dev_connect P dev port cookie w =
    obind (transmit P dev (Connect port cookie) w) (\<lambda>rc w.
      if rc \<noteq> 0 then Ret TRUSTY_ERR_SECOS_ERR w else
      obind (check_response (id_buf_vaddr dev) QL_TIPC_DEV_CONNECT w) (\<lambda>rc w.
      if rc \<noteq> 0 then Ret rc w else
      obind (shm_read_u32 (id_buf_vaddr dev) OFF_handle w) (\<lambda>h w. Ret (c_int h) w)))"
  using assms(1)
proof (rule idev_ok_buf)
  fix b w' assume b: "w = set_buf (id_buf_vaddr dev) b w'" "length b = unat (id_buf_size dev)"
    "4096 \<le> length b"
  let ?n = "of_nat (length port) + 1 :: u64" and ?pl = "le64 cookie @ le64 0 @ port @ [0]"
  have n: "unat ?n = Suc (length port)"
    using assms(2) unsigned_less [of "id_buf_size dev", where 'a = nat]
    by (simp add: unat_of_nat unat_word_ariths(1))
  moreover have "unat (id_buf_size dev - 16 + 16) = unat (id_buf_size dev)" by simp
  ultimately have guard: "\<not> id_buf_size dev - 16 + 16 < ?n"
    using assms(2) by (simp add: word_less_nat_alt)
  have len: "(ucast (16 + ?n) :: u32) = of_nat (length ?pl)"
    using ucast_of_nat_u32 [of "17 + length port"] by simp
  show ?thesis
    using b n guard len assms(2)
      cmd_size_encoded [of "?pl" b "id_buf_vaddr dev" QL_TIPC_DEV_CONNECT 0 "of_nat (length ?pl)" w']
    by (simp add: trusty_ipc_dev_connect_def transmit_def region_simps encode_cmd_mk_hdr put_cmd Let_def)
qed

section \<open>Lemmas: gathering and scattering\<close>

lemma iov_total_simps [simp]:
  "iov_total [] = 0" "iov_total (iov # iovs) = unat (iov_len iov) + iov_total iovs"
  by (simp_all add: iov_total_def)

lemma gather_simps [simp]:
  "gather [] = []" "gather (iov # iovs) = take (unat (iov_len iov)) (iov_base iov) @ gather iovs"
  by (simp_all add: gather_def)

lemma length_gather: "list_all iov_ok iovs \<Longrightarrow> length (gather iovs) = iov_total iovs"
  by (induction iovs) (auto simp: iov_ok_def)

lemma iovec_size_eq: "iovec_size iovs = of_nat (iov_total iovs)"
proof -
  have "foldl (\<lambda>cb iov. cb + iov_len iov) c iovs = c + of_nat (iov_total iovs)" for c
    by (induction iovs arbitrary: c) (simp_all add: ac_simps)
  then show ?thesis by (simp add: iovec_size_def)
qed

lemma gather_total_0: "iov_total iovs = 0 \<Longrightarrow> gather iovs = []"
  by (induction iovs) simp_all

lemma iovec_to_buf_loop_eq:
  assumes "list_all iov_ok iovs" "iov_total iovs \<le> unat len"
    and "off + unat pos + iov_total iovs \<le> length b" "unat pos + iov_total iovs < 2 ^ 64"
  shows "iovec_to_buf_loop va off pos len iovs (set_buf va b w) =
    Ret (pos + of_nat (iov_total iovs)) (set_buf va (put_bytes (off + unat pos) (gather iovs) b) w)"
  using assms
proof (induction iovs arbitrary: pos len b)
  case Nil
  then show ?case by simp
next
  case (Cons iov iovs)
  show ?case
  proof (cases "iov_len iov = 0")
    case True
    with Cons show ?thesis by simp
  next
    case False
    let ?n = "unat (iov_len iov)"
    from Cons.prems have le: "\<not> len < iov_len iov" by (simp add: word_less_nat_alt)
    from Cons.prems have base: "?n \<le> length (iov_base iov)" by (simp add: iov_ok_def)
    have pos: "unat (pos + iov_len iov) = unat pos + ?n"
      using Cons.prems by (simp add: unat_word_ariths(1))
    have len: "unat (len - iov_len iov) = unat len - ?n"
      using le by (simp add: unat_sub not_less)
    let ?b = "put_bytes (off + unat pos) (take ?n (iov_base iov)) b"
    have step: "put_bytes (off + unat pos + ?n) (gather iovs) ?b =
        put_bytes (off + unat pos) (gather (iov # iovs)) b"
      using put_bytes_append [of "off + unat pos" "take ?n (iov_base iov)" "gather iovs" b]
        Cons.prems base by (simp add: length_gather)
    show ?thesis
    proof (cases "len - iov_len iov = 0")
      case True
      with len Cons.prems have "iov_total iovs = 0" by simp
      with True False le base Cons.prems show ?thesis
        by (simp add: region_simps gather_total_0 Let_def)
    next
      case more: False
      have "iovec_to_buf_loop va off (pos + iov_len iov) (len - iov_len iov) iovs (set_buf va ?b w) =
          Ret (pos + iov_len iov + of_nat (iov_total iovs))
            (set_buf va (put_bytes (off + unat (pos + iov_len iov)) (gather iovs) ?b) w)"
        using Cons.prems base by (intro Cons.IH) (simp_all add: pos len)
      with more False le base Cons.prems step show ?thesis
        by (simp add: region_simps pos add.assoc Let_def)
    qed
  qed
qed

lemma iovec_to_buf_loop_safe:
  assumes "list_all iov_ok iovs" "off + unat pos + unat len \<le> length b" "unat pos + unat len < 2 ^ 64"
  shows "\<exists>n b'. iovec_to_buf_loop va off pos len iovs (set_buf va b w) = Ret n (set_buf va b' w) \<and>
    length b' = length b \<and> take off b' = take off b"
  using assms
proof (induction iovs arbitrary: pos len b)
  case Nil
  then show ?case by auto
next
  case (Cons iov iovs)
  let ?c = "if len < iov_len iov then len else iov_len iov"
  have c: "unat ?c \<le> unat len" "unat ?c \<le> unat (iov_len iov)" 
    by (auto simp: word_less_nat_alt)
  have base: "unat ?c \<le> length (iov_base iov)" using c Cons.prems by (simp add: iov_ok_def)
  have pos: "unat (pos + ?c) = unat pos + unat ?c"
    using Cons.prems c by (simp add: unat_word_ariths(1))
  have len: "unat (len - ?c) = unat len - unat ?c"
    using c by (intro unat_sub) (simp add: word_le_nat_alt)
  let ?b = "put_bytes (off + unat pos) (take (unat ?c) (iov_base iov)) b"
  have b: "length ?b = length b" "take off ?b = take off b"
    using Cons.prems c base by (simp_all add: put_bytes_def)
  have IH: "\<exists>n b'. iovec_to_buf_loop va off (pos + ?c) (len - ?c) iovs (set_buf va ?b w) =
      Ret n (set_buf va b' w) \<and> length b' = length ?b \<and> take off b' = take off ?b"
    by (rule Cons.IH, unfold pos len b(1)) (use Cons.prems c in simp_all)
  have w: "shm_write va (off + unat pos) (take (unat ?c) (iov_base iov)) (set_buf va b w) =
      Ret () (set_buf va ?b w)"
    using Cons.prems c base by (simp add: region_simps)
  show ?case
  proof (cases "iov_len iov = 0")
    case True
    with Cons show ?thesis by simp
  next
    case False
    with w base b IH show ?thesis by (auto simp: Let_def simp del: length_put_bytes)
  qed
qed

lemma scatter_Nil [simp]: "scatter iovs [] = iovs"
  by (induction iovs) simp_all

lemma scatter_ok: "list_all iov_ok iovs \<Longrightarrow> list_all iov_ok (scatter iovs bs)"
proof (induction iovs arbitrary: bs)
  case (Cons iov iovs)
  then show ?case by (auto simp: iov_ok_def put_bytes_def)
qed simp

lemma iov_total_scatter: "iov_total (scatter iovs bs) = iov_total iovs"
  by (induction iovs arbitrary: bs) simp_all

lemma gather_scatter:
  "list_all iov_ok iovs \<Longrightarrow> take (length bs) (gather (scatter iovs bs)) = take (iov_total iovs) bs"
proof (induction iovs arbitrary: bs)
  case (Cons iov iovs)
  let ?n = "unat (iov_len iov)"
  from Cons.prems have base: "?n \<le> length (iov_base iov)" by (simp add: iov_ok_def)
  show ?case
  proof (cases "length bs \<le> ?n")
    case True
    with base show ?thesis by (simp add: put_bytes_def min_absorb2)
  next
    case False
    from Cons have "take (length bs - ?n) (gather (scatter iovs (drop ?n bs))) =
        take (iov_total iovs) (drop ?n bs)" using Cons.IH [of "drop ?n bs"] by simp
    with False base show ?thesis by (simp add: put_bytes_def min_absorb2 take_add)
  qed
qed simp

lemma buf_to_iovec_loop_eq:
  assumes "list_all iov_ok iovs" "ptr + min (unat len) (iov_total iovs) \<le> length b"
  shows "buf_to_iovec_loop va ptr len copied iovs (set_buf va b w) =
    Ret (copied + of_nat (min (unat len) (iov_total iovs)), scatter iovs (get_bytes ptr (unat len) b))
      (set_buf va b w)"
  using assms
proof (induction iovs arbitrary: ptr len copied)
  case Nil
  then show ?case by simp
next
  case (Cons iov iovs)
  let ?n = "unat (iov_len iov)" and ?w = "set_buf va b w"
  from Cons.prems have base: "?n \<le> length (iov_base iov)" by (simp add: iov_ok_def)
  consider (zero) "iov_len iov = 0 \<or> len = 0" | (last) "iov_len iov \<noteq> 0" "len \<noteq> 0" "len \<le> iov_len iov"
    | (more) "iov_len iov \<noteq> 0" "iov_len iov < len" by fastforce
  then show ?case
  proof cases
    case zero
    with Cons show ?thesis by (auto simp: get_bytes_def word_gt_0)
  next
    case last
    then have le: "unat len \<le> ?n" by (simp add: word_le_nat_alt)
    with last base Cons.prems show ?thesis
      by (auto simp: region_simps Let_def not_less get_bytes_def)
  next
    case more
    then have le: "?n < unat len" by (simp add: word_less_nat_alt)
    have len: "unat (len - iov_len iov) = unat len - ?n"
      using more by (simp add: unat_sub)
    have total: "min (unat len) (?n + iov_total iovs) = ?n + min (unat len - ?n) (iov_total iovs)"
      using le by simp
    have rest: "buf_to_iovec_loop va (ptr + ?n) (len - iov_len iov) (copied + iov_len iov) iovs ?w =
        Ret (copied + iov_len iov + of_nat (min (unat (len - iov_len iov)) (iov_total iovs)),
          scatter iovs (get_bytes (ptr + ?n) (unat (len - iov_len iov)) b)) ?w"
      by (rule Cons.IH) (use Cons.prems total in \<open>simp_all add: len\<close>)
    have "ptr + ?n \<le> length b" using Cons.prems(2) total by simp
    with more rest base le len total show ?thesis
      by (simp add: region_simps Let_def get_bytes_def drop_take add.commute min_absorb1)
  qed
qed

lemma buf_to_iovec_loop_Fault:
  assumes "list_all iov_ok iovs" "ptr \<le> length b" "length b < ptr + min (unat len) (iov_total iovs)"
  shows "buf_to_iovec_loop va ptr len copied iovs (set_buf va b w) = Fault"
  using assms
proof (induction iovs arbitrary: ptr len copied)
  case Nil
  then show ?case by simp
next
  case (Cons iov iovs)
  let ?n = "unat (iov_len iov)"
  consider (zero) "iov_len iov = 0 \<or> len = 0" | (last) "iov_len iov \<noteq> 0" "len \<noteq> 0" "len \<le> iov_len iov"
    | (more) "iov_len iov \<noteq> 0" "iov_len iov < len" by fastforce
  then show ?case
  proof cases
    case zero
    with Cons show ?thesis by (auto simp: word_gt_0)
  next
    case last
    then have "unat len \<le> ?n" by (simp add: word_le_nat_alt)
    with last Cons.prems show ?thesis by (auto simp: region_simps Let_def not_less)
  next
    case more
    then have le: "?n < unat len" by (simp add: word_less_nat_alt)
    have len: "unat (len - iov_len iov) = unat len - ?n" using more by (simp add: unat_sub)
    have "buf_to_iovec_loop va (ptr + ?n) (len - iov_len iov) (copied + iov_len iov) iovs
        (set_buf va b w) = Fault" if "ptr + ?n \<le> length b"
      by (rule Cons.IH) (use that Cons.prems le in \<open>simp_all add: len min_def split: if_splits\<close>)
    with more show ?thesis by (auto simp: region_simps Let_def)
  qed
qed

lemma trusty_ipc_dev_send_transmits:
  assumes "idev_ok dev w" and "list_all iov_ok iovs" and "iov_total iovs < 2 ^ 64"
  shows "trusty_ipc_dev_send P dev chan iovs w =
    (if unat (id_buf_size dev) < 16 + iov_total iovs then Ret TRUSTY_ERR_MSG_TOO_BIG w
     else obind (transmit P dev (Send chan (gather iovs)) w) (\<lambda>rc w.
       if rc < 0 then Ret TRUSTY_ERR_SECOS_ERR w
       else check_response (id_buf_vaddr dev) QL_TIPC_DEV_SEND w))"
  using assms(1)
proof (rule idev_ok_buf)
  fix b w' assume b: "w = set_buf (id_buf_vaddr dev) b w'" "length b = unat (id_buf_size dev)"
    "4096 \<le> length b"
  let ?va = "id_buf_vaddr dev" and ?n = "of_nat (iov_total iovs) :: u32"
    and ?h = "\<lambda>n. put_bytes 0 (cmd_hdr_bytes (mk_hdr QL_TIPC_DEV_SEND chan n)) b"
  from b have sz: "unat (id_buf_size dev - 16) = unat (id_buf_size dev) - 16"
    by (simp add: unat_sub word_le_nat_alt)
  with assms(3) have guard: "id_buf_size dev - 16 < of_nat (iov_total iovs) \<longleftrightarrow>
      unat (id_buf_size dev) < 16 + iov_total iovs"
    using b by (auto simp: word_less_nat_alt unat_of_nat)
  show ?thesis
  proof (cases "unat (id_buf_size dev) < 16 + iov_total iovs")
    case True
    with guard show ?thesis by (simp add: trusty_ipc_dev_send_def iovec_size_eq)
  next
    case False
    have put: "iovec_to_buf ?va 16 (id_buf_size dev - 16) iovs (set_buf ?va (?h ?n) w') =
        Ret (of_nat (iov_total iovs)) (set_buf ?va (put_bytes 16 (gather iovs) (?h ?n)) w')"
      using iovec_to_buf_loop_eq [OF assms(2), of "id_buf_size dev - 16" 16 0 "?h ?n" ?va w']
        False b sz assms(3) by (simp add: iovec_to_buf_def)
    from False put guard b assms(2) show ?thesis
      using cmd_size_encoded [of "gather iovs" b ?va QL_TIPC_DEV_SEND chan ?n w']
      by (simp add: trusty_ipc_dev_send_def transmit_def region_simps encode_cmd_mk_hdr put_cmd
          Let_def iovec_size_eq ucast_of_nat_u32 length_gather)
  qed
qed

lemma trusty_ipc_dev_recv_transmits:
  assumes "idev_ok dev w"
  shows "trusty_ipc_dev_recv P dev chan iovs w =
    obind (transmit P dev (Recv chan) w) (\<lambda>rc w.
      if rc < 0 then Ret (TRUSTY_ERR_SECOS_ERR, iovs) w else
      obind (check_response (id_buf_vaddr dev) QL_TIPC_DEV_RECV w) (\<lambda>rc w.
      if rc \<noteq> 0 then Ret (rc, iovs) w else
      obind (shm_read_u32 (id_buf_vaddr dev) OFF_payload_len w) (\<lambda>n w.
      obind (buf_to_iovec iovs (id_buf_vaddr dev) SIZEOF_cmd (ucast n) w) (\<lambda>(copied, iovs) w.
      obind (shm_read_u32 (id_buf_vaddr dev) OFF_payload_len w) (\<lambda>n w.
      if copied \<noteq> ucast n then Ret (TRUSTY_ERR_MSG_TOO_BIG, iovs) w
      else Ret (c_int copied, iovs) w)))))"
  using assms
proof (rule idev_ok_buf)
  fix b w' assume "w = set_buf (id_buf_vaddr dev) b w'" "4096 \<le> length b"
  then show ?thesis
    using cmd_size_encoded [of "[]" b "id_buf_vaddr dev" QL_TIPC_DEV_RECV chan 0 w']
    by (simp add: trusty_ipc_dev_recv_def transmit_def region_simps encode_cmd_mk_hdr put_cmd Let_def)
qed

section \<open>Lemmas: the invariant is kept\<close>

context call_frame
begin

lemma keeps_return: "keeps R w (Ret a w)"
  by (simp add: frame_refl)

lemma transmit_frame: "keeps R w (transmit P dev c w)"
  unfolding transmit_def
  by (rule keeps_bind [OF frame_write])
     (cases c; simp add: trusty_dev_exec_ipc_frame trusty_dev_exec_fc_ipc_frame)

lemma trusty_ipc_dev_idle_frame: "keeps R w (trusty_ipc_dev_idle P dev e w)"
  by (simp add: trusty_ipc_dev_idle_def frame_sys_call)

lemma shm_read_frame: "keeps R w (shm_read va off n w)"
  by (simp add: shm_read_def frame_refl split: option.splits)

lemma shm_read_int_frame: "keeps R w (shm_read_u16 va off w)" "keeps R w (shm_read_u32 va off w)"
  unfolding shm_read_u16_def shm_read_u32_def by (auto intro!: keeps_bind shm_read_frame simp: frame_refl)

lemma cmd_size_frame: "keeps R w (cmd_size va w)"
  unfolding cmd_size_def by (auto intro!: keeps_bind shm_read_int_frame simp: frame_refl)

lemma check_response_frame: "keeps R w (check_response va c w)"
  unfolding check_response_def by (auto intro!: keeps_bind shm_read_int_frame simp: frame_refl)

lemma iovec_to_buf_loop_frame: "keeps R w (iovec_to_buf_loop va off pos len iovs w)"
  by (induction iovs arbitrary: pos len w)
     (auto simp: frame_refl Let_def intro!: keeps_bind frame_write)

lemma buf_to_iovec_loop_frame: "keeps R w (buf_to_iovec_loop va ptr len n iovs w)"
  by (induction iovs arbitrary: ptr len n w)
     (auto simp: frame_refl Let_def intro!: keeps_bind shm_read_frame)

lemmas shm_frames = frame_write shm_read_frame shm_read_int_frame cmd_size_frame check_response_frame
  trusty_dev_exec_ipc_frame trusty_dev_exec_fc_ipc_frame iovec_to_buf_loop_frame
  buf_to_iovec_loop_frame

lemma ipc_dev_ops_frame:
  "keeps R w (trusty_ipc_dev_connect P dev port cookie w)"
  "keeps R w (trusty_ipc_dev_close P dev h w)"
  "keeps R w (trusty_ipc_dev_has_event P dev h w)"
  "keeps R w (trusty_ipc_dev_get_event P dev h w)"
  "keeps R w (trusty_ipc_dev_send P dev h iovs w)"
  "keeps R w (trusty_ipc_dev_recv P dev h iovs w)"
  unfolding trusty_ipc_dev_connect_def trusty_ipc_dev_close_def trusty_ipc_dev_has_event_def
    trusty_ipc_dev_get_event_def trusty_ipc_dev_send_def trusty_ipc_dev_recv_def
    iovec_to_buf_def buf_to_iovec_def
  unfolding Let_def by (intro keeps_bind keeps_if keeps_case_prod keeps_return shm_frames)+

end

lemma idev_ok_shapely: "idev_ok dev w \<Longrightarrow> shapely w w' \<Longrightarrow> idev_ok dev w'"
  by (auto simp: idev_ok_def intro: dev_ready_shapely elim: shapely_buf)

section \<open>Lemmas: answers\<close>

lemma transmit_no_fault:
  assumes "idev_ok dev w" "16 + length (cmd_payload c) \<le> unat (id_buf_size dev)"
  shows "no_fault (transmit P dev c w)"
  using assms(1)
proof (rule idev_ok_buf)
  fix b w' assume "w = set_buf (id_buf_vaddr dev) b w'" "length b = unat (id_buf_size dev)"
  with assms(2) show ?thesis by (cases c) (simp_all add: transmit_def region_simps)
qed

lemma transmit_Ret:
  assumes "idev_ok dev w" "keeps_buffers P" "transmit P dev c w = Ret rc w1"
  shows "idev_ok dev w1"
  using assms shapely_frame.transmit_frame [of P w dev c] idev_ok_shapely by auto

lemma response_read:
  assumes "16 \<le> length b"
  shows "shm_read_u32 va 8 (set_buf va b w) = Ret (hdr_handle (cmd_hdr_of_bytes b)) (set_buf va b w)"
    and "shm_read_u32 va 12 (set_buf va b w) =
      Ret (hdr_payload_len (cmd_hdr_of_bytes b)) (set_buf va b w)"
  using assms by (simp_all add: shm_read_u32_def region_simps cmd_hdr_of_bytes_def)

lemmas response_simps = response_read check_response_eq

lemma buf_to_iovec_eq:
  assumes "list_all iov_ok iovs" "ptr + min (unat len) (iov_total iovs) \<le> length b"
  shows "buf_to_iovec iovs va ptr len (set_buf va b w) =
    Ret (of_nat (min (unat len) (iov_total iovs)), scatter iovs (get_bytes ptr (unat len) b))
      (set_buf va b w)"
  using buf_to_iovec_loop_eq [OF assms, of va 0 w] by (auto simp: buf_to_iovec_def get_bytes_def)

lemma c_int_ucast64 [simp]: "c_int (ucast n :: u64) = c_int (n :: u32)"
proof -
  have "(ucast (ucast n :: u64) :: u32) = n" by transfer simp
  then show ?thesis by (simp add: c_int_def)
qed

lemma of_nat_min_eq_ucast:
  "of_nat (min (unat (n :: u32)) k) = (ucast n :: u64) \<longleftrightarrow> unat n \<le> k"
proof -
  have "unat (of_nat (min (unat n) k) :: u64) = min (unat n) k" "unat (ucast n :: u64) = unat n"
    using unsigned_less [of n, where 'a = nat]
    by (simp_all add: unat_of_nat unsigned_ucast_eq min_def take_bit_nat_eq_self_iff)
  then show ?thesis unfolding word_unat_eq_iff by (simp add: min_def)
qed

section \<open>Lemmas: creating a device\<close>

lemma create_err_alloc_pages_Ret:
  assumes "create_err_alloc_pages P dev rc w = Ret (r, od) w'"
  shows "calls w' = calls w @ [C_free (id_self dev)] \<and> r = rc \<and> od = None"
  using assms by (auto simp: create_err_alloc_pages_def sys_call_def)

lemma create_err_share_memory_Ret:
  assumes "create_err_share_memory P dev rc w = Ret (r, od) w'"
  shows "\<exists>n. calls w' = calls w @ [C_free_pages (id_buf_vaddr dev) n, C_free (id_self dev)] \<and>
    r = rc \<and> od = None"
  using assms by (auto simp: create_err_share_memory_def trusty_free_pages_def sys_call_def
      create_err_alloc_pages_def)

lemma create_err_create_sec_dev_Ret:
  assumes "create_err_create_sec_dev P dev rc w = Ret (r, od) w'"
  shows "\<exists>t n. calls w' = calls w @ t @ [C_free_pages (id_buf_vaddr dev) n, C_free (id_self dev)] \<and>
    (\<forall>s. live s t = s) \<and> r = rc \<and> od = None"
proof -
  from assms obtain w1 where "trusty_dev_reclaim_memory P (id_tdev dev) (id_buf_id dev) w = Ret 0 w1"
    and rest: "create_err_share_memory P dev rc w1 = Ret (r, od) w'"
    by (auto simp: create_err_create_sec_dev_def outcome_simps split: if_splits)
  with balanced_frame.trusty_dev_reclaim_memory_frame [of w P "id_tdev dev" "id_buf_id dev"]
  obtain t where "calls w1 = calls w @ t" "\<forall>s. live s t = s" by (auto simp: balanced_def)
  with create_err_share_memory_Ret [OF rest] show ?thesis by auto
qed

text \<open>What is allocated after \<open>trusty_ipc_dev_create\<close>, from the calls it made.\<close>

definition created :: "u64 list \<times> u64 list \<Rightarrow> trusty_ipc_dev option \<Rightarrow> u64 list \<times> u64 list" where
  "created s od = (case od of None \<Rightarrow> s
     | Some dev \<Rightarrow> (id_buf_vaddr dev # fst s, id_self dev # snd s))"

definition alloced ::
  "('e, 'z) machine_scheme \<Rightarrow> (u64 list \<times> u64 list \<Rightarrow> u64 list \<times> u64 list) \<Rightarrow>
   ('e, 'z) machine_scheme \<Rightarrow> bool"
where
  "alloced w A w' \<longleftrightarrow> (\<exists>t. calls w' = calls w @ t \<and> (\<forall>s. live s t = A s))"

lemma alloced_refl: "alloced w (\<lambda>s. s) w"
  by (simp add: alloced_def)

lemma alloced_calls:
  assumes "alloced w A w1" "calls w2 = calls w1 @ t" "\<And>s. live (A s) t = B s"
  shows "alloced w B w2"
proof -
  from assms(1) obtain t1 where "calls w1 = calls w @ t1" "\<forall>s. live s t1 = A s"
    by (auto simp: alloced_def)
  with assms(2,3) show ?thesis unfolding alloced_def by (intro exI [of _ "t1 @ t"]) simp
qed

lemma alloced_balanced: "alloced w A w1 \<Longrightarrow> balanced w1 w2 \<Longrightarrow> alloced w A w2"
  unfolding balanced_def by (elim exE conjE) (rule alloced_calls, assumption+, simp only:)

lemma trusty_calloc_Ret:
  "trusty_calloc P n sz w = Ret va w' \<Longrightarrow> calls w' = calls w @ [C_calloc n sz va] \<and> shm w' = shm w"
  by (auto simp: trusty_calloc_def split: prod.splits)

lemma trusty_alloc_pages_calls:
  "trusty_alloc_pages P n w = Ret va w' \<Longrightarrow> calls w' = calls w @ [C_alloc_pages n va]"
  by (auto simp: trusty_alloc_pages_def split: prod.splits)

lemma trusty_encode_page_info_calls:
  "trusty_encode_page_info P i va w = Ret x w' \<Longrightarrow> calls w' = calls w"
  by (auto simp: trusty_encode_page_info_def split: prod.splits)

text \<open>The allocations on the way through \<open>trusty_ipc_dev_create\<close>, up to each of its exits.\<close>

lemma create_allocs:
  assumes "trusty_calloc P n sz w = Ret self w1"
  shows "self = 0 \<Longrightarrow> alloced w (\<lambda>s. s) w1"
    and "trusty_alloc_pages P k w1 = Ret va w2 \<Longrightarrow> self \<noteq> 0 \<Longrightarrow> va = 0 \<Longrightarrow>
      alloced w (\<lambda>s. (fst s, self # snd s)) w2"
    and "trusty_alloc_pages P k w1 = Ret va w2 \<Longrightarrow> self \<noteq> 0 \<Longrightarrow> va \<noteq> 0 \<Longrightarrow>
      trusty_encode_page_info P i va w2 = Ret x w3 \<Longrightarrow>
      alloced w (\<lambda>s. (va # fst s, self # snd s)) w3"
  using trusty_calloc_Ret [OF assms] trusty_alloc_pages_calls [of P k w1 va w2]
    trusty_encode_page_info_calls [of P i va w2 x w3]
  by (auto intro!: alloced_calls [OF alloced_refl])

lemma create_err_alloc_pages_alloced:
  assumes "alloced w (\<lambda>s. (fst s, id_self dev # snd s)) w1"
  shows "on_ret (\<lambda>(r, od) w2. alloced w (\<lambda>s. created s od) w2 \<and> r = rc \<and> od = None)
    (create_err_alloc_pages P dev rc w1)"
  by (rule on_retI)
     (auto dest!: create_err_alloc_pages_Ret simp: created_def intro: alloced_calls [OF assms])

lemma create_err_share_memory_alloced:
  assumes "alloced w (\<lambda>s. (id_buf_vaddr dev # fst s, id_self dev # snd s)) w1"
  shows "on_ret (\<lambda>(r, od) w2. alloced w (\<lambda>s. created s od) w2 \<and> r = rc \<and> od = None)
    (create_err_share_memory P dev rc w1)"
  by (rule on_retI)
     (auto dest!: create_err_share_memory_Ret simp: created_def intro: alloced_calls [OF assms])

lemma create_err_create_sec_dev_alloced:
  assumes "alloced w (\<lambda>s. (id_buf_vaddr dev # fst s, id_self dev # snd s)) w1"
  shows "on_ret (\<lambda>(r, od) w2. alloced w (\<lambda>s. created s od) w2 \<and> r = rc \<and> od = None)
    (create_err_create_sec_dev P dev rc w1)"
  by (rule on_retI)
     (auto dest!: create_err_create_sec_dev_Ret simp: created_def intro: alloced_calls [OF assms])

lemma create_exits:
  assumes "on_ret (\<lambda>(r, od) w2. alloced w (\<lambda>s. created s od) w2 \<and> r = rc \<and> od = None) m" "rc \<noteq> 0"
  shows "on_ret (\<lambda>(r, od) w'. alloced w (\<lambda>s. created s od) w' \<and> (r = 0 \<longleftrightarrow> od \<noteq> None)) m"
  using assms(1) by (rule on_ret_mono) (use assms(2) in auto)

lemma trusty_ipc_dev_create_alloced:
  "on_ret (\<lambda>(r, od) w'. alloced w (\<lambda>s. created s od) w' \<and> (r = 0 \<longleftrightarrow> od \<noteq> None))
     (trusty_ipc_dev_create P tdev sz w)"
  unfolding trusty_ipc_dev_create_def Let_def
proof (intro on_ret_bindI on_ret_if on_ret_case_prod, goal_cases)
  case (1 self w1)
  then show ?case using create_allocs(1) by (auto simp: created_def trusty_err_defs)
next
  case (2 self w1 va w2)
  then show ?case
    by (intro create_exits [OF create_err_alloc_pages_alloced])
       (auto simp: trusty_err_defs intro: create_allocs(2))
next
  case (3 self w1 va w2 x w3 rc ns)
  then show ?case
    by (intro create_exits [OF create_err_create_sec_dev_alloced])
       (auto simp: trusty_err_defs intro: create_allocs(3))
next
  case (4 self w1 va w2 x w3 rc ns y w4 rc' idp)
  then have "balanced w3 w4"
    using balanced_frame.trusty_dev_share_memory_frame [of w3 P tdev ns "sz div of_nat PAGE_SIZE"]
    by simp
  moreover from 4 have "alloced w (\<lambda>s. (va # fst s, self # snd s)) w3"
    by (intro create_allocs(3)) auto
  ultimately show ?case
    by (intro create_exits [OF create_err_share_memory_alloced])
       (auto simp: trusty_err_defs intro: alloced_balanced)
next
  case (5 self w1 va w2 x w3 rc ns y w4 rc' idp rc'' w5)
  let ?i = "case idp of None \<Rightarrow> 0 | Some i \<Rightarrow> i"
  from 5 have "balanced w3 w4" "balanced w4 w5"
    using balanced_frame.trusty_dev_share_memory_frame [of w3 P tdev ns "sz div of_nat PAGE_SIZE"]
      balanced_frame.trusty_dev_init_ipc_frame [of w4 P tdev ?i "ucast sz"]
    by (simp_all cong: option.case_cong)
  moreover from 5 have "alloced w (\<lambda>s. (va # fst s, self # snd s)) w3"
    by (intro create_allocs(3)) auto
  ultimately show ?case
    by (intro create_exits [OF create_err_create_sec_dev_alloced])
       (auto simp: trusty_err_defs intro: alloced_balanced)
next
  case (6 self w1 va w2 x w3 rc ns y w4 rc' idp rc'' w5)
  let ?i = "case idp of None \<Rightarrow> 0 | Some i \<Rightarrow> i"
  from 6 have "balanced w3 w4" "balanced w4 w5"
    using balanced_frame.trusty_dev_share_memory_frame [of w3 P tdev ns "sz div of_nat PAGE_SIZE"]
      balanced_frame.trusty_dev_init_ipc_frame [of w4 P tdev ?i "ucast sz"]
    by (simp_all cong: option.case_cong)
  moreover from 6 have "alloced w (\<lambda>s. (va # fst s, self # snd s)) w3"
    by (intro create_allocs(3)) auto
  ultimately show ?case
    by (auto simp: trusty_err_defs created_def intro: alloced_balanced)
qed

lemma unat_pages:
  fixes sz :: u64
  assumes "PAGE_SIZE dvd unat sz" "unat sz < 2 ^ 44"
  shows "unat (ucast (sz div of_nat PAGE_SIZE) :: u32) * PAGE_SIZE = unat sz"
proof -
  have "unat (sz div of_nat PAGE_SIZE) = unat sz div PAGE_SIZE"
    by (simp add: unat_div PAGE_SIZE_def)
  moreover have "unat sz div PAGE_SIZE < 2 ^ 32" using assms(2) by (simp add: PAGE_SIZE_def)
  ultimately have "unat (ucast (sz div of_nat PAGE_SIZE) :: u32) = unat sz div PAGE_SIZE"
    by (simp add: unsigned_ucast_eq take_bit_nat_eq_self_iff)
  with assms(1) show ?thesis by simp
qed

lemma trusty_ipc_dev_create_idev_ok:
  assumes "keeps_buffers P" "dev_ready tdev w"
    and "PAGE_SIZE \<le> unat sz" "PAGE_SIZE dvd unat sz" "unat sz < 2 ^ 44"
  shows "on_ret (\<lambda>(r, od) w'. \<forall>dev. od = Some dev \<longrightarrow> idev_ok dev w' \<and>
      id_buf_size dev = sz \<and> id_tdev dev = tdev) (trusty_ipc_dev_create P tdev sz w)"
  unfolding trusty_ipc_dev_create_def Let_def
proof (intro on_ret_bindI on_ret_if on_ret_case_prod, goal_cases)
  case (6 self w1 va w2 x w3 rc ns y w4 rc' idp rc'' w5)
  let ?i = "case idp of None \<Rightarrow> 0 | Some i \<Rightarrow> i"
  from 6 assms(1) have "shapely w3 w4" "shapely w4 w5"
    using shapely_frame.trusty_dev_share_memory_frame [of P w3 tdev ns "sz div of_nat PAGE_SIZE"]
      shapely_frame.trusty_dev_init_ipc_frame [of P w4 tdev ?i "ucast sz"]
    by (simp_all cong: option.case_cong)
  then have sh: "shapely w3 w5" by (rule shapely_trans)
  have shm: "shm w3 = (shm w)(va \<mapsto> uninit P (unat sz))"
    using 6 trusty_calloc_Ret [of P 1 56 w self w1] trusty_encode_page_info_shm [of P _ va w2 x w3]
      trusty_alloc_pages_Ret [of P _ w1 va w2] unat_pages [OF assms(4,5)] by simp
  then have "shm w3 va = Some (uninit P (unat sz))" by simp
  with sh obtain b where "shm w5 va = Some b" "length b = unat sz"
    by (rule shapely_buf) (simp add: uninit_def)
  moreover have "dev_ready tdev w5"
    using _ sh by (rule dev_ready_shapely) (use assms(2,3) in \<open>auto simp: dev_ready_def shm uninit_def\<close>)
  ultimately show ?case using assms(3) by (auto simp: idev_ok_def)
qed (auto simp: create_err_alloc_pages_def create_err_share_memory_def create_err_create_sec_dev_def
     intro!: on_retI simp: outcome_simps split: if_splits)

section \<open>Properties\<close>

text \<open>The shared buffer as a device finds it in a state.\<close>

definition answer :: "trusty_ipc_dev \<Rightarrow> ('e, 'z) machine_scheme \<Rightarrow> bytes" where
  "answer dev w = (case shm w (id_buf_vaddr dev) of None \<Rightarrow> [] | Some b \<Rightarrow> b)"

lemma answer_set_buf [simp]: "answer dev (set_buf (id_buf_vaddr dev) b w) = b"
  by (simp add: answer_def set_buf_def)

lemma transmit_then:
  assumes "idev_ok dev w" "keeps_buffers P"
    and "\<And>rc b w1. 4096 \<le> length b \<Longrightarrow> length b = unat (id_buf_size dev) \<Longrightarrow>
      f rc (set_buf (id_buf_vaddr dev) b w1) = g rc (set_buf (id_buf_vaddr dev) b w1)"
  shows "obind (transmit P dev c w) f = obind (transmit P dev c w) g"
proof (rule obind_cong [OF refl])
  fix rc w1 assume "transmit P dev c w = Ret rc w1"
  with assms(1,2) have "idev_ok dev w1" by (rule transmit_Ret)
  then show "f rc w1 = g rc w1" by (rule idev_ok_buf) (simp add: assms(3))
qed

text \<open>
  C2: sending refines the abstract command. For iovecs that describe real memory,
  \<open>trusty_ipc_dev_send\<close> refuses a message that does not fit behind the command header, without
  touching anything; every other message is transmitted as the one command \<open>Send chan\<close> with exactly
  the concatenation of the iovecs as payload, and the result is 0 exactly when the monitor call did
  not fail and the answer in the shared buffer acknowledges the command without an error status.
\<close>

theorem trusty_ipc_dev_send_message:
  assumes "idev_ok dev w" "keeps_buffers P" "list_all iov_ok iovs" "iov_total iovs < 2 ^ 64"
  shows "trusty_ipc_dev_send P dev chan iovs w =
    (if unat (id_buf_size dev) < 16 + length (gather iovs) then Ret TRUSTY_ERR_MSG_TOO_BIG w
     else obind (transmit P dev (Send chan (gather iovs)) w) (\<lambda>rc w.
       Ret (if 0 \<le> rc \<and> response_ok QL_TIPC_DEV_SEND (cmd_hdr_of_bytes (answer dev w))
            then TRUSTY_ERR_NONE else TRUSTY_ERR_SECOS_ERR) w))"
proof -
  have "obind (transmit P dev (Send chan (gather iovs)) w) (\<lambda>rc w.
      if rc < 0 then Ret TRUSTY_ERR_SECOS_ERR w
      else check_response (id_buf_vaddr dev) QL_TIPC_DEV_SEND w) =
    obind (transmit P dev (Send chan (gather iovs)) w) (\<lambda>rc w.
      Ret (if 0 \<le> rc \<and> response_ok QL_TIPC_DEV_SEND (cmd_hdr_of_bytes (answer dev w))
            then TRUSTY_ERR_NONE else TRUSTY_ERR_SECOS_ERR) w)"
    by (rule transmit_then [OF assms(1,2)]) (auto simp: response_simps response_ok_def)
  then show ?thesis
    using trusty_ipc_dev_send_transmits [OF assms(1,3,4)] length_gather [OF assms(3)] by simp
qed

definition demo_idev :: trusty_ipc_dev where
  "demo_idev = \<lparr>id_buf_vaddr = 0x3000, id_buf_size = 4096, id_buf_id = 0x77, id_buf_ns = demo_pinfo,
     id_tdev = demo_dev, id_self = 0x9000\<rparr>"

definition demo_ipc_machine :: "(smc_ret8 \<times> (u64 \<times> bytes) option) list \<Rightarrow> script machine" where
  "demo_ipc_machine replies = (script_machine replies)\<lparr>shm :=
     [0x1000 \<mapsto> replicate 4096 0, 0x3000 \<mapsto> replicate 4096 0]\<rparr>"

definition demo_hdr :: "u16 \<Rightarrow> u32 \<Rightarrow> u32 \<Rightarrow> u32 \<Rightarrow> bytes" where
  "demo_hdr op st h n = cmd_hdr_bytes
     \<lparr>hdr_opcode = op, hdr_flags = 0, hdr_status = st, hdr_handle = h, hdr_payload_len = n\<rparr>"

definition demo_iovs :: "trusty_ipc_iovec list" where
  "demo_iovs = [\<lparr>iov_base = [1, 2, 3], iov_len = 2\<rparr>, \<lparr>iov_base = [4, 5], iov_len = 2\<rparr>]"

lemma demo_idev_ok: "idev_ok demo_idev (demo_ipc_machine replies)"
  by (simp add: idev_ok_def dev_ready_def demo_idev_def demo_dev_def demo_ipc_machine_def PAGE_SIZE_def)

lemma demo_iovs_ok: "list_all iov_ok demo_iovs" "iov_total demo_iovs = 4" "gather demo_iovs = [1, 2, 4, 5]"
  by (simp_all add: demo_iovs_def iov_ok_def)

lemma trusty_ipc_dev_send_message_witness:
  "\<exists>m. trusty_ipc_dev_send script_platform demo_idev 7 demo_iovs
     (demo_ipc_machine [(reply 0 0, Some (0x3000, demo_hdr 0x8003 0 7 0))]) =
     obind (transmit script_platform demo_idev (Send 7 [1, 2, 4, 5])
       (demo_ipc_machine [(reply 0 0, Some (0x3000, demo_hdr 0x8003 0 7 0))])) m"
  using trusty_ipc_dev_send_message [OF demo_idev_ok script_keeps_buffers demo_iovs_ok(1)]
  by (auto simp: demo_iovs_ok) (auto simp: demo_idev_def)

text \<open>
  C3: receiving delivers the answer. \<open>trusty_ipc_dev_recv\<close> transmits the command \<open>Recv chan\<close>; if the
  call fails or the answer does not acknowledge the command the iovecs are untouched; otherwise the
  payload is scattered over the iovecs in order, and the result is its length when all of it fits
  and \<open>TRUSTY_ERR_MSG_TOO_BIG\<close> when it does not. This holds as long as the announced payload, or
  the part of it that the iovecs can take, lies inside of the shared buffer.
\<close>

theorem trusty_ipc_dev_recv_delivers:
  assumes "idev_ok dev w" "keeps_buffers P" "list_all iov_ok iovs"
    and "on_ret (\<lambda>_ w1. 16 + min (unat (hdr_payload_len (cmd_hdr_of_bytes (answer dev w1))))
      (iov_total iovs) \<le> unat (id_buf_size dev)) (transmit P dev (Recv chan) w)"
  shows "trusty_ipc_dev_recv P dev chan iovs w =
    obind (transmit P dev (Recv chan) w) (\<lambda>rc w.
      let b = answer dev w; h = cmd_hdr_of_bytes b; n = hdr_payload_len h in
      if rc < 0 \<or> \<not> response_ok QL_TIPC_DEV_RECV h then Ret (TRUSTY_ERR_SECOS_ERR, iovs) w
      else Ret (if unat n \<le> iov_total iovs then c_int n else TRUSTY_ERR_MSG_TOO_BIG,
                scatter iovs (get_bytes 16 (unat n) b)) w)"
  unfolding trusty_ipc_dev_recv_transmits [OF assms(1)]
proof (rule obind_cong [OF refl])
  fix rc w1 assume t: "transmit P dev (Recv chan) w = Ret rc w1"
  with assms(1,2) have "idev_ok dev w1" by (rule transmit_Ret)
  then obtain b w' where b: "w1 = set_buf (id_buf_vaddr dev) b w'"
    "length b = unat (id_buf_size dev)" "4096 \<le> length b" by (rule idev_ok_buf)
  let ?n = "hdr_payload_len (cmd_hdr_of_bytes b)"
  have n: "unat (ucast ?n :: u64) = unat ?n"
    using unsigned_less [of ?n, where 'a = nat]
    by (simp add: unsigned_ucast_eq take_bit_nat_eq_self_iff)
  from assms(4) t b have "16 + min (unat ?n) (iov_total iovs) \<le> length b" by simp
  with n have buf: "buf_to_iovec iovs (id_buf_vaddr dev) 16 (ucast ?n) w1 =
      Ret (of_nat (min (unat ?n) (iov_total iovs)), scatter iovs (get_bytes 16 (unat ?n) b)) w1"
    unfolding b(1) using buf_to_iovec_eq [OF assms(3), of 16 "ucast ?n" b] by simp
  show "(if rc < 0 then Ret (TRUSTY_ERR_SECOS_ERR, iovs) w1
      else obind (check_response (id_buf_vaddr dev) QL_TIPC_DEV_RECV w1) (\<lambda>rc w.
        if rc \<noteq> 0 then Ret (rc, iovs) w else
        obind (shm_read_u32 (id_buf_vaddr dev) 12 w) (\<lambda>n w.
        obind (buf_to_iovec iovs (id_buf_vaddr dev) 16 (ucast n) w) (\<lambda>(copied, iovs) w.
        obind (shm_read_u32 (id_buf_vaddr dev) 12 w) (\<lambda>n w.
        if copied \<noteq> ucast n then Ret (TRUSTY_ERR_MSG_TOO_BIG, iovs) w
        else Ret (c_int copied, iovs) w))))) =
    (let b = answer dev w1; h = cmd_hdr_of_bytes b; n = hdr_payload_len h in
      if rc < 0 \<or> \<not> response_ok QL_TIPC_DEV_RECV h then Ret (TRUSTY_ERR_SECOS_ERR, iovs) w1
      else Ret (if unat n \<le> iov_total iovs then c_int n else TRUSTY_ERR_MSG_TOO_BIG,
                scatter iovs (get_bytes 16 (unat n) b)) w1)"
    using b buf [unfolded b(1)] of_nat_min_eq_ucast [of ?n "iov_total iovs"]
    by (auto simp: response_simps Let_def trusty_err_defs response_ok_def)
qed

text \<open>One exchange with the scripted monitor: it answers by writing \<open>bs\<close> at the start of the buffer.\<close>

lemma script_transmit:
  assumes "env w = ((reply 0 0, Some (0x3000, bs)) # rest, a)" "shm w 0x3000 = Some b0" "length b0 = 4096"
    and "length (cmd_payload c) \<le> 4080" "length bs \<le> 4096"
  shows "\<exists>w1. transmit script_platform demo_idev c w = Ret 0 w1 \<and> env w1 = (rest, a) \<and>
    (\<exists>buf. length buf = 4096 \<and> shm w1 = (shm w)(0x3000 \<mapsto> put_bytes 0 bs buf)) \<and>
    machine.more w1 = machine.more w"
proof -
  have "SM_ERR_FIQ_INTERRUPTED \<noteq> 0" "SM_ERR_BUSY \<noteq> 0" "SM_ERR_INTERRUPTED \<noteq> 0" "SM_ERR_CPU_IDLE \<noteq> 0"
    by (simp_all add: sm_err_defs)
  moreover have "c_int (0 :: u64) = 0" by (simp add: c_int_def)
  moreover have "SMC_IS_FASTCALL SMC_FC_HANDLE_QL_TIPC_DEV_CMD"
    "\<not> SMC_IS_FASTCALL SMC_SC_TRUSTY_IPC_HANDLE_QL_DEV_CMD"
    by (simp_all add: SMC_IS_FASTCALL_def smc_number_values)
  ultimately show ?thesis
    using assms unfolding transmit_def
    by (cases c)
       (simp_all add: shm_write_def demo_idev_def trusty_dev_exec_ipc_def trusty_dev_exec_fc_ipc_def
        trusty_call32_mem_buf_id_def trusty_fast_call32_def trusty_std_call32_def
        trusty_std_call_helper_def std_call_helper_loop.simps trusty_std_call_inner_def
        std_call_retry_loop.simps fiq_restart_loop.simps std_call_restart_loop.simps smc_def smc8_def
        sys_call_def script_platform_def reply_def script_write_def smc_number_values,
        (rule exI [of _ "put_bytes 0 (encode_cmd c) b0"], simp)+)
qed

lemma demo_transmit:
  assumes "length (cmd_payload c) \<le> 4080" "length bs \<le> 4096"
  shows "\<exists>w1. transmit script_platform demo_idev c
      (demo_ipc_machine ((reply 0 0, Some (0x3000, bs)) # rest)) = Ret 0 w1 \<and>
    (\<exists>buf. length buf = 4096 \<and> answer demo_idev w1 = put_bytes 0 bs buf)"
proof -
  let ?w = "demo_ipc_machine ((reply 0 0, Some (0x3000, bs)) # rest)"
  have "env ?w = ((reply 0 0, Some (0x3000, bs)) # rest, 0x3000)"
    "shm ?w 0x3000 = Some (replicate 4096 0)" "length (replicate 4096 0) = 4096"
    by (simp_all add: demo_ipc_machine_def script_machine_def)
  from script_transmit [OF this assms] show ?thesis by (auto simp: answer_def demo_idev_def)
qed

lemma cmd_hdr_of_put [simp]: "cmd_hdr_of_bytes (put_bytes 0 (cmd_hdr_bytes h @ pl) buf) = h"
  by (simp add: put_bytes_def)

lemma trusty_ipc_dev_recv_delivers_witness:
  "\<exists>w'. trusty_ipc_dev_recv script_platform demo_idev 7 demo_iovs
     (demo_ipc_machine [(reply 0 0, Some (0x3000, demo_hdr 0x8004 0 7 3 @ [9, 8, 7]))]) =
     Ret (3, [\<lparr>iov_base = [9, 8, 3], iov_len = 2\<rparr>, \<lparr>iov_base = [7, 5], iov_len = 2\<rparr>]) w'"
proof -
  let ?bs = "demo_hdr 0x8004 0 7 3 @ [9, 8, 7]"
  let ?w = "demo_ipc_machine [(reply 0 0, Some (0x3000, ?bs))]"
  have "length (cmd_payload (Recv 7)) \<le> 4080" "length ?bs \<le> 4096"
    by (simp_all add: demo_hdr_def)
  from demo_transmit [OF this, of "[]"] obtain w1 buf where
    t: "transmit script_platform demo_idev (Recv 7) ?w = Ret 0 w1"
    and b: "answer demo_idev w1 = put_bytes 0 ?bs buf" "length buf = 4096" by blast
  have n: "hdr_payload_len (cmd_hdr_of_bytes (answer demo_idev w1)) = 3"
    unfolding b(1) demo_hdr_def by simp
  have p: "get_bytes 16 3 (answer demo_idev w1) = [9, 8, 7]"
    unfolding b(1) demo_hdr_def by (simp add: get_bytes_def put_bytes_def)
  have r: "response_ok QL_TIPC_DEV_RECV (cmd_hdr_of_bytes (answer demo_idev w1))"
    unfolding b(1) demo_hdr_def by (simp add: response_ok_def QL_TIPC_DEV_RECV_def QL_TIPC_DEV_RESP_def)
  have "unat (id_buf_size demo_idev) = 4096" by (simp add: demo_idev_def)
  then have "on_ret (\<lambda>_ w1. 16 + min (unat (hdr_payload_len (cmd_hdr_of_bytes (answer demo_idev w1))))
      (iov_total demo_iovs) \<le> unat (id_buf_size demo_idev)) (transmit script_platform demo_idev (Recv 7) ?w)"
    using n by (simp add: t demo_iovs_ok)
  from trusty_ipc_dev_recv_delivers [OF demo_idev_ok script_keeps_buffers demo_iovs_ok(1) this]
  have "trusty_ipc_dev_recv script_platform demo_idev 7 demo_iovs ?w =
      Ret (3, scatter demo_iovs [9, 8, 7]) w1"
    using r by (simp add: t n p Let_def demo_iovs_ok c_int_def)
  then show ?thesis by (simp add: demo_iovs_def put_bytes_def)
qed

text \<open>
  C10: the control commands refine their abstract commands. Connecting, closing, checking for an
  event and fetching one each transmit exactly one command and nothing else; what they return is a
  function of the status of the call and of the answer in the buffer: the new handle, 0, whether
  the first payload byte is set, or the 16 byte event, and an error (or no event) when the call
  failed, the answer does not acknowledge the command, or it is too short.
\<close>

theorem trusty_ipc_dev_control_commands:
  assumes "idev_ok dev w" "keeps_buffers P" "33 + length port \<le> unat (id_buf_size dev)"
  shows "trusty_ipc_dev_connect P dev port cookie w =
      obind (transmit P dev (Connect port cookie) w) (\<lambda>rc w.
        let h = cmd_hdr_of_bytes (answer dev w) in
        Ret (if rc = 0 \<and> response_ok QL_TIPC_DEV_CONNECT h then c_int (hdr_handle h)
             else TRUSTY_ERR_SECOS_ERR) w) \<and>
    trusty_ipc_dev_close P dev chan w =
      obind (transmit P dev (Disconnect chan) w) (\<lambda>rc w.
        Ret (if rc = 0 \<and> response_ok QL_TIPC_DEV_DISCONNECT (cmd_hdr_of_bytes (answer dev w)) then 0
             else TRUSTY_ERR_SECOS_ERR) w) \<and>
    trusty_ipc_dev_has_event P dev chan w =
      obind (transmit P dev (Has_event chan) w) (\<lambda>rc w.
        let b = answer dev w; h = cmd_hdr_of_bytes b in
        Ret (rc = 0 \<and> response_ok QL_TIPC_DEV_FC_HAS_EVENT h \<and> hdr_payload_len h \<noteq> 0 \<and> b ! 16 \<noteq> 0) w) \<and>
    trusty_ipc_dev_get_event P dev chan w =
      obind (transmit P dev (Get_event chan) w) (\<lambda>rc w.
        let b = answer dev w; h = cmd_hdr_of_bytes b in
        Ret (if rc = 0 \<and> response_ok QL_TIPC_DEV_GET_EVENT h \<and> 16 \<le> hdr_payload_len h
             then (0, Some (event_of_bytes (get_bytes 16 16 b)))
             else (TRUSTY_ERR_SECOS_ERR, None)) w)"
proof (intro conjI)
  show "trusty_ipc_dev_connect P dev port cookie w =
      obind (transmit P dev (Connect port cookie) w) (\<lambda>rc w.
        let h = cmd_hdr_of_bytes (answer dev w) in
        Ret (if rc = 0 \<and> response_ok QL_TIPC_DEV_CONNECT h then c_int (hdr_handle h)
             else TRUSTY_ERR_SECOS_ERR) w)"
    unfolding trusty_ipc_dev_connect_transmits [OF assms(1,3)]
    by (rule transmit_then [OF assms(1,2)]) (simp add: response_simps Let_def trusty_err_defs)
  show "trusty_ipc_dev_close P dev chan w =
      obind (transmit P dev (Disconnect chan) w) (\<lambda>rc w.
        Ret (if rc = 0 \<and> response_ok QL_TIPC_DEV_DISCONNECT (cmd_hdr_of_bytes (answer dev w)) then 0
             else TRUSTY_ERR_SECOS_ERR) w)"
    unfolding trusty_ipc_dev_close_transmits [OF assms(1)]
    by (rule transmit_then [OF assms(1,2)]) (simp add: response_simps trusty_err_defs)
  have first: "get_bytes 16 1 b = [b ! 16]" if "4096 \<le> length b" for b :: bytes
    using that by (simp add: get_bytes_def take_Suc_conv_app_nth)
  show "trusty_ipc_dev_has_event P dev chan w =
      obind (transmit P dev (Has_event chan) w) (\<lambda>rc w.
        let b = answer dev w; h = cmd_hdr_of_bytes b in
        Ret (rc = 0 \<and> response_ok QL_TIPC_DEV_FC_HAS_EVENT h \<and> hdr_payload_len h \<noteq> 0 \<and> b ! 16 \<noteq> 0) w)"
    unfolding trusty_ipc_dev_has_event_transmits [OF assms(1)]
    by (rule transmit_then [OF assms(1,2)])
       (simp add: response_simps Let_def trusty_err_defs first [simplified] region_simps)
  show "trusty_ipc_dev_get_event P dev chan w =
      obind (transmit P dev (Get_event chan) w) (\<lambda>rc w.
        let b = answer dev w; h = cmd_hdr_of_bytes b in
        Ret (if rc = 0 \<and> response_ok QL_TIPC_DEV_GET_EVENT h \<and> 16 \<le> hdr_payload_len h
             then (0, Some (event_of_bytes (get_bytes 16 16 b)))
             else (TRUSTY_ERR_SECOS_ERR, None)) w)"
    unfolding trusty_ipc_dev_get_event_transmits [OF assms(1)]
    by (rule transmit_then [OF assms(1,2)])
       (auto simp: response_simps Let_def trusty_err_defs region_simps)
qed

lemma trusty_ipc_dev_control_commands_witness:
  "\<exists>w1. trusty_ipc_dev_connect script_platform demo_idev [97, 98] 5
      (demo_ipc_machine [(reply 0 0, Some (0x3000, demo_hdr 0x8001 0 42 0))]) = Ret 42 w1"
proof -
  let ?bs = "demo_hdr 0x8001 0 42 0" and ?c = "Connect [97, 98] 5"
  let ?w = "demo_ipc_machine [(reply 0 0, Some (0x3000, ?bs))]"
  have "length (cmd_payload ?c) \<le> 4080" "length ?bs \<le> 4096" by (simp_all add: demo_hdr_def)
  from demo_transmit [OF this, of "[]"] obtain w1 buf where
    t: "transmit script_platform demo_idev ?c ?w = Ret 0 w1"
    and b: "answer demo_idev w1 = put_bytes 0 ?bs buf" by blast
  have "cmd_hdr_of_bytes (answer demo_idev w1) =
      \<lparr>hdr_opcode = 0x8001, hdr_flags = 0, hdr_status = 0, hdr_handle = 42, hdr_payload_len = 0\<rparr>"
    using cmd_hdr_of_put [of _ "[]"] unfolding b demo_hdr_def by simp
  moreover have "33 + length [97, 98 :: u8] \<le> unat (id_buf_size demo_idev)"
    by (simp add: demo_idev_def)
  ultimately show ?thesis
    using trusty_ipc_dev_control_commands [OF demo_idev_ok script_keeps_buffers, of "[97, 98]" 5] t
    by (simp add: Let_def response_ok_def QL_TIPC_DEV_CONNECT_def QL_TIPC_DEV_RESP_def c_int_def)
qed

text \<open>
  No operation breaks the device invariant. Whatever the secure side answers, and also when the
  operation fails or aborts, the shared buffer still exists with its size afterwards and the
  underlying device is still ready.
\<close>

theorem ipc_dev_invariant:
  assumes "idev_ok dev w" "keeps_buffers P"
  shows "keeps (\<lambda>_ w'. idev_ok dev w') w (trusty_ipc_dev_connect P dev port cookie w) \<and>
    keeps (\<lambda>_ w'. idev_ok dev w') w (trusty_ipc_dev_close P dev h w) \<and>
    keeps (\<lambda>_ w'. idev_ok dev w') w (trusty_ipc_dev_has_event P dev h w) \<and>
    keeps (\<lambda>_ w'. idev_ok dev w') w (trusty_ipc_dev_get_event P dev h w) \<and>
    keeps (\<lambda>_ w'. idev_ok dev w') w (trusty_ipc_dev_send P dev h iovs w) \<and>
    keeps (\<lambda>_ w'. idev_ok dev w') w (trusty_ipc_dev_recv P dev h iovs w)"
  using assms by (intro conjI; intro keeps_mono [OF shapely_frame.ipc_dev_ops_frame(1)]
      keeps_mono [OF shapely_frame.ipc_dev_ops_frame(2)] keeps_mono [OF shapely_frame.ipc_dev_ops_frame(3)]
      keeps_mono [OF shapely_frame.ipc_dev_ops_frame(4)] keeps_mono [OF shapely_frame.ipc_dev_ops_frame(5)]
      keeps_mono [OF shapely_frame.ipc_dev_ops_frame(6)])
    (auto intro: idev_ok_shapely)

lemma ipc_dev_invariant_witness:
  "keeps (\<lambda>_ w'. idev_ok demo_idev w') (demo_ipc_machine [])
     (trusty_ipc_dev_close script_platform demo_idev 7 (demo_ipc_machine []))"
  using ipc_dev_invariant [OF demo_idev_ok script_keeps_buffers] by blast

text \<open>Steps that stay inside of the buffer and keep the invariant compose.\<close>

lemma safe_bind:
  assumes "no_fault m" "keeps shapely w m" "idev_ok dev w" "\<And>a w'. idev_ok dev w' \<Longrightarrow> no_fault (f a w')"
  shows "no_fault (obind m f)"
  using assms(1)
proof (rule no_fault_obindI)
  fix a w' assume "m = Ret a w'"
  with assms(2) have "shapely w w'" by simp
  with assms(3) have "idev_ok dev w'" by (rule idev_ok_shapely)
  then show "no_fault (f a w')" by (rule assms(4))
qed

lemma safe_steps:
  assumes "idev_ok dev w"
  shows "off + length bs \<le> 4096 \<Longrightarrow> no_fault (shm_write (id_buf_vaddr dev) off bs w)"
    and "off + n \<le> 4096 \<Longrightarrow> no_fault (shm_read (id_buf_vaddr dev) off n w)"
    and "off + 4 \<le> 4096 \<Longrightarrow> no_fault (shm_read_u32 (id_buf_vaddr dev) off w)"
    and "no_fault (check_response (id_buf_vaddr dev) op w)"
    and "no_fault (cmd_size (id_buf_vaddr dev) w)"
    and "list_all iov_ok iovs \<Longrightarrow>
      no_fault (iovec_to_buf (id_buf_vaddr dev) 16 (id_buf_size dev - 16) iovs w)"
proof -
  let ?va = "id_buf_vaddr dev"
  from assms obtain b w' where b: "w = set_buf ?va b w'" "length b = unat (id_buf_size dev)"
    "4096 \<le> length b" by (rule idev_ok_buf)
  then show "off + length bs \<le> 4096 \<Longrightarrow> no_fault (shm_write ?va off bs w)"
    "off + n \<le> 4096 \<Longrightarrow> no_fault (shm_read ?va off n w)"
    "off + 4 \<le> 4096 \<Longrightarrow> no_fault (shm_read_u32 ?va off w)"
    "no_fault (check_response ?va op w)" "no_fault (cmd_size ?va w)"
    by (simp_all add: region_simps response_simps cmd_size_def shm_read_u32_def)
  have "unat (id_buf_size dev - 16) = unat (id_buf_size dev) - 16"
    using b by (simp add: unat_sub word_le_nat_alt)
  moreover have "unat (id_buf_size dev) - 16 < 2 ^ 64"
    by (rule le_less_trans [OF diff_le_self]) (use unsigned_less [of "id_buf_size dev", where 'a = nat] in simp)
  ultimately show "no_fault (iovec_to_buf ?va 16 (id_buf_size dev - 16) iovs w)" if "list_all iov_ok iovs"
    using iovec_to_buf_loop_safe [OF that, of 16 0 "id_buf_size dev - 16" b ?va w'] b
    by (auto simp: iovec_to_buf_def)
qed

lemma keeps_shapely:
  "keeps (\<lambda>w w'. keeps_buffers P \<longrightarrow> shapely w w') w m \<Longrightarrow> keeps_buffers P \<Longrightarrow> keeps shapely w m"
  by (simp add: keeps_imp)

lemma iovec_to_buf_shapely:
  fixes P :: "'e platform" and w :: "('e, 'z) machine_scheme"
  shows "keeps_buffers P \<Longrightarrow> keeps shapely w (iovec_to_buf va off len iovs w)"
  using shapely_frame.iovec_to_buf_loop_frame [of P w] by (simp add: iovec_to_buf_def keeps_imp)

lemmas safe_binds = safe_bind [OF safe_steps(1) shm_write_keeps]
  safe_bind [OF safe_steps(2) shm_read_keeps]
  safe_bind [OF safe_steps(3) keeps_shapely [OF shapely_frame.shm_read_int_frame(2)]]
  safe_bind [OF safe_steps(4) keeps_shapely [OF shapely_frame.check_response_frame]]
  safe_bind [OF safe_steps(5) keeps_shapely [OF shapely_frame.cmd_size_frame]]
  safe_bind [OF safe_steps(6) iovec_to_buf_shapely]
  safe_bind [OF trusty_dev_ipc_no_fault(2) keeps_shapely [OF shapely_frame.trusty_dev_exec_ipc_frame]]
  safe_bind [OF trusty_dev_ipc_no_fault(3) keeps_shapely [OF shapely_frame.trusty_dev_exec_fc_ipc_frame]]



text \<open>
  The length check of connect lets some names through. The check in \<open>trusty_ipc_dev_connect\<close>
  adds the size of the request structure where it should subtract it, so a port name that fits the
  buffer alone but not behind the two headers is accepted, and copying it leaves the shared buffer.
\<close>

theorem trusty_ipc_dev_connect_overflow:
  assumes "idev_ok dev w" "length port < unat (id_buf_size dev)" "unat (id_buf_size dev) < 33 + length port"
  shows "trusty_ipc_dev_connect P dev port cookie w = Fault"
  using assms(1)
proof (rule idev_ok_buf)
  fix b w' assume b: "w = set_buf (id_buf_vaddr dev) b w'" "length b = unat (id_buf_size dev)"
    "4096 \<le> length b"
  have "unat (of_nat (length port) + 1 :: u64) = Suc (length port)"
    using assms(2) unsigned_less [of "id_buf_size dev", where 'a = nat]
    by (simp add: unat_of_nat unat_word_ariths(1))
  with assms(2) have "\<not> id_buf_size dev - 16 + 16 < of_nat (length port) + 1"
    by (simp add: word_less_nat_alt)
  with b assms(3) show ?thesis by (simp add: trusty_ipc_dev_connect_def region_simps Let_def)
qed

lemma trusty_ipc_dev_connect_overflow_witness:
  "trusty_ipc_dev_connect script_platform demo_idev (replicate 4090 97) 0 (demo_ipc_machine []) = Fault"
  by (rule trusty_ipc_dev_connect_overflow [OF demo_idev_ok]) (simp_all add: demo_idev_def)

text \<open>
  The payload length of a received message is taken from the secure side unchecked. If the
  answer announces more bytes than the shared buffer holds and the iovecs have room for them,
  \<open>trusty_ipc_dev_recv\<close> reads past the end of the buffer.
\<close>

theorem trusty_ipc_dev_recv_overread:
  assumes "idev_ok dev w" "keeps_buffers P" "list_all iov_ok iovs"
    and "transmit P dev (Recv chan) w = Ret rc w1" "0 \<le> rc"
    and "response_ok QL_TIPC_DEV_RECV (cmd_hdr_of_bytes (answer dev w1))"
    and "unat (id_buf_size dev) <
      16 + min (unat (hdr_payload_len (cmd_hdr_of_bytes (answer dev w1)))) (iov_total iovs)"
  shows "trusty_ipc_dev_recv P dev chan iovs w = Fault"
proof -
  from assms(1,2,4) have "idev_ok dev w1" by (rule transmit_Ret)
  then obtain b w' where b: "w1 = set_buf (id_buf_vaddr dev) b w'"
    "length b = unat (id_buf_size dev)" "4096 \<le> length b" by (rule idev_ok_buf)
  let ?n = "hdr_payload_len (cmd_hdr_of_bytes b)"
  have n: "unat (ucast ?n :: u64) = unat ?n"
    using unsigned_less [of ?n, where 'a = nat]
    by (simp add: unsigned_ucast_eq take_bit_nat_eq_self_iff)
  have lt: "length b < 16 + min (unat ?n) (iov_total iovs)" using assms(7) b by simp
  then have "iovs \<noteq> []" "?n \<noteq> 0" using b(3) by auto
  moreover have "buf_to_iovec_loop (id_buf_vaddr dev) 16 (ucast ?n) 0 iovs
      (set_buf (id_buf_vaddr dev) b w') = Fault"
    by (rule buf_to_iovec_loop_Fault [OF assms(3)]) (use lt b(3) n in simp_all)
  ultimately have "buf_to_iovec iovs (id_buf_vaddr dev) 16 (ucast ?n) (set_buf (id_buf_vaddr dev) b w') = Fault"
    using n by (auto simp: buf_to_iovec_def word_unat_eq_iff)
  with assms(4-6) b show ?thesis
    by (simp add: trusty_ipc_dev_recv_transmits [OF assms(1)] response_simps trusty_err_defs)
qed

lemma trusty_ipc_dev_recv_overread_witness:
  "trusty_ipc_dev_recv script_platform demo_idev 7 [\<lparr>iov_base = replicate 8192 0, iov_len = 8192\<rparr>]
     (demo_ipc_machine [(reply 0 0, Some (0x3000, demo_hdr 0x8004 0 7 5000))]) = Fault"
proof -
  let ?bs = "demo_hdr 0x8004 0 7 5000" and ?iovs = "[\<lparr>iov_base = replicate 8192 0, iov_len = 8192\<rparr>]"
  have "length (cmd_payload (Recv 7)) \<le> 4080" "length ?bs \<le> 4096" by (simp_all add: demo_hdr_def)
  from demo_transmit [OF this, of "[]"] obtain w1 buf where
    t: "transmit script_platform demo_idev (Recv 7) (demo_ipc_machine [(reply 0 0, Some (0x3000, ?bs))]) = Ret 0 w1"
    and b: "answer demo_idev w1 = put_bytes 0 ?bs buf" by blast
  have h: "cmd_hdr_of_bytes (answer demo_idev w1) =
      \<lparr>hdr_opcode = 0x8004, hdr_flags = 0, hdr_status = 0, hdr_handle = 7, hdr_payload_len = 5000\<rparr>"
    using cmd_hdr_of_put [of _ "[]"] unfolding b demo_hdr_def by simp
  have "list_all iov_ok ?iovs" by (simp add: iov_ok_def)
  from trusty_ipc_dev_recv_overread [OF demo_idev_ok script_keeps_buffers this t] h show ?thesis
    by (simp add: response_ok_def QL_TIPC_DEV_RECV_def QL_TIPC_DEV_RESP_def demo_idev_def)
qed

text \<open>
  C40: creating a device either yields a working one or leaves nothing behind.
  \<open>trusty_ipc_dev_create\<close> returns 0 exactly when it hands out a device; then that device satisfies
  the invariant, and exactly its record and its page block are newly allocated. On every error
  return all memory allocated on the way has been given back.
\<close>

theorem trusty_ipc_dev_create_all_or_nothing:
  assumes "trusty_ipc_dev_create P tdev sz w = Ret (r, od) w'" "keeps_buffers P" "dev_ready tdev w"
    and "PAGE_SIZE \<le> unat sz" "PAGE_SIZE dvd unat sz" "unat sz < 2 ^ 44"
  shows "(r = 0 \<longleftrightarrow> od \<noteq> None) \<and>
    (\<forall>dev. od = Some dev \<longrightarrow> idev_ok dev w' \<and> id_buf_size dev = sz \<and> id_tdev dev = tdev) \<and>
    (\<exists>t. calls w' = calls w @ t \<and> (\<forall>s. live s t = created s od))"
  using on_retD [OF trusty_ipc_dev_create_alloced assms(1)]
    on_retD [OF trusty_ipc_dev_create_idev_ok [OF assms(2-)] assms(1)]
  by (auto simp: alloced_def)

lemma trusty_ipc_dev_create_all_or_nothing_witness:
  "\<exists>dev w'. trusty_ipc_dev_create script_platform demo_dev 4096 demo_share_machine =
     Ret (0, Some dev) w' \<and> idev_ok dev w' \<and> live ([], []) (calls w') = ([0x3000], [0x9000])"
proof -
  have "\<exists>dev w'. trusty_ipc_dev_create script_platform demo_dev 4096 demo_share_machine =
      Ret (0, Some dev) w' \<and> id_buf_vaddr dev = 0x3000 \<and> id_self dev = 0x9000"
    by (simp add: trusty_ipc_dev_create_def trusty_calloc_def trusty_alloc_pages_def
        trusty_encode_page_info_def trusty_dev_share_memory_def build_mtd_eq smc_ffa_def
        trusty_dev_init_ipc_def trusty_call32_mem_buf_id_def
        trusty_std_call32_def trusty_std_call_helper_def std_call_helper_loop.simps SMC_IS_FASTCALL_def
        trusty_std_call_inner_def std_call_retry_loop.simps fiq_restart_loop.simps c_int_def
        std_call_restart_loop.simps smc_def smc8_def sys_call_def script_platform_def reply_def
        demo_share_machine_def script_machine_def smc_number_values sm_err_defs demo_dev_def
        script_write_def ffa_number_values trusty_err_defs PAGE_SIZE_def)
  then obtain dev w' where w': "trusty_ipc_dev_create script_platform demo_dev 4096 demo_share_machine =
      Ret (0, Some dev) w'" "id_buf_vaddr dev = 0x3000" "id_self dev = 0x9000" by blast
  from trusty_ipc_dev_create_all_or_nothing [OF w'(1) script_keeps_buffers demo_dev_ready] w' show ?thesis
    by (auto simp: PAGE_SIZE_def created_def demo_share_machine_def script_machine_def)
qed

lemma trusty_ipc_dev_shutdown_Ret:
  assumes "trusty_ipc_dev_shutdown P dev w = Ret u w'"
  shows "(\<exists>t. calls w' = calls w @ t \<and>
      (\<forall>ps hs. live (id_buf_vaddr dev # ps, id_self dev # hs) t = (ps, hs))) \<and>
    shm w' (id_buf_vaddr dev) = None"
proof -
  from assms obtain rc w1 w2 where
    s: "trusty_dev_shutdown_ipc P (id_tdev dev) (id_buf_id dev) (ucast (id_buf_size dev)) w = Ret rc w1"
    "trusty_dev_reclaim_memory P (id_tdev dev) (id_buf_id dev) w1 = Ret 0 w2"
    and w': "calls w' = calls w2 @ [C_free_pages (id_buf_vaddr dev)
        (ucast (id_buf_size dev div of_nat PAGE_SIZE)), C_free (id_self dev)]"
      "shm w' (id_buf_vaddr dev) = None"
    by (auto simp: trusty_ipc_dev_shutdown_def outcome_simps trusty_free_pages_def sys_call_def
        split: if_splits)
  from s have "balanced w w1" "balanced w1 w2"
    using balanced_frame.trusty_dev_shutdown_ipc_frame
      [of w P "id_tdev dev" "id_buf_id dev" "ucast (id_buf_size dev)"]
      balanced_frame.trusty_dev_reclaim_memory_frame [of w1 P "id_tdev dev" "id_buf_id dev"]
    by simp_all
  then have "balanced w w2" by (rule balanced_trans)
  with w' show ?thesis by (auto simp: balanced_def)
qed

text \<open>
  Shutting down gives everything back. When \<open>trusty_ipc_dev_shutdown\<close> returns, the shared pages
  and the device record are released, nothing else is, and the buffer is no longer mapped; it does
  not return while the secure side still holds the memory, but aborts.
\<close>

theorem trusty_ipc_dev_shutdown_releases:
  assumes "trusty_ipc_dev_shutdown P dev w = Ret u w'"
  shows "(\<exists>t. calls w' = calls w @ t \<and>
      (\<forall>ps hs. live (id_buf_vaddr dev # ps, id_self dev # hs) t = (ps, hs))) \<and>
    shm w' (id_buf_vaddr dev) = None"
  using assms by (rule trusty_ipc_dev_shutdown_Ret)

lemma trusty_ipc_dev_shutdown_releases_witness:
  "\<exists>w'. trusty_ipc_dev_shutdown script_platform (demo_idev\<lparr>id_tdev := demo_dev\<lparr>td_ffa_tx := 0\<rparr>\<rparr>)
     (demo_ipc_machine []) = Ret () w' \<and> shm w' 0x3000 = None"
proof -
  let ?dev = "demo_idev\<lparr>id_tdev := demo_dev\<lparr>td_ffa_tx := 0\<rparr>\<rparr>"
  have "\<exists>w'. trusty_ipc_dev_shutdown script_platform ?dev (demo_ipc_machine []) = Ret () w'"
    by (simp add: trusty_ipc_dev_shutdown_def trusty_dev_shutdown_ipc_def trusty_call32_mem_buf_id_def
        trusty_std_call32_def trusty_std_call_helper_def std_call_helper_loop.simps SMC_IS_FASTCALL_def
        trusty_std_call_inner_def std_call_retry_loop.simps fiq_restart_loop.simps c_int_def
        std_call_restart_loop.simps smc_def smc8_def sys_call_def script_platform_def reply_def
        demo_ipc_machine_def script_machine_def smc_number_values sm_err_defs demo_idev_def
        trusty_dev_reclaim_memory_def trusty_free_pages_def)
  then obtain w' where w': "trusty_ipc_dev_shutdown script_platform ?dev (demo_ipc_machine []) = Ret () w'"
    by blast
  from trusty_ipc_dev_shutdown_releases [OF this] w' show ?thesis by (auto simp: demo_idev_def)
qed

text \<open>
  A message survives the trip through the shared buffer. What \<open>iovec_to_buf\<close> gathers from one
  list of iovecs, \<open>buf_to_iovec\<close> scatters over any other list with enough room so that its iovecs
  hold the same bytes in the same order, however the two lists cut the message into pieces.
\<close>

theorem iovec_round_trip:
  assumes "list_all iov_ok iovs" "iov_total iovs \<le> unat len" "16 + iov_total iovs \<le> length b"
    and "list_all iov_ok iovs'" "iov_total iovs \<le> iov_total iovs'"
  shows "\<exists>b' iovs''.
    iovec_to_buf va 16 len iovs (set_buf va b w) = Ret (of_nat (iov_total iovs)) (set_buf va b' w) \<and>
    buf_to_iovec iovs' va 16 (of_nat (iov_total iovs)) (set_buf va b' w) =
      Ret (of_nat (iov_total iovs), iovs'') (set_buf va b' w) \<and>
    take (iov_total iovs) (gather iovs'') = gather iovs"
proof -
  let ?n = "iov_total iovs" and ?b = "put_bytes 16 (gather iovs) b"
  have n: "?n < 2 ^ 64" using assms(2) unsigned_less [of len, where 'a = nat] by simp
  then have un: "unat (of_nat ?n :: u64) = ?n" by (simp add: unat_of_nat)
  have len: "length (gather iovs) = ?n" using assms(1) by (rule length_gather)
  have put: "iovec_to_buf va 16 len iovs (set_buf va b w) = Ret (of_nat ?n) (set_buf va ?b w)"
    using iovec_to_buf_loop_eq [OF assms(1,2), of 16 0 b va w] assms(3) n by (simp add: iovec_to_buf_def)
  have "get_bytes 16 ?n ?b = gather iovs"
    using get_put_same [of 16 b "gather iovs"] assms(3) len by simp
  moreover have "buf_to_iovec iovs' va 16 (of_nat ?n) (set_buf va ?b w) =
      Ret (of_nat (min ?n (iov_total iovs')), scatter iovs' (get_bytes 16 ?n ?b)) (set_buf va ?b w)"
    using buf_to_iovec_eq [OF assms(4), of 16 "of_nat ?n" ?b va w] assms(3,5) len un by simp
  moreover have "take ?n (gather (scatter iovs' (gather iovs))) = gather iovs"
    using gather_scatter [OF assms(4), of "gather iovs"] assms(5) len by simp
  ultimately show ?thesis
    using put assms(5) by (intro exI [of _ ?b] exI [of _ "scatter iovs' (gather iovs)"]) simp
qed

lemma iovec_round_trip_witness:
  "\<exists>b' iovs''. buf_to_iovec [\<lparr>iov_base = [0, 0, 0], iov_len = 3\<rparr>, \<lparr>iov_base = [0], iov_len = 1\<rparr>] 0x3000 16 4
     (set_buf 0x3000 b' (demo_ipc_machine [])) = Ret (4, iovs'') (set_buf 0x3000 b' (demo_ipc_machine [])) \<and>
     take 4 (gather iovs'') = [1, 2, 4, 5]"
proof -
  let ?iovs = "[\<lparr>iov_base = [0, 0, 0], iov_len = 3\<rparr>, \<lparr>iov_base = [0], iov_len = 1\<rparr>]"
  have "iov_total demo_iovs \<le> unat (100 :: u64)" "16 + iov_total demo_iovs \<le> length (replicate 4096 0 :: bytes)"
    "list_all iov_ok ?iovs" "iov_total demo_iovs \<le> iov_total ?iovs"
    by (simp_all add: demo_iovs_ok iov_ok_def)
  from iovec_round_trip [OF demo_iovs_ok(1) this, where va = "0x3000" and w = "demo_ipc_machine []"]
  show ?thesis by (auto simp: demo_iovs_ok)
qed

section \<open>Lemmas: what a client may rely on after a receive\<close>

definition same_iovs :: "trusty_ipc_iovec list \<Rightarrow> trusty_ipc_iovec list \<Rightarrow> bool" where
  "same_iovs = list_all2 (\<lambda>i j. iov_len j = iov_len i \<and> length (iov_base j) = length (iov_base i))"

lemma same_iovs_refl [simp]: "same_iovs iovs iovs"
  by (simp add: same_iovs_def list_all2_refl)

lemma same_iovs_Cons:
  "same_iovs (i # is) js \<longleftrightarrow>
     (\<exists>j js'. js = j # js' \<and> iov_len j = iov_len i \<and> length (iov_base j) = length (iov_base i) \<and>
       same_iovs is js')"
  by (auto simp: same_iovs_def list_all2_Cons1)

lemma same_iovs_Nil: "same_iovs [] js \<longleftrightarrow> js = []"
  by (simp add: same_iovs_def)

lemma shm_read_length: "shm_read va off n w = Ret bs w' \<Longrightarrow> length bs = n \<and> w' = w"
  by (auto simp: shm_read_def split: option.splits if_splits)

lemma buf_to_iovec_loop_bound:
  assumes "buf_to_iovec_loop va ptr len copied iovs w = Ret (n, iovs') w'"
  shows "same_iovs iovs iovs' \<and> (\<exists>k \<le> iov_total iovs. n = copied + of_nat k)"
  using assms
proof (induction iovs arbitrary: ptr len copied n iovs' w)
  case Nil
  then show ?case by auto
next
  case (Cons iov iovs)
  define c where "c = (if len > iov_len iov then iov_len iov else len)"
  have c: "unat c \<le> unat (iov_len iov)" by (auto simp: word_less_nat_alt c_def)
  let ?iov = "\<lambda>bs. iov\<lparr>iov_base := put_bytes 0 bs (iov_base iov)\<rparr>"
  have step: "(if c = 0 then
        obind (buf_to_iovec_loop va ptr len copied iovs w) (\<lambda>(n, iovs') w. Ret (n, iov # iovs') w)
      else if length (iov_base iov) < unat c then Fault
      else obind (shm_read va ptr (unat c) w) (\<lambda>bs w.
        if len - c = 0 then Ret (copied + c, ?iov bs # iovs) w
        else obind (buf_to_iovec_loop va (ptr + unat c) (len - c) (copied + c) iovs w)
          (\<lambda>(n, js) w. Ret (n, ?iov bs # js) w))) = Ret (n, iovs') w'"
    using Cons.prems by (simp only: buf_to_iovec_loop.simps Let_def c_def)
  show ?case
  proof (cases "c = 0")
    case True
    with step obtain js where
      js: "buf_to_iovec_loop va ptr len copied iovs w = Ret (n, js) w'" "iovs' = iov # js"
      by (auto simp: outcome_simps)
    from Cons.IH [OF js(1)] obtain k where "same_iovs iovs js" "k \<le> iov_total iovs"
      "n = copied + of_nat k" by blast
    with js(2) show ?thesis by (auto simp: same_iovs_Cons intro!: exI [of _ k])
  next
    case False
    with step have le: "unat c \<le> length (iov_base iov)" by (simp split: if_splits)
    with step False obtain bs where
      bs: "shm_read va ptr (unat c) w = Ret bs w" and
      rest: "(if len - c = 0 then Ret (copied + c, ?iov bs # iovs) w
         else obind (buf_to_iovec_loop va (ptr + unat c) (len - c) (copied + c) iovs w)
           (\<lambda>(n, js) w. Ret (n, ?iov bs # js) w)) = Ret (n, iovs') w'"
      by (auto simp: outcome_simps not_less dest: shm_read_length simp del: right_minus_eq)
    have len: "length (put_bytes 0 bs (iov_base iov)) = length (iov_base iov)"
      using shm_read_length [OF bs] le by simp
    show ?thesis
    proof (cases "len - c = 0")
      case True
      with rest have "iovs' = iov\<lparr>iov_base := put_bytes 0 bs (iov_base iov)\<rparr> # iovs" "n = copied + c"
        by auto
      with len c show ?thesis
        by (auto simp: same_iovs_Cons intro!: exI [of _ "unat c"] simp del: length_put_bytes)
    next
      case more: False
      with rest obtain js where
        js: "buf_to_iovec_loop va (ptr + unat c) (len - c) (copied + c) iovs w = Ret (n, js) w'"
          "iovs' = iov\<lparr>iov_base := put_bytes 0 bs (iov_base iov)\<rparr> # js"
        by (auto simp: outcome_simps)
      from Cons.IH [OF js(1)] obtain k where k: "same_iovs iovs js" "k \<le> iov_total iovs"
        "n = copied + c + of_nat k" by blast
      with len c js(2) show ?thesis
        by (auto simp: same_iovs_Cons intro!: exI [of _ "unat c + k"] simp del: length_put_bytes)
    qed
  qed
qed

lemma check_response_result:
  "check_response va op w = Ret r w' \<Longrightarrow> r = TRUSTY_ERR_NONE \<or> r = TRUSTY_ERR_SECOS_ERR"
  by (auto simp: check_response_def outcome_simps split: if_splits)

lemma buf_to_iovec_bound:
  assumes "buf_to_iovec iovs va ptr len w = Ret (n, iovs') w'"
  shows "same_iovs iovs iovs' \<and> (\<exists>k \<le> iov_total iovs. n = of_nat k)"
  using assms buf_to_iovec_loop_bound [of va ptr len 0 iovs w n iovs' w']
  by (auto simp: buf_to_iovec_def split: if_splits)

lemma trusty_ipc_dev_recv_bound:
  assumes "iov_total iovs < 2 ^ 31"
  shows "on_ret (\<lambda>(r, iovs') _. same_iovs iovs iovs' \<and> r \<le> int (iov_total iovs))
    (trusty_ipc_dev_recv P dev h iovs w)"
  unfolding trusty_ipc_dev_recv_def Let_def
proof (intro on_ret_bindI on_ret_if on_ret_case_prod, goal_cases)
  case 1
  then show ?case by (simp add: trusty_err_defs)
next
  case 2
  then show ?case by (auto simp: trusty_err_defs dest!: check_response_result)
next
  case 3
  then show ?case by (auto simp: trusty_err_defs dest!: buf_to_iovec_bound)
next
  case 4
  then show ?case using assms by (auto dest!: buf_to_iovec_bound simp: c_int_of_nat simp del: c_int_ucast64)
qed

end
