(* ===== verification/Ipc.thy ===== *)
theory Ipc
  imports Ipc_Dev
begin

text \<open>
  Trusty IPC channels, \<open>ql-tipc/ipc.c\<close>: channels on top of the IPC device, event dispatch to the
  handlers of a channel, and the synchronous wait built on it. Channels live in a store indexed by
  their address, which is also the cookie the secure side returns with an event. A channel points
  to a table of handlers; the tables themselves are the parameter \<open>tab\<close>, because their functions
  call back into this component. The lemmas show the order in which events are dispatched, what a
  wait can return, how the handle of a channel follows connect and close, and that sending never
  blocks.
\<close>

section \<open>Channels\<close>

text \<open>The two handler tables of the program, by the name of the C object.\<close>

datatype ops_ptr = Sync_ipc_ops | Proxy_ops

record trusty_ipc_chan =
  ch_ops_ctx :: u64
  ch_handle :: handle_t
  ch_complete :: int
  ch_dev :: trusty_ipc_dev
  ch_ops :: ops_ptr

record 'e world = "'e machine" +
  chans :: "u64 \<rightharpoonup> trusty_ipc_chan"

record ('e, 'z) trusty_ipc_ops =
  on_raw_event ::
    "(u64 \<Rightarrow> trusty_ipc_event \<Rightarrow> ('e, 'z) world_scheme \<Rightarrow> (int, ('e, 'z) world_scheme) outcome) option"
  on_connect_complete ::
    "(u64 \<Rightarrow> ('e, 'z) world_scheme \<Rightarrow> (int, ('e, 'z) world_scheme) outcome) option"
  on_send_unblocked ::
    "(u64 \<Rightarrow> ('e, 'z) world_scheme \<Rightarrow> (int, ('e, 'z) world_scheme) outcome) option"
  on_message ::
    "(u64 \<Rightarrow> ('e, 'z) world_scheme \<Rightarrow> (int, ('e, 'z) world_scheme) outcome) option"
  on_disconnect ::
    "(u64 \<Rightarrow> ('e, 'z) world_scheme \<Rightarrow> (int, ('e, 'z) world_scheme) outcome) option"

type_synonym ('e, 'z) ops_table = "ops_ptr \<Rightarrow> ('e, 'z) trusty_ipc_ops"

text \<open>Reading and updating a channel through its address.\<close>

definition get_chan ::
  "u64 \<Rightarrow> ('e, 'z) world_scheme \<Rightarrow> (trusty_ipc_chan, ('e, 'z) world_scheme) outcome"
where
  "get_chan c w = (case chans w c of None \<Rightarrow> Fault | Some ch \<Rightarrow> Ret ch w)"

definition upd_chan ::
  "u64 \<Rightarrow> (trusty_ipc_chan \<Rightarrow> trusty_ipc_chan) \<Rightarrow> ('e, 'z) world_scheme \<Rightarrow>
   (unit, ('e, 'z) world_scheme) outcome"
where
  "upd_chan c f w =
     (case chans w c of None \<Rightarrow> Fault | Some ch \<Rightarrow> Ret () (w\<lparr>chans := (chans w)(c \<mapsto> f ch)\<rparr>))"

section \<open>The synchronous handlers\<close>

definition sync_ipc_on_connect_complete ::
  "u64 \<Rightarrow> ('e, 'z) world_scheme \<Rightarrow> (int, ('e, 'z) world_scheme) outcome"
where
  "sync_ipc_on_connect_complete c w =
     obind (upd_chan c (\<lambda>ch. ch\<lparr>ch_complete := 1\<rparr>) w) (\<lambda>_ w. Ret TRUSTY_EVENT_HANDLED w)"

definition sync_ipc_on_message ::
  "u64 \<Rightarrow> ('e, 'z) world_scheme \<Rightarrow> (int, ('e, 'z) world_scheme) outcome"
where
  "sync_ipc_on_message c w =
     obind (upd_chan c (\<lambda>ch. ch\<lparr>ch_complete := 1\<rparr>) w) (\<lambda>_ w. Ret TRUSTY_EVENT_HANDLED w)"

definition sync_ipc_on_disconnect ::
  "u64 \<Rightarrow> ('e, 'z) world_scheme \<Rightarrow> (int, ('e, 'z) world_scheme) outcome"
where
  "sync_ipc_on_disconnect c w =
     obind (upd_chan c (\<lambda>ch. ch\<lparr>ch_complete := TRUSTY_ERR_CHANNEL_CLOSED\<rparr>) w)
       (\<lambda>_ w. Ret TRUSTY_EVENT_HANDLED w)"

definition sync_ipc_ops :: "('e, 'z) trusty_ipc_ops" where
  "sync_ipc_ops =
     \<lparr>on_raw_event = None, on_connect_complete = Some sync_ipc_on_connect_complete,
      on_send_unblocked = None, on_message = Some sync_ipc_on_message,
      on_disconnect = Some sync_ipc_on_disconnect\<rparr>"

section \<open>Event dispatch\<close>

text \<open>
  One of the five callback blocks of \<open>trusty_ipc_poll_for_event\<close>: if the condition holds and the
  channel's table has the handler, call it. A result other than 0 ends the dispatch.
\<close>

definition run_handler ::
  "('e, 'z) ops_table \<Rightarrow> bool \<Rightarrow>
   (('e, 'z) trusty_ipc_ops \<Rightarrow>
     (u64 \<Rightarrow> ('e, 'z) world_scheme \<Rightarrow> (int, ('e, 'z) world_scheme) outcome) option) \<Rightarrow>
   u64 \<Rightarrow> ('e, 'z) world_scheme \<Rightarrow> (int, ('e, 'z) world_scheme) outcome"
where
  "run_handler tab cond sel c w =
     (if cond then
        obind (get_chan c w) (\<lambda>ch w.
          case sel (tab (ch_ops ch)) of None \<Rightarrow> Ret 0 w | Some h \<Rightarrow> h c w)
      else Ret 0 w)"

definition trusty_ipc_poll_for_event ::
  "'e platform \<Rightarrow> ('e, 'z) ops_table \<Rightarrow> trusty_ipc_dev \<Rightarrow> ('e, 'z) world_scheme \<Rightarrow>
   (int, ('e, 'z) world_scheme) outcome"
where
  "trusty_ipc_poll_for_event P tab ipc_dev w =
     obind (trusty_ipc_dev_get_event P ipc_dev 0 w) (\<lambda>(rc, evt) w.
     if rc \<noteq> 0 then Ret rc w else
     (case evt of None \<Rightarrow> Fault | Some evt \<Rightarrow>
     if ev_event evt = 0 then Ret TRUSTY_EVENT_NONE w else
     let c = ev_cookie evt; has = (\<lambda>bit. ev_event evt AND bit \<noteq> 0) in
     obind (run_handler tab True (\<lambda>ops. map_option (\<lambda>h c. h c evt) (on_raw_event ops)) c w) (\<lambda>rc w.
     if rc \<noteq> 0 then Ret rc w else
     if has IPC_HANDLE_POLL_ERROR then Ret TRUSTY_ERR_GENERIC w else
     obind (run_handler tab (has IPC_HANDLE_POLL_SEND_UNBLOCKED) on_send_unblocked c w) (\<lambda>rc w.
     if rc \<noteq> 0 then Ret rc w else
     obind (run_handler tab (has IPC_HANDLE_POLL_READY) on_connect_complete c w) (\<lambda>rc w.
     if rc \<noteq> 0 then Ret rc w else
     obind (run_handler tab (has IPC_HANDLE_POLL_MSG) on_message c w) (\<lambda>rc w.
     if rc \<noteq> 0 then Ret rc w else
     obind (run_handler tab (has IPC_HANDLE_POLL_HUP) on_disconnect c w) (\<lambda>rc w.
     if rc \<noteq> 0 then Ret rc w else Ret TRUSTY_ERR_NONE w)))))))"

section \<open>Waiting\<close>

fun wait_loop ::
  "'e platform \<Rightarrow> ('e, 'z) ops_table \<Rightarrow> nat \<Rightarrow> u64 \<Rightarrow> ('e, 'z) world_scheme \<Rightarrow>
   (int, ('e, 'z) world_scheme) outcome"
where
  "wait_loop P tab n c w =
     obind (get_chan c w) (\<lambda>ch w.
     obind (trusty_ipc_poll_for_event P tab (ch_dev ch) w) (\<lambda>rc w.
     if rc < 0 then Ret rc w else
     obind (get_chan c w) (\<lambda>ch w.
     if ch_complete ch \<noteq> 0 then Ret (ch_complete ch) w else
     obind
       (if rc = TRUSTY_EVENT_NONE then
          obind (trusty_ipc_dev_has_event P (ch_dev ch) 0 w) (\<lambda>has_event w.
            if \<not> has_event then trusty_ipc_dev_idle P (ch_dev ch) True w else Ret () w)
        else Ret () w)
       (\<lambda>_ w. case n of 0 \<Rightarrow> NoFuel | Suc n' \<Rightarrow> wait_loop P tab n' c w))))"

definition wait_for_complete ::
  "'e platform \<Rightarrow> ('e, 'z) ops_table \<Rightarrow> u64 \<Rightarrow> ('e, 'z) world_scheme \<Rightarrow>
   (int, ('e, 'z) world_scheme) outcome"
where
  "wait_for_complete P tab c w =
     obind (upd_chan c (\<lambda>ch. ch\<lparr>ch_complete := 0\<rparr>) w) (\<lambda>_ w. wait_loop P tab (fuel P) c w)"

definition wait_for_connect ::
  "'e platform \<Rightarrow> ('e, 'z) ops_table \<Rightarrow> u64 \<Rightarrow> ('e, 'z) world_scheme \<Rightarrow>
   (int, ('e, 'z) world_scheme) outcome"
where
  "wait_for_connect P tab c w = wait_for_complete P tab c w"

definition wait_for_send ::
  "'e platform \<Rightarrow> ('e, 'z) ops_table \<Rightarrow> u64 \<Rightarrow> ('e, 'z) world_scheme \<Rightarrow>
   (int, ('e, 'z) world_scheme) outcome"
where
  "wait_for_send P tab c w = wait_for_complete P tab c w"

definition wait_for_reply ::
  "'e platform \<Rightarrow> ('e, 'z) ops_table \<Rightarrow> u64 \<Rightarrow> ('e, 'z) world_scheme \<Rightarrow>
   (int, ('e, 'z) world_scheme) outcome"
where
  "wait_for_reply P tab c w = wait_for_complete P tab c w"

section \<open>Channel operations\<close>

text \<open>The storage of a channel object exists before it is initialised, with arbitrary content.\<close>

definition trusty_ipc_chan_init ::
  "u64 \<Rightarrow> trusty_ipc_dev \<Rightarrow> ('e, 'z) world_scheme \<Rightarrow> (unit, ('e, 'z) world_scheme) outcome"
where
  "trusty_ipc_chan_init c dev w =
     Ret () (w\<lparr>chans := (chans w)(c \<mapsto>
       \<lparr>ch_ops_ctx = c, ch_handle = INVALID_IPC_HANDLE, ch_complete = 0, ch_dev = dev,
        ch_ops = Sync_ipc_ops\<rparr>)\<rparr>)"

definition trusty_ipc_close ::
  "'e platform \<Rightarrow> u64 \<Rightarrow> ('e, 'z) world_scheme \<Rightarrow> (int, ('e, 'z) world_scheme) outcome"
where
  "trusty_ipc_close P c w =
     obind (get_chan c w) (\<lambda>ch w.
     obind (trusty_ipc_dev_close P (ch_dev ch) (ch_handle ch) w) (\<lambda>rc w.
     obind (upd_chan c (\<lambda>ch. ch\<lparr>ch_handle := INVALID_IPC_HANDLE\<rparr>) w) (\<lambda>_ w. Ret rc w)))"

definition trusty_ipc_connect ::
  "'e platform \<Rightarrow> ('e, 'z) ops_table \<Rightarrow> u64 \<Rightarrow> cstring \<Rightarrow> bool \<Rightarrow> ('e, 'z) world_scheme \<Rightarrow>
   (int, ('e, 'z) world_scheme) outcome"
where
  "trusty_ipc_connect P tab c port wait w =
     obind (get_chan c w) (\<lambda>ch w.
     obind (trusty_ipc_dev_connect P (ch_dev ch) port c w) (\<lambda>rc w.
     if rc < 0 then Ret rc w else
     obind (upd_chan c (\<lambda>ch. ch\<lparr>ch_handle := word_of_int rc\<rparr>) w) (\<lambda>_ w.
     if wait then
       obind (wait_for_connect P tab c w) (\<lambda>rc w.
         if rc < 0 then obind (trusty_ipc_close P c w) (\<lambda>_ w. Ret rc w) else Ret rc w)
     else Ret rc w)))"

fun send_again_loop ::
  "'e platform \<Rightarrow> ('e, 'z) ops_table \<Rightarrow> nat \<Rightarrow> u64 \<Rightarrow> trusty_ipc_iovec list \<Rightarrow> bool \<Rightarrow>
   ('e, 'z) world_scheme \<Rightarrow> (int, ('e, 'z) world_scheme) outcome"
where
  "send_again_loop P tab n c iovs wait w =
     obind (get_chan c w) (\<lambda>ch w.
     obind (trusty_ipc_dev_send P (ch_dev ch) (ch_handle ch) iovs w) (\<lambda>rc w.
     if rc = TRUSTY_ERR_SEND_BLOCKED \<and> wait then
       obind (wait_for_send P tab c w) (\<lambda>rc w.
         if rc < 0 then Ret rc w
         else (case n of 0 \<Rightarrow> NoFuel | Suc n' \<Rightarrow> send_again_loop P tab n' c iovs wait w))
     else Ret rc w))"

definition trusty_ipc_send ::
  "'e platform \<Rightarrow> ('e, 'z) ops_table \<Rightarrow> u64 \<Rightarrow> trusty_ipc_iovec list \<Rightarrow> bool \<Rightarrow>
   ('e, 'z) world_scheme \<Rightarrow> (int, ('e, 'z) world_scheme) outcome"
where
  "trusty_ipc_send P tab c iovs wait w = send_again_loop P tab (fuel P) c iovs wait w"

definition trusty_ipc_recv ::
  "'e platform \<Rightarrow> ('e, 'z) ops_table \<Rightarrow> u64 \<Rightarrow> trusty_ipc_iovec list \<Rightarrow> bool \<Rightarrow>
   ('e, 'z) world_scheme \<Rightarrow> (int \<times> trusty_ipc_iovec list, ('e, 'z) world_scheme) outcome"
where
  "trusty_ipc_recv P tab c iovs wait w =
     obind (if wait then wait_for_reply P tab c w else Ret 0 w) (\<lambda>rc w.
     if wait \<and> rc < 0 then Ret (rc, iovs) w else
     obind (get_chan c w) (\<lambda>ch w.
       trusty_ipc_dev_recv P (ch_dev ch) (ch_handle ch) iovs w))"

declare wait_loop.simps [simp del] send_again_loop.simps [simp del]

section \<open>Lemmas: channels and the device below\<close>

lemma stays_more: "stays w w' \<Longrightarrow> chans w' = chans w \<and> world.more w' = world.more w"
  by (cases w, cases w') (simp add: stays_def)

lemma keeps_stays_Ret:
  assumes "keeps stays w m" "m = Ret a w'"
  shows "chans w' = chans w" "world.more w' = world.more w"
  using assms stays_more by auto

lemmas dev_chans = keeps_stays_Ret(1) [OF stays_frame.ipc_dev_ops_frame(1)]
  keeps_stays_Ret(1) [OF stays_frame.ipc_dev_ops_frame(2)]
  keeps_stays_Ret(1) [OF stays_frame.ipc_dev_ops_frame(3)]
  keeps_stays_Ret(1) [OF stays_frame.ipc_dev_ops_frame(4)]
  keeps_stays_Ret(1) [OF stays_frame.ipc_dev_ops_frame(5)]
  keeps_stays_Ret(1) [OF stays_frame.ipc_dev_ops_frame(6)]
  keeps_stays_Ret(1) [OF stays_frame.trusty_ipc_dev_idle_frame]

lemma get_chan_Ret [simp]: "get_chan c w = Ret ch w' \<longleftrightarrow> chans w c = Some ch \<and> w' = w"
  by (auto simp: get_chan_def split: option.splits)

lemma upd_chan_Ret:
  "upd_chan c f w = Ret u w' \<longleftrightarrow>
     (\<exists>ch. chans w c = Some ch \<and> w' = w\<lparr>chans := (chans w)(c \<mapsto> f ch)\<rparr>)"
  by (auto simp: upd_chan_def split: option.splits)

lemma trusty_ipc_dev_send_result:
  "trusty_ipc_dev_send P dev h iovs w = Ret r w' \<Longrightarrow>
   r = TRUSTY_ERR_NONE \<or> r = TRUSTY_ERR_SECOS_ERR \<or> r = TRUSTY_ERR_MSG_TOO_BIG"
  by (auto simp: trusty_ipc_dev_send_def outcome_simps Let_def dest: check_response_result
      split: if_splits)

section \<open>What channel operations leave alone\<close>

text \<open>
  The interface to a table of handlers: a frame of the device that updates of a channel's handle or
  completion keep, and that every handler of the table keeps, is kept by every channel operation,
  through any number of dispatched events.
\<close>

locale handler_frame = call_frame P R
  for P :: "'e platform" and R :: "('e, 'z) world_scheme \<Rightarrow> ('e, 'z) world_scheme \<Rightarrow> bool" +
  fixes tab :: "('e, 'z) ops_table"
  assumes frame_complete: "keeps R w (upd_chan c (\<lambda>ch. ch\<lparr>ch_complete := k\<rparr>) w)"
    and frame_handle: "keeps R w (upd_chan c (\<lambda>ch. ch\<lparr>ch_handle := h\<rparr>) w)"
    and frame_raw_event: "on_raw_event (tab p) = Some f1 \<Longrightarrow> keeps R w (f1 c e w)"
    and frame_connect_complete: "on_connect_complete (tab p) = Some f \<Longrightarrow> keeps R w (f c w)"
    and frame_send_unblocked: "on_send_unblocked (tab p) = Some f \<Longrightarrow> keeps R w (f c w)"
    and frame_message: "on_message (tab p) = Some f \<Longrightarrow> keeps R w (f c w)"
    and frame_disconnect: "on_disconnect (tab p) = Some f \<Longrightarrow> keeps R w (f c w)"
begin

lemma get_chan_frame: "keeps R w (get_chan c w)"
  by (auto simp: get_chan_def frame_refl split: option.splits)

lemma run_handler_frame:
  assumes "\<And>p f w. sel (tab p) = Some f \<Longrightarrow> keeps R w (f c w)"
  shows "keeps R w (run_handler tab b sel c w)"
  unfolding run_handler_def
  by (intro keeps_if keeps_bind get_chan_frame) (auto simp: frame_refl assms split: option.splits)

lemma poll_frame: "keeps R w (trusty_ipc_poll_for_event P tab dev w)"
  unfolding trusty_ipc_poll_for_event_def Let_def
  apply (intro keeps_bind keeps_if keeps_case_prod ipc_dev_ops_frame keeps_return)
  apply (auto simp: frame_refl frame_raw_event frame_connect_complete frame_send_unblocked
      frame_message frame_disconnect split: option.splits
      intro!: keeps_bind keeps_if run_handler_frame)
  done

lemma wait_loop_frame: "keeps R w (wait_loop P tab n c w)"
proof (induction n arbitrary: w)
  case 0
  show ?case
    unfolding wait_loop.simps [of P tab 0]
    by (intro keeps_bind keeps_if get_chan_frame poll_frame ipc_dev_ops_frame keeps_return
        trusty_ipc_dev_idle_frame) simp
next
  case (Suc n)
  show ?case
    unfolding wait_loop.simps [of P tab "Suc n"] nat.case
    by (intro keeps_bind keeps_if get_chan_frame poll_frame ipc_dev_ops_frame keeps_return
        trusty_ipc_dev_idle_frame Suc.IH)
qed

lemma wait_for_complete_frame: "keeps R w (wait_for_complete P tab c w)"
  unfolding wait_for_complete_def by (intro keeps_bind frame_complete wait_loop_frame)

lemma close_frame: "keeps R w (trusty_ipc_close P c w)"
  unfolding trusty_ipc_close_def
  by (intro keeps_bind get_chan_frame ipc_dev_ops_frame frame_handle keeps_return)

lemma connect_frame: "keeps R w (trusty_ipc_connect P tab c port wait w)"
  unfolding trusty_ipc_connect_def wait_for_connect_def
  by (intro keeps_bind keeps_if get_chan_frame ipc_dev_ops_frame frame_handle keeps_return
      wait_for_complete_frame close_frame)

lemma send_again_loop_frame: "keeps R w (send_again_loop P tab n c iovs wait w)"
proof (induction n arbitrary: w)
  case 0
  show ?case
    unfolding send_again_loop.simps [of P tab 0] wait_for_send_def
    by (intro keeps_bind keeps_if get_chan_frame ipc_dev_ops_frame keeps_return
        wait_for_complete_frame) simp
next
  case (Suc n)
  show ?case
    unfolding send_again_loop.simps [of P tab "Suc n"] wait_for_send_def nat.case
    by (intro keeps_bind keeps_if get_chan_frame ipc_dev_ops_frame keeps_return
        wait_for_complete_frame Suc.IH)
qed

lemma send_frame: "keeps R w (trusty_ipc_send P tab c iovs wait w)"
  unfolding trusty_ipc_send_def by (rule send_again_loop_frame)

lemma recv_frame: "keeps R w (trusty_ipc_recv P tab c iovs wait w)"
  unfolding trusty_ipc_recv_def wait_for_reply_def
  by (intro keeps_bind keeps_if get_chan_frame ipc_dev_ops_frame keeps_return wait_for_complete_frame)

end

section \<open>The channel invariant\<close>

definition chans_ok :: "('e, 'z) world_scheme \<Rightarrow> bool" where
  "chans_ok w \<longleftrightarrow> (\<forall>c ch. chans w c = Some ch \<longrightarrow> idev_ok (ch_dev ch) w)"

text \<open>The same channels on the same devices, and buffers of the same sizes.\<close>

definition chan_keeps :: "('e, 'z) world_scheme \<Rightarrow> ('e, 'z) world_scheme \<Rightarrow> bool" where
  "chan_keeps w w' \<longleftrightarrow> same_shape (shm w) (shm w') \<and>
     (\<forall>c. map_option ch_dev (chans w' c) = map_option ch_dev (chans w c))"

lemma chan_keeps_refl [simp]: "chan_keeps w w"
  by (simp add: chan_keeps_def)

lemma transp_chan_keeps: "transp chan_keeps"
  by (rule transpI) (auto simp: chan_keeps_def intro: same_shape_trans)

lemma shapely_chan_keeps: "shapely w w' \<Longrightarrow> chan_keeps w w'"
  using stays_more [of w w'] by (simp add: shapely_def chan_keeps_def)

lemma upd_chan_keeps:
  "(\<And>ch. ch_dev (f ch) = ch_dev ch) \<Longrightarrow> keeps chan_keeps w (upd_chan c f w)"
  by (auto simp: upd_chan_def chan_keeps_def split: option.splits)

lemma upd_chan_balanced: "keeps balanced w (upd_chan c f w)"
  by (auto simp: upd_chan_def balanced_def split: option.splits)

lemma chans_ok_keeps:
  assumes "chans_ok w" "chan_keeps w w'"
  shows "chans_ok w'"
  unfolding chans_ok_def
proof (intro allI impI)
  fix c ch assume "chans w' c = Some ch"
  with assms(2) obtain ch0 where "chans w c = Some ch0" "ch_dev ch0 = ch_dev ch"
    by (metis chan_keeps_def map_option_eq_Some)
  with assms(1) have "idev_ok (ch_dev ch) w" unfolding chans_ok_def by metis
  moreover from assms(2) have "same_shape (shm w) (shm w')" by (simp add: chan_keeps_def)
  ultimately show "idev_ok (ch_dev ch) w'"
    by (auto simp: idev_ok_def dev_ready_def elim: same_shape_Some)
qed

lemmas sync_handler_defs = sync_ipc_ops_def sync_ipc_on_connect_complete_def sync_ipc_on_message_def
  sync_ipc_on_disconnect_def

lemma imp_frame: "keeps chan_keeps w m \<Longrightarrow> keeps (\<lambda>w w'. b \<longrightarrow> chan_keeps w w') w m"
  by (simp add: keeps_imp)

lemma transp_imp_chan_keeps: "transp (\<lambda>w w'. b \<longrightarrow> chan_keeps w w')"
  using transp_chan_keeps by (auto simp: transp_def)

lemma sync_handlers_keep:
  "keeps chan_keeps w (sync_ipc_on_connect_complete c w)" "keeps chan_keeps w (sync_ipc_on_message c w)"
  "keeps chan_keeps w (sync_ipc_on_disconnect c w)"
  unfolding sync_ipc_on_connect_complete_def sync_ipc_on_message_def sync_ipc_on_disconnect_def
  by (auto intro!: keeps_obind [OF transp_chan_keeps] upd_chan_keeps)

lemma sync_handlers_balanced:
  "keeps balanced w (sync_ipc_on_connect_complete c w)" "keeps balanced w (sync_ipc_on_message c w)"
  "keeps balanced w (sync_ipc_on_disconnect c w)"
  unfolding sync_ipc_on_connect_complete_def sync_ipc_on_message_def sync_ipc_on_disconnect_def
  by (auto intro!: keeps_obind [OF transp_balanced] upd_chan_balanced)

interpretation sync_keeps:
  handler_frame P "\<lambda>w w'. keeps_buffers P \<longrightarrow> chan_keeps w w'" "\<lambda>_. sync_ipc_ops" for P
proof unfold_locales
  fix w :: "('a, 'b) world_scheme" and c args va off bs
  show "keeps (\<lambda>w w'. keeps_buffers P \<longrightarrow> chan_keeps w w') w (smc8 P args w)"
    using shapely_frame.frame_smc8 [of P w args] by (rule keeps_mono) (auto intro: shapely_chan_keeps)
  show "keeps (\<lambda>w w'. keeps_buffers P \<longrightarrow> chan_keeps w w') w (shm_write va off bs w)"
    using shm_write_keeps by (rule keeps_mono) (auto intro: shapely_chan_keeps)
  show "keeps (\<lambda>w w'. keeps_buffers P \<longrightarrow> chan_keeps w w') w (sys_call P c w)"
    using sys_call_keeps by (rule keeps_mono) (auto intro: shapely_chan_keeps)
qed (auto simp: sync_ipc_ops_def transp_imp_chan_keeps intro!: imp_frame upd_chan_keeps sync_handlers_keep)

interpretation sync_balanced: handler_frame P balanced "\<lambda>_. sync_ipc_ops" for P
  by unfold_locales (auto simp: sync_ipc_ops_def intro: upd_chan_balanced sync_handlers_balanced)

section \<open>Properties\<close>

text \<open>What an event does to a channel with the synchronous handlers: the result and the channel.\<close>

definition sync_event :: "u32 \<Rightarrow> trusty_ipc_chan \<Rightarrow> int \<times> trusty_ipc_chan" where
  "sync_event e ch =
     (if e AND IPC_HANDLE_POLL_ERROR \<noteq> 0 then (TRUSTY_ERR_GENERIC, ch)
      else if e AND (IPC_HANDLE_POLL_READY OR IPC_HANDLE_POLL_MSG) \<noteq> 0
        then (TRUSTY_EVENT_HANDLED, ch\<lparr>ch_complete := 1\<rparr>)
      else if e AND IPC_HANDLE_POLL_HUP \<noteq> 0
        then (TRUSTY_EVENT_HANDLED, ch\<lparr>ch_complete := TRUSTY_ERR_CHANNEL_CLOSED\<rparr>)
      else (TRUSTY_ERR_NONE, ch))"

lemma and_or_nonzero: "e AND (x OR y) \<noteq> 0 \<longleftrightarrow> e AND x \<noteq> 0 \<or> e AND y \<noteq> 0" for e :: u32
  by (auto simp: bit.conj_disj_distrib or_eq_0_iff)

text \<open>
  Event dispatch. \<open>trusty_ipc_poll_for_event\<close> reports \<open>TRUSTY_EVENT_NONE\<close> without an event;
  an event is delivered to the channel its cookie points to and to no other, and for a channel with
  the synchronous handlers an error bit wins over everything, readiness or a message completes the
  channel with 1 and wins over a hangup, which completes it with \<open>TRUSTY_ERR_CHANNEL_CLOSED\<close>; a mere
  send-unblocked event changes nothing.
\<close>

theorem trusty_ipc_poll_for_event_sync:
  assumes "trusty_ipc_dev_get_event P dev 0 w = Ret (0, Some evt) w1"
    and "ev_event evt \<noteq> 0 \<Longrightarrow> chans w (ev_cookie evt) = Some ch \<and> ch_ops ch = Sync_ipc_ops"
    and "tab Sync_ipc_ops = sync_ipc_ops"
  shows "trusty_ipc_poll_for_event P tab dev w =
    (if ev_event evt = 0 then Ret TRUSTY_EVENT_NONE w1
     else Ret (fst (sync_event (ev_event evt) ch))
       (w1\<lparr>chans := (chans w)(ev_cookie evt \<mapsto> snd (sync_event (ev_event evt) ch))\<rparr>))"
proof (cases "ev_event evt = 0")
  case True
  with assms(1) show ?thesis by (simp add: trusty_ipc_poll_for_event_def)
next
  case False
  with assms(2) have ch: "chans w (ev_cookie evt) = Some ch" "ch_ops ch = Sync_ipc_ops" by auto
  have w1: "chans w1 = chans w" using assms(1) by (rule dev_chans(4))
  with ch have same: "w1\<lparr>chans := (chans w)(ev_cookie evt \<mapsto> ch)\<rparr> = w1"
    by (metis fun_upd_triv world.surjective world.update_convs(1) machine.surjective)
  from False assms(1,3) ch w1 show ?thesis
    by (simp add: trusty_ipc_poll_for_event_def run_handler_def get_chan_def Let_def
        sync_handler_defs upd_chan_def sync_event_def and_or_nonzero trusty_err_defs same)
qed

definition demo_chan :: trusty_ipc_chan where
  "demo_chan = \<lparr>ch_ops_ctx = 0x5000, ch_handle = 0, ch_complete = 0, ch_dev = demo_idev,
     ch_ops = Sync_ipc_ops\<rparr>"

definition demo_world :: "(smc_ret8 \<times> (u64 \<times> bytes) option) list \<Rightarrow> script world" where
  "demo_world replies = \<lparr>env = (replies, 0x8000), calls = [],
     shm = [0x1000 \<mapsto> replicate 4096 0, 0x3000 \<mapsto> replicate 4096 0], chans = [0x5000 \<mapsto> demo_chan]\<rparr>"

definition demo_event :: "u32 \<Rightarrow> bytes" where
  "demo_event e = demo_hdr 0x8002 0 0 16 @ le32 e @ le32 7 @ le64 0x5000"

lemma demo_world_ok: "chans_ok (demo_world replies)" "idev_ok demo_idev (demo_world replies)"
  by (simp_all add: chans_ok_def demo_world_def demo_chan_def idev_ok_def dev_ready_def demo_idev_def
      demo_dev_def PAGE_SIZE_def)

lemma demo_get_event:
  "\<exists>w1. trusty_ipc_dev_get_event script_platform demo_idev 0
      (demo_world ((reply 0 0, Some (0x3000, demo_event e)) # rest)) =
    Ret (0, Some \<lparr>ev_event = e, ev_handle = 7, ev_cookie = 0x5000\<rparr>) w1"
proof -
  let ?w = "demo_world ((reply 0 0, Some (0x3000, demo_event e)) # rest)"
  have "env ?w = ((reply 0 0, Some (0x3000, demo_event e)) # rest, 0x8000)"
    "shm ?w 0x3000 = Some (replicate 4096 0)" "length (replicate 4096 0) = 4096"
    "length (cmd_payload (Get_event 0)) \<le> 4080" "length (demo_event e) \<le> 4096"
    by (simp_all add: demo_world_def demo_event_def demo_hdr_def)
  from script_transmit [OF this] obtain w1 buf where
    t: "transmit script_platform demo_idev (Get_event 0) ?w = Ret 0 w1" and len: "length buf = 4096"
    and b: "shm w1 0x3000 = Some (put_bytes 0 (demo_event e) buf)" by auto
  obtain w' where w1: "w1 = set_buf 0x3000 (put_bytes 0 (demo_event e) buf) w'"
    using set_buf_self [OF b] by metis
  have p: "get_bytes 16 16 (put_bytes 0 (demo_event e) buf) = le32 e @ le32 7 @ le64 0x5000"
    unfolding demo_event_def demo_hdr_def by (simp add: get_bytes_def put_bytes_def)
  have h: "cmd_hdr_of_bytes (put_bytes 0 (demo_event e) buf) =
      \<lparr>hdr_opcode = 0x8002, hdr_flags = 0, hdr_status = 0, hdr_handle = 0, hdr_payload_len = 16\<rparr>"
    unfolding demo_event_def demo_hdr_def by simp
  have len': "length (put_bytes 0 (demo_event e) buf) = 4096"
    using len by (simp add: demo_event_def demo_hdr_def)
  have va: "id_buf_vaddr demo_idev = 0x3000" by (simp add: demo_idev_def)
  show ?thesis
    using t w1 h p len'
    by (simp add: trusty_ipc_dev_get_event_transmits [OF demo_world_ok(2)] va response_simps
        region_simps response_ok_def QL_TIPC_DEV_GET_EVENT_def QL_TIPC_DEV_RESP_def trusty_err_defs
        event_of_bytes_def)
qed

lemma trusty_ipc_poll_for_event_sync_witness:
  "\<exists>w'. trusty_ipc_poll_for_event script_platform (\<lambda>_. sync_ipc_ops) demo_idev
      (demo_world [(reply 0 0, Some (0x3000, demo_event 0x4))]) = Ret TRUSTY_EVENT_HANDLED w' \<and>
    map_option ch_complete (chans w' 0x5000) = Some TRUSTY_ERR_CHANNEL_CLOSED"
proof -
  let ?w = "demo_world [(reply 0 0, Some (0x3000, demo_event 0x4))]"
  let ?e = "\<lparr>ev_event = 4, ev_handle = 7, ev_cookie = 0x5000\<rparr> :: trusty_ipc_event"
  obtain w1 where g: "trusty_ipc_dev_get_event script_platform demo_idev 0 ?w = Ret (0, Some ?e) w1"
    using demo_get_event [of 4 "[]"] by auto
  have "chans ?w (ev_cookie ?e) = Some demo_chan \<and> ch_ops demo_chan = Sync_ipc_ops"
    by (simp add: demo_world_def demo_chan_def)
  from trusty_ipc_poll_for_event_sync [OF g this refl] show ?thesis
    by (simp add: sync_event_def IPC_HANDLE_POLL_ERROR_def IPC_HANDLE_POLL_READY_def
        IPC_HANDLE_POLL_MSG_def IPC_HANDLE_POLL_HUP_def)
qed

lemma wait_loop_result:
  assumes "wait_loop P tab n c w = Ret r w'"
  shows "r \<noteq> 0 \<and> (0 \<le> r \<longrightarrow> (\<exists>ch. chans w' c = Some ch \<and> ch_complete ch = r))"
  using assms
proof (induction n arbitrary: w)
  case 0
  then show ?case
    by (auto simp: wait_loop.simps [of P tab 0] outcome_simps split: if_splits)
next
  case (Suc n)
  then show ?case
    by (auto simp: wait_loop.simps [of P tab "Suc n"] outcome_simps split: if_splits)
qed

text \<open>
  A wait ends with an error or with the channel's completion. When \<open>wait_for_complete\<close> returns,
  the value is never 0; a non-negative value is the completion that some handler stored in the
  channel during the wait.
\<close>

theorem wait_for_complete_result:
  assumes "wait_for_complete P tab c w = Ret r w'"
  shows "r \<noteq> 0 \<and> (0 \<le> r \<longrightarrow> (\<exists>ch. chans w' c = Some ch \<and> ch_complete ch = r))"
  using assms by (auto simp: wait_for_complete_def outcome_simps dest: wait_loop_result)

lemma wait_for_complete_result_witness:
  "\<exists>w'. wait_for_complete script_platform (\<lambda>_. sync_ipc_ops) 0x5000
      (demo_world [(reply 0 0, Some (0x3000, demo_event 0x8))]) = Ret 1 w' \<and>
    map_option ch_complete (chans w' 0x5000) = Some 1"
proof -
  let ?w = "demo_world [(reply 0 0, Some (0x3000, demo_event 0x8))]"
  let ?e = "\<lparr>ev_event = 8, ev_handle = 7, ev_cookie = 0x5000\<rparr> :: trusty_ipc_event"
  obtain w1 where g: "trusty_ipc_dev_get_event script_platform demo_idev 0 ?w = Ret (0, Some ?e) w1"
    using demo_get_event [of 8 "[]"] by auto
  have c: "chans ?w 0x5000 = Some demo_chan" by (simp add: demo_world_def)
  have w0: "?w\<lparr>chans := (chans ?w)(0x5000 \<mapsto> demo_chan\<lparr>ch_complete := 0\<rparr>)\<rparr> = ?w"
    by (simp add: demo_world_def demo_chan_def)
  have "chans w1 = chans ?w" using g by (rule dev_chans(4))
  then have "\<exists>w'. wait_for_complete script_platform (\<lambda>_. sync_ipc_ops) 0x5000 ?w = Ret 1 w'"
    using g c w0
    by (simp add: wait_for_complete_def upd_chan_def wait_loop.simps get_chan_def
        trusty_ipc_poll_for_event_def run_handler_def Let_def sync_handler_defs demo_chan_def
        IPC_HANDLE_POLL_ERROR_def IPC_HANDLE_POLL_SEND_UNBLOCKED_def IPC_HANDLE_POLL_READY_def
        IPC_HANDLE_POLL_MSG_def trusty_err_defs)
  then obtain w' where "wait_for_complete script_platform (\<lambda>_. sync_ipc_ops) 0x5000 ?w = Ret 1 w'"
    by blast
  with wait_for_complete_result [OF this] show ?thesis by auto
qed

lemma trusty_ipc_close_Ret:
  assumes "trusty_ipc_close P c w = Ret r w'"
  shows "\<exists>ch. chans w' c = Some ch \<and> ch_handle ch = INVALID_IPC_HANDLE"
  using assms by (auto simp: trusty_ipc_close_def outcome_simps upd_chan_Ret)



lemma send_again_loop_eq:
  "send_again_loop P tab n c iovs wait w =
     (case chans w c of None \<Rightarrow> Fault
      | Some ch \<Rightarrow> trusty_ipc_dev_send P (ch_dev ch) (ch_handle ch) iovs w)"
proof (cases "chans w c")
  case None
  then show ?thesis by (simp add: send_again_loop.simps [of P tab n] get_chan_def)
next
  case (Some ch)
  let ?m = "trusty_ipc_dev_send P (ch_dev ch) (ch_handle ch) iovs w"
  have "obind ?m (\<lambda>rc w. if rc = TRUSTY_ERR_SEND_BLOCKED \<and> wait then
       obind (wait_for_send P tab c w) (\<lambda>rc w.
         if rc < 0 then Ret rc w
         else (case n of 0 \<Rightarrow> NoFuel | Suc n' \<Rightarrow> send_again_loop P tab n' c iovs wait w))
     else Ret rc w) = obind ?m Ret"
    by (rule obind_cong [OF refl]) (auto dest!: trusty_ipc_dev_send_result simp: trusty_err_defs)
  with Some show ?thesis by (simp add: send_again_loop.simps [of P tab n] get_chan_def)
qed

lemma trusty_ipc_recv_nowait:
  "trusty_ipc_recv P tab c iovs False w =
     (case chans w c of None \<Rightarrow> Fault
      | Some ch \<Rightarrow> trusty_ipc_dev_recv P (ch_dev ch) (ch_handle ch) iovs w)"
  by (simp add: trusty_ipc_recv_def get_chan_def split: option.splits)

text \<open>
  Sending never blocks. The loop of \<open>trusty_ipc_send\<close> that waits for a blocked send is never
  entered, because the device below never reports \<open>TRUSTY_ERR_SEND_BLOCKED\<close>: with or without
  waiting, for every handler table and whatever the number of iterations granted, it is one
  \<open>trusty_ipc_dev_send\<close> on the channel's device and handle, and so it returns whenever that does.
\<close>

theorem trusty_ipc_send_never_blocks:
  "trusty_ipc_send P tab c iovs wait w =
     (case chans w c of None \<Rightarrow> Fault
      | Some ch \<Rightarrow> trusty_ipc_dev_send P (ch_dev ch) (ch_handle ch) iovs w)"
  by (simp add: trusty_ipc_send_def send_again_loop_eq)

section \<open>The interface of a message transport\<close>

text \<open>
  What the clients of a channel rely on when they receive: the iovecs keep their lengths, the buffers
  behind them keep their sizes, and the result is at most the room there was. A client that receives
  a header and a body can take both apart again.
\<close>

locale transport =
  fixes recv :: "trusty_ipc_iovec list \<Rightarrow> 'w \<Rightarrow> (int \<times> trusty_ipc_iovec list, 'w) outcome"
  assumes recv_shape: "iov_total iovs < 2 ^ 31 \<Longrightarrow>
    on_ret (\<lambda>(r, js) _. same_iovs iovs js \<and> r \<le> int (iov_total iovs)) (recv iovs w)"
begin

lemma recv_one:
  assumes "recv [a] w = Ret (r, js) w'" "unat (iov_len a) < 2 ^ 31"
  shows "\<exists>a'. js = [a'] \<and> length (iov_base a') = length (iov_base a) \<and> r \<le> int (unat (iov_len a))"
  using recv_shape [of "[a]" w] assms by (auto simp: same_iovs_Cons same_iovs_Nil)

lemma recv_two:
  assumes "recv [a, b] w = Ret (r, js) w'" "unat (iov_len a) + unat (iov_len b) < 2 ^ 31"
  shows "\<exists>a' b'. js = [a', b'] \<and> length (iov_base a') = length (iov_base a) \<and>
    length (iov_base b') = length (iov_base b) \<and> r \<le> int (unat (iov_len a) + unat (iov_len b))"
  using recv_shape [of "[a, b]" w] assms by (auto simp: same_iovs_Cons same_iovs_Nil)

end

lemma trusty_ipc_recv_bound:
  assumes "iov_total iovs < 2 ^ 31"
  shows "on_ret (\<lambda>(r, js) _. same_iovs iovs js \<and> r \<le> int (iov_total iovs)) (trusty_ipc_recv P tab c iovs wait w)"
  unfolding trusty_ipc_recv_def
proof (intro on_ret_bindI on_ret_if, goal_cases)
  case 1
  then show ?case by simp
next
  case 2
  show ?case by (rule trusty_ipc_dev_recv_bound [OF assms])
qed

interpretation ipc_transport: transport "\<lambda>iovs. trusty_ipc_recv P tab c iovs wait" for P tab c wait
  by unfold_locales (rule trusty_ipc_recv_bound)

lemma trusty_ipc_send_result:
  "trusty_ipc_send P tab c iovs wait w = Ret r w' \<Longrightarrow> r \<le> 0"
  by (auto simp: trusty_ipc_send_def send_again_loop_eq trusty_err_defs split: option.splits
      dest!: trusty_ipc_dev_send_result)

text \<open>A message that was sent without an error has been transmitted as one \<open>Send\<close> command.\<close>

definition transmitted ::
  "'e platform \<Rightarrow> u64 \<Rightarrow> bytes \<Rightarrow> ('e, 'z) world_scheme \<Rightarrow> ('e, 'z) world_scheme \<Rightarrow> bool"
where
  "transmitted P c msg w w' \<longleftrightarrow>
     (\<exists>ch rc. chans w c = Some ch \<and> 0 \<le> rc \<and>
        transmit P (ch_dev ch) (Send (ch_handle ch) msg) w = Ret rc w')"

lemma check_response_state: "check_response va op w = Ret r w' \<Longrightarrow> w' = w"
  by (auto simp: check_response_def shm_read_u16_def shm_read_u32_def shm_read_def outcome_simps
      split: option.splits if_splits)

lemma trusty_ipc_send_transmitted:
  assumes "trusty_ipc_send P tab c iovs wait w = Ret r w'" "0 \<le> r"
    and "chans_ok w" "list_all iov_ok iovs" "iov_total iovs < 2 ^ 64"
  shows "r = 0 \<and> transmitted P c (gather iovs) w w'"
proof -
  from assms(1) obtain ch where ch: "chans w c = Some ch"
    and s: "trusty_ipc_dev_send P (ch_dev ch) (ch_handle ch) iovs w = Ret r w'"
    by (auto simp: trusty_ipc_send_def send_again_loop_eq split: option.splits)
  from ch assms(3) have "idev_ok (ch_dev ch) w" by (simp add: chans_ok_def)
  from trusty_ipc_dev_send_result [OF s] assms(2) have "r = 0" by (auto simp: trusty_err_defs)
  with s ch assms(2) show ?thesis
    unfolding trusty_ipc_dev_send_transmits [OF \<open>idev_ok (ch_dev ch) w\<close> assms(4,5)] transmitted_def
    by (auto simp: outcome_simps trusty_err_defs dest!: check_response_state split: if_splits)
qed

section \<open>A scripted exchange\<close>

text \<open>
  On the scripted platform: the answers of the secure side to a send, to the poll for the reply and
  to the receive, for a message \<open>msg\<close> as the reply on the channel at \<open>c\<close>.
\<close>

definition script_exchange :: "u64 \<Rightarrow> bytes \<Rightarrow> (smc_ret8 \<times> (u64 \<times> bytes) option) list" where
  "script_exchange c msg =
     [(reply 0 0, Some (0x3000, demo_hdr 0x8003 0 0 0)),
      (reply 0 0, Some (0x3000, demo_hdr 0x8002 0 0 16 @ le32 8 @ le32 0 @ le64 c)),
      (reply 0 0, Some (0x3000, demo_hdr 0x8004 0 0 (of_nat (length msg)) @ msg))]"

definition script_chan :: "ops_ptr \<Rightarrow> u64 \<Rightarrow> script \<Rightarrow> (script, 'z) world_scheme \<Rightarrow> bool" where
  "script_chan ops c s w \<longleftrightarrow>
     (\<exists>buf. shm w 0x3000 = Some buf \<and> length buf = 4096) \<and>
     (\<exists>buf. shm w 0x1000 = Some buf \<and> length buf = 4096) \<and>
     (\<exists>ch. chans w c = Some ch \<and> ch_dev ch = demo_idev \<and> ch_ops ch = ops) \<and> env w = s"

abbreviation script_world :: "u64 \<Rightarrow> script \<Rightarrow> (script, 'z) world_scheme \<Rightarrow> bool" where
  "script_world \<equiv> script_chan Sync_ipc_ops"

lemma script_world_idev: "script_chan ops c s w \<Longrightarrow> idev_ok demo_idev w"
  by (auto simp: script_chan_def idev_ok_def dev_ready_def demo_idev_def demo_dev_def PAGE_SIZE_def)

lemma script_step:
  assumes "script_chan ops c ((reply 0 0, Some (0x3000, bs)) # rest, a) w"
    and "length (cmd_payload cmd) \<le> 4080" "length bs \<le> 4096"
  shows "\<exists>w1. transmit script_platform demo_idev cmd w = Ret 0 w1 \<and> script_chan ops c (rest, a) w1 \<and>
    machine.more w1 = machine.more w \<and> (\<exists>buf. length buf = 4096 \<and> answer demo_idev w1 = put_bytes 0 bs buf)"
proof -
  from assms(1) obtain b0 where
    e: "env w = ((reply 0 0, Some (0x3000, bs)) # rest, a)" "shm w 0x3000 = Some b0" "length b0 = 4096"
    by (auto simp: script_chan_def)
  from script_transmit [OF e assms(2,3)] obtain w1 buf where
    t: "transmit script_platform demo_idev cmd w = Ret 0 w1" "env w1 = (rest, a)" "length buf = 4096"
      "shm w1 = (shm w)(0x3000 \<mapsto> put_bytes 0 bs buf)" "machine.more w1 = machine.more w" by blast
  then have "stays w w1"
    using keeps_Ret [OF stays_frame.transmit_frame t(1)] by simp
  then have "chans w1 = chans w" by (simp add: stays_more)
  with t assms show ?thesis
    by (auto simp: script_chan_def answer_def demo_idev_def)
qed

lemma script_answer:
  assumes "script_chan ops c s w" "length buf = 4096" "length bs \<le> 4096" "answer demo_idev w = put_bytes 0 bs buf"
  obtains w' where "w = set_buf 0x3000 (put_bytes 0 bs buf) w'"
proof -
  from assms have "shm w 0x3000 = Some (put_bytes 0 bs buf)"
    by (auto simp: script_chan_def answer_def demo_idev_def)
  from set_buf_self [OF this] that show thesis by metis
qed

lemma script_send:
  assumes "script_chan ops c ((reply 0 0, Some (0x3000, demo_hdr 0x8003 0 0 0)) # rest, a) w"
    and "list_all iov_ok iovs" "iov_total iovs \<le> 4080"
  shows "\<exists>w1. trusty_ipc_send script_platform tab c iovs wait w = Ret 0 w1 \<and> script_chan ops c (rest, a) w1 \<and>
    machine.more w1 = machine.more w"
proof -
  let ?bs = "demo_hdr 0x8003 0 0 0"
  from assms(1) obtain ch where ch: "chans w c = Some ch" "ch_dev ch = demo_idev"
    by (auto simp: script_chan_def)
  have bs: "length ?bs \<le> 4096" by (simp add: demo_hdr_def)
  from length_gather [OF assms(2)] assms(3)
  have len: "length (cmd_payload (Send (ch_handle ch) (gather iovs))) \<le> 4080" by simp
  obtain w1 buf where w1: "transmit script_platform demo_idev (Send (ch_handle ch) (gather iovs)) w = Ret 0 w1"
    "script_chan ops c (rest, a) w1" "machine.more w1 = machine.more w"
    "length buf = 4096" "answer demo_idev w1 = put_bytes 0 ?bs buf"
    using script_step [OF assms(1) len bs] by blast
  from script_answer [OF w1(2,4) bs w1(5)] obtain w' where w': "w1 = set_buf 0x3000 (put_bytes 0 ?bs buf) w'" .
  have "cmd_hdr_of_bytes (put_bytes 0 ?bs buf) =
      \<lparr>hdr_opcode = 0x8003, hdr_flags = 0, hdr_status = 0, hdr_handle = 0, hdr_payload_len = 0\<rparr>"
    using cmd_hdr_of_put [of _ "[]"] by (simp add: demo_hdr_def)
  with w' w1 bs have "check_response 0x3000 QL_TIPC_DEV_SEND w1 = Ret 0 w1"
    by (simp add: check_response_eq response_ok_def QL_TIPC_DEV_SEND_def QL_TIPC_DEV_RESP_def trusty_err_defs)
  with w1 ch assms(3) show ?thesis
    using trusty_ipc_dev_send_transmits [OF script_world_idev [OF assms(1)] assms(2),
        of script_platform "ch_handle ch"]
    by (simp add: trusty_ipc_send_def send_again_loop_eq demo_idev_def)
qed

lemma demo_idev_vaddr: "id_buf_vaddr demo_idev = 0x3000"
  by (simp add: demo_idev_def)

lemma script_get_event:
  assumes "script_chan ops c ((reply 0 0, Some (0x3000, demo_hdr 0x8002 0 0 16 @ le32 e @ le32 0 @ le64 k)) # rest, a) w"
  shows "\<exists>w1. trusty_ipc_dev_get_event script_platform demo_idev 0 w =
      Ret (0, Some \<lparr>ev_event = e, ev_handle = 0, ev_cookie = k\<rparr>) w1 \<and> script_chan ops c (rest, a) w1 \<and>
    machine.more w1 = machine.more w"
proof -
  let ?bs = "demo_hdr 0x8002 0 0 16 @ le32 e @ le32 0 @ le64 k"
  have bs: "length ?bs \<le> 4096" "length (cmd_payload (Get_event 0)) \<le> 4080" by (simp_all add: demo_hdr_def)
  from script_step [OF assms bs(2,1)] obtain w1 buf where
    w1: "transmit script_platform demo_idev (Get_event 0) w = Ret 0 w1" "script_chan ops c (rest, a) w1"
    "machine.more w1 = machine.more w" "length buf = 4096" "answer demo_idev w1 = put_bytes 0 ?bs buf" by blast
  from script_answer [OF w1(2,4) bs(1) w1(5)] obtain w' where w': "w1 = set_buf 0x3000 (put_bytes 0 ?bs buf) w'" .
  have "cmd_hdr_of_bytes (put_bytes 0 ?bs buf) =
      \<lparr>hdr_opcode = 0x8002, hdr_flags = 0, hdr_status = 0, hdr_handle = 0, hdr_payload_len = 16\<rparr>"
    unfolding demo_hdr_def by simp
  moreover have "get_bytes 16 16 (put_bytes 0 ?bs buf) = le32 e @ le32 0 @ le64 k"
    unfolding demo_hdr_def by (simp add: get_bytes_def put_bytes_def del: le_bytes_zero)
  moreover have "length (put_bytes 0 ?bs buf) = 4096" using bs w1(4) by simp
  moreover have "event_of_bytes (le32 e @ le32 0 @ le64 k) = \<lparr>ev_event = e, ev_handle = 0, ev_cookie = k\<rparr>"
    by (simp add: event_of_bytes_def get_bytes_def del: le_bytes_zero)
  ultimately have "trusty_ipc_dev_get_event script_platform demo_idev 0 w =
      Ret (0, Some \<lparr>ev_event = e, ev_handle = 0, ev_cookie = k\<rparr>) w1"
    using w1(1) w'
    by (simp add: trusty_ipc_dev_get_event_transmits [OF script_world_idev [OF assms]] demo_idev_vaddr
        response_simps region_simps response_ok_def QL_TIPC_DEV_GET_EVENT_def QL_TIPC_DEV_RESP_def
        trusty_err_defs del: le_bytes_zero)
  with w1 show ?thesis by blast
qed

lemma script_wait:
  assumes "script_world c ((reply 0 0, Some (0x3000, demo_hdr 0x8002 0 0 16 @ le32 e @ le32 0 @ le64 c)) # rest, a) w"
    and "e = IPC_HANDLE_POLL_MSG \<or> e = IPC_HANDLE_POLL_READY" "tab Sync_ipc_ops = sync_ipc_ops"
  shows "\<exists>w1. wait_for_complete script_platform tab c w = Ret 1 w1 \<and> script_world c (rest, a) w1 \<and>
    world.more w1 = world.more w \<and> map_option ch_handle (chans w1 c) = map_option ch_handle (chans w c)"
proof -
  from assms(1) obtain ch where ch: "chans w c = Some ch" "ch_dev ch = demo_idev" "ch_ops ch = Sync_ipc_ops"
    by (auto simp: script_chan_def)
  let ?w = "w\<lparr>chans := (chans w)(c \<mapsto> ch\<lparr>ch_complete := 0\<rparr>)\<rparr>"
  from assms(1) ch have
    "script_world c ((reply 0 0, Some (0x3000, demo_hdr 0x8002 0 0 16 @ le32 e @ le32 0 @ le64 c)) # rest, a) ?w"
    by (simp add: script_chan_def)
  from script_get_event [OF this] obtain w1 where
    g: "trusty_ipc_dev_get_event script_platform demo_idev 0 ?w =
      Ret (0, Some \<lparr>ev_event = e, ev_handle = 0, ev_cookie = c\<rparr>) w1" "script_world c (rest, a) w1"
      "machine.more w1 = machine.more ?w" by blast
  then have c1: "chans w1 = (chans w)(c \<mapsto> ch\<lparr>ch_complete := 0\<rparr>)" "world.more w1 = world.more w"
    using dev_chans(4) [OF g(1)] by (simp_all add: keeps_stays_Ret(2) [OF stays_frame.ipc_dev_ops_frame(4) g(1)])
  let ?w' = "w1\<lparr>chans := (chans w)(c \<mapsto> ch\<lparr>ch_complete := 1\<rparr>)\<rparr>"
  have "wait_for_complete script_platform tab c w = Ret 1 ?w'"
    using g(1) ch c1 assms(2,3)
    by (auto simp: wait_for_complete_def upd_chan_def wait_loop.simps get_chan_def
        trusty_ipc_poll_for_event_def run_handler_def Let_def sync_handler_defs
        IPC_HANDLE_POLL_ERROR_def IPC_HANDLE_POLL_SEND_UNBLOCKED_def IPC_HANDLE_POLL_READY_def
        IPC_HANDLE_POLL_MSG_def trusty_err_defs)
  moreover from g(2) ch c1 have "script_world c (rest, a) ?w'" by (auto simp: script_chan_def)
  ultimately show ?thesis using c1 ch(1) by auto
qed

lemma script_recv:
  assumes "script_world c ((reply 0 0, Some (0x3000, demo_hdr 0x8004 0 0 (of_nat (length msg)) @ msg)) # rest, a) w"
    and "list_all iov_ok iovs" "length msg \<le> iov_total iovs" "length msg \<le> 4080"
  shows "\<exists>w1. trusty_ipc_recv script_platform tab c iovs False w = Ret (int (length msg), scatter iovs msg) w1 \<and>
    script_world c (rest, a) w1 \<and> machine.more w1 = machine.more w"
proof -
  let ?bs = "demo_hdr 0x8004 0 0 (of_nat (length msg)) @ msg"
  from assms(1) obtain ch where ch: "chans w c = Some ch" "ch_dev ch = demo_idev"
    by (auto simp: script_chan_def)
  from assms have bs: "length ?bs \<le> 4096" "length (cmd_payload (Recv (ch_handle ch))) \<le> 4080"
    by (simp_all add: demo_hdr_def)
  from script_step [OF assms(1) bs(2,1)] obtain w1 buf where
    w1: "transmit script_platform demo_idev (Recv (ch_handle ch)) w = Ret 0 w1" "script_world c (rest, a) w1"
    "machine.more w1 = machine.more w" "length buf = 4096" "answer demo_idev w1 = put_bytes 0 ?bs buf" by blast
  let ?b = "put_bytes 0 ?bs buf"
  from script_answer [OF w1(2,4) bs(1) w1(5)] obtain w' where w': "w1 = set_buf 0x3000 ?b w'" .
  have h: "cmd_hdr_of_bytes ?b =
      \<lparr>hdr_opcode = 0x8004, hdr_flags = 0, hdr_status = 0, hdr_handle = 0, hdr_payload_len = of_nat (length msg)\<rparr>"
    unfolding demo_hdr_def by simp
  have n: "unat (of_nat (length msg) :: u32) = length msg" "length ?b = 4096"
    using assms(4) bs w1(4) by (simp_all add: unat_of_nat)
  then have n64: "unat (ucast (of_nat (length msg) :: u32) :: u64) = length msg"
    using assms(4) by (simp add: unsigned_ucast_eq take_bit_nat_eq_self_iff)
  have p: "get_bytes 16 (length msg) ?b = msg"
    unfolding demo_hdr_def by (simp add: get_bytes_def put_bytes_def)
  have m: "min (length msg) (iov_total iovs) = length msg" using assms(3) by simp
  have cp: "buf_to_iovec iovs 0x3000 16 (ucast (of_nat (length msg) :: u32)) (set_buf 0x3000 ?b w') =
      Ret (of_nat (length msg), scatter iovs msg) (set_buf 0x3000 ?b w')"
    using buf_to_iovec_eq [OF assms(2), of 16 "ucast (of_nat (length msg) :: u32)" ?b "0x3000" w'] n n64 p m assms(4)
    by simp
  have c: "c_int (of_nat (length msg) :: u64) = int (length msg)"
    using c_int_of_nat [of "length msg"] assms(4) by simp
  have e: "of_nat (length msg) = (ucast (of_nat (length msg) :: u32) :: u64)"
    using arg_cong [OF n64, of "of_nat :: nat \<Rightarrow> u64"] by simp
  show ?thesis
    using w1(1-3) ch h cp c w' n(2) e
    by (simp add: trusty_ipc_recv_nowait trusty_ipc_dev_recv_transmits [OF script_world_idev [OF assms(1)]]
        demo_idev_vaddr response_simps response_ok_def QL_TIPC_DEV_RECV_def QL_TIPC_DEV_RESP_def trusty_err_defs)
qed

lemma script_reply:
  assumes "script_world c (tl (script_exchange c msg) @ rest, a) w" "tab Sync_ipc_ops = sync_ipc_ops"
    and "list_all iov_ok iovs" "length msg \<le> iov_total iovs" "length msg \<le> 4080"
  shows "\<exists>w1. trusty_ipc_recv script_platform tab c iovs True w = Ret (int (length msg), scatter iovs msg) w1 \<and>
    script_world c (rest, a) w1 \<and> world.more w1 = world.more w"
proof -
  from assms(1) have
    "script_world c ((reply 0 0, Some (0x3000, demo_hdr 0x8002 0 0 16 @ le32 8 @ le32 0 @ le64 c)) #
      (reply 0 0, Some (0x3000, demo_hdr 0x8004 0 0 (of_nat (length msg)) @ msg)) # rest, a) w"
    by (simp add: script_exchange_def)
  from script_wait [where tab = tab, OF this _ assms(2)] obtain w1 where
    w1: "wait_for_complete script_platform tab c w = Ret 1 w1" "world.more w1 = world.more w"
      "script_world c ((reply 0 0, Some (0x3000, demo_hdr 0x8004 0 0 (of_nat (length msg)) @ msg)) # rest, a) w1"
    by (auto simp: IPC_HANDLE_POLL_MSG_def)
  from script_recv [OF w1(3) assms(3-5), of tab] obtain w2 where
    w2: "trusty_ipc_recv script_platform tab c iovs False w1 = Ret (int (length msg), scatter iovs msg) w2"
      "script_world c (rest, a) w2" "machine.more w2 = machine.more w1" by blast
  then have "world.more w2 = world.more w1"
    by (cases w1, cases w2) simp
  with w1 w2 show ?thesis
    by (simp add: trusty_ipc_recv_def wait_for_reply_def)
qed

text \<open>One whole exchange: the request goes out and the reply is scattered over the iovecs.\<close>

lemma script_session:
  assumes "script_world c (script_exchange c msg @ rest, a) w" "tab Sync_ipc_ops = sync_ipc_ops"
    and "list_all iov_ok out" "iov_total out \<le> 4080"
    and "list_all iov_ok iovs" "length msg \<le> iov_total iovs" "length msg \<le> 4080"
  shows "\<exists>w1 w2. trusty_ipc_send script_platform tab c out wait w = Ret 0 w1 \<and>
    trusty_ipc_recv script_platform tab c iovs True w1 = Ret (int (length msg), scatter iovs msg) w2 \<and>
    script_world c (rest, a) w2 \<and> world.more w2 = world.more w"
proof -
  from assms(1) have "script_world c ((reply 0 0, Some (0x3000, demo_hdr 0x8003 0 0 0)) #
      (tl (script_exchange c msg) @ rest), a) w" by (simp add: script_exchange_def)
  from script_send [OF this assms(3,4), of tab wait] obtain w1 where
    w1: "trusty_ipc_send script_platform tab c out wait w = Ret 0 w1" "machine.more w1 = machine.more w"
      "script_world c (tl (script_exchange c msg) @ rest, a) w1" by blast
  then have "world.more w1 = world.more w" by (cases w, cases w1) simp
  with script_reply [where tab = tab, OF w1(3) assms(2,5,6,7)] w1(1) show ?thesis by metis
qed

text \<open>
  A connection: the device answers the connect command with the handle \<open>h\<close> and then reports the
  channel as ready.
\<close>

definition script_connection :: "u64 \<Rightarrow> u32 \<Rightarrow> (smc_ret8 \<times> (u64 \<times> bytes) option) list" where
  "script_connection c h =
     [(reply 0 0, Some (0x3000, demo_hdr 0x8001 0 h 0)),
      (reply 0 0, Some (0x3000, demo_hdr 0x8002 0 0 16 @ le32 1 @ le32 0 @ le64 c))]"

lemma script_dev_connect:
  assumes "script_chan ops c ((reply 0 0, Some (0x3000, demo_hdr 0x8001 0 h 0)) # rest, a) w"
    and "length port \<le> 4063"
  shows "\<exists>w1. trusty_ipc_dev_connect script_platform demo_idev port k w = Ret (c_int h) w1 \<and>
    script_chan ops c (rest, a) w1 \<and> machine.more w1 = machine.more w"
proof -
  let ?bs = "demo_hdr 0x8001 0 h 0"
  have bs: "length ?bs \<le> 4096" "length (cmd_payload (Connect port k)) \<le> 4080" "33 + length port \<le> unat (id_buf_size demo_idev)"
    using assms(2) by (simp_all add: demo_hdr_def demo_idev_def)
  from script_step [OF assms(1) bs(2,1)] obtain w1 buf where
    w1: "transmit script_platform demo_idev (Connect port k) w = Ret 0 w1" "script_chan ops c (rest, a) w1"
    "machine.more w1 = machine.more w" "length buf = 4096" "answer demo_idev w1 = put_bytes 0 ?bs buf" by blast
  from script_answer [OF w1(2,4) bs(1) w1(5)] obtain w' where w': "w1 = set_buf 0x3000 (put_bytes 0 ?bs buf) w'" .
  have "cmd_hdr_of_bytes (put_bytes 0 ?bs buf) =
      \<lparr>hdr_opcode = 0x8001, hdr_flags = 0, hdr_status = 0, hdr_handle = h, hdr_payload_len = 0\<rparr>"
    using cmd_hdr_of_put [of _ "[]"] by (simp add: demo_hdr_def)
  moreover have "length (put_bytes 0 ?bs buf) = 4096" using bs w1(4) by simp
  ultimately have "trusty_ipc_dev_connect script_platform demo_idev port k w = Ret (c_int h) w1"
    using w1(1) w'
    by (simp add: trusty_ipc_dev_connect_transmits [OF script_world_idev [OF assms(1)] bs(3)] demo_idev_vaddr
        response_simps response_ok_def QL_TIPC_DEV_CONNECT_def QL_TIPC_DEV_RESP_def trusty_err_defs)
  with w1 show ?thesis by blast
qed

lemma script_connect:
  assumes "script_world c (script_connection c h @ rest, a) w" "tab Sync_ipc_ops = sync_ipc_ops"
    and "length port \<le> 4063" "0 \<le> c_int h"
  shows "\<exists>w1 ch. trusty_ipc_connect script_platform tab c port True w = Ret 1 w1 \<and>
    script_world c (rest, a) w1 \<and> world.more w1 = world.more w \<and> chans w1 c = Some ch \<and> ch_handle ch = h"
proof -
  let ?s = "(reply 0 0, Some (0x3000, demo_hdr 0x8002 0 0 16 @ le32 1 @ le32 0 @ le64 c)) # rest"
  from assms(1) obtain ch where ch: "chans w c = Some ch" "ch_dev ch = demo_idev" "ch_ops ch = Sync_ipc_ops"
    by (auto simp: script_chan_def)
  from assms(1) have "script_world c ((reply 0 0, Some (0x3000, demo_hdr 0x8001 0 h 0)) # ?s, a) w"
    by (simp add: script_connection_def)
  from script_dev_connect [OF this assms(3), of c] obtain w1 where
    w1: "trusty_ipc_dev_connect script_platform demo_idev port c w = Ret (c_int h) w1"
      "script_world c (?s, a) w1" "machine.more w1 = machine.more w" by blast
  then have c1: "chans w1 = chans w" "world.more w1 = world.more w" by (cases w, cases w1, simp)+
  have h: "word_of_int (c_int h) = h" by (simp add: c_int_def)
  let ?w = "w1\<lparr>chans := (chans w1)(c \<mapsto> ch\<lparr>ch_handle := h\<rparr>)\<rparr>"
  have "script_world c (?s, a) ?w" using w1(2) ch by (auto simp: script_chan_def)
  from script_wait [where tab = tab, OF this _ assms(2)] obtain w2 where
    w2: "wait_for_complete script_platform tab c ?w = Ret 1 w2" "script_world c (rest, a) w2"
      "world.more w2 = world.more ?w" "map_option ch_handle (chans w2 c) = Some h"
    by (auto simp: IPC_HANDLE_POLL_READY_def)
  from w2(4) obtain ch2 where "chans w2 c = Some ch2" "ch_handle ch2 = h" by auto
  moreover have "trusty_ipc_connect script_platform tab c port True w = Ret 1 w2"
    using w1(1) w2(1) ch c1 assms(4) h
    by (simp add: trusty_ipc_connect_def get_chan_def upd_chan_def wait_for_connect_def)
  ultimately show ?thesis using w2(2,3) c1(2) by auto
qed

text \<open>The devices are up and the script is \<open>s\<close>.\<close>

definition script_mem :: "script \<Rightarrow> (script, 'z) world_scheme \<Rightarrow> bool" where
  "script_mem s w \<longleftrightarrow>
     (\<exists>buf. shm w 0x3000 = Some buf \<and> length buf = 4096) \<and>
     (\<exists>buf. shm w 0x1000 = Some buf \<and> length buf = 4096) \<and> env w = s"

lemma script_chan_mem: "script_chan ops c s w \<Longrightarrow> script_mem s w"
  by (simp add: script_chan_def script_mem_def)

lemma script_chan_init:
  "script_mem s w \<Longrightarrow> \<exists>w1. trusty_ipc_chan_init c' demo_idev w = Ret () w1 \<and> script_world c' s w1 \<and>
    world.more w1 = world.more w"
  by (auto simp: trusty_ipc_chan_init_def script_chan_def script_mem_def)
end
