(* ===== verification/Rpmb_Proxy.thy ===== *)
theory Rpmb_Proxy
  imports Ipc
begin

text \<open>
  The RPMB storage proxy, \<open>ql-tipc/rpmb_proxy.c\<close>: the secure side sends storage requests over a
  channel, the proxy validates them, executes RPMB accesses on the platform's device and answers.
  Its static variables extend the world; the platform's RPMB driver is the parameter \<open>I\<close>. The
  lemmas show that only well-formed accesses reach the device, what is answered on every branch, and
  that the proxy's buffers and the channels keep their invariant through every event.
\<close>

section \<open>The storage protocol (interface/storage/storage.h)\<close>

definition STORAGE_DISK_PROXY_PORT :: cstring where
  "STORAGE_DISK_PROXY_PORT = cstr ''com.android.trusty.storage.proxy''"

definition STORAGE_REQ_SHIFT :: nat where "STORAGE_REQ_SHIFT = 1"
definition STORAGE_RESP_BIT :: u32 where "STORAGE_RESP_BIT = 1"
definition STORAGE_FILE_DELETE :: u32 where "STORAGE_FILE_DELETE = push_bit STORAGE_REQ_SHIFT 1"
definition STORAGE_FILE_OPEN :: u32 where "STORAGE_FILE_OPEN = push_bit STORAGE_REQ_SHIFT 2"
definition STORAGE_FILE_CLOSE :: u32 where "STORAGE_FILE_CLOSE = push_bit STORAGE_REQ_SHIFT 3"
definition STORAGE_FILE_READ :: u32 where "STORAGE_FILE_READ = push_bit STORAGE_REQ_SHIFT 4"
definition STORAGE_FILE_WRITE :: u32 where "STORAGE_FILE_WRITE = push_bit STORAGE_REQ_SHIFT 5"
definition STORAGE_FILE_GET_SIZE :: u32 where "STORAGE_FILE_GET_SIZE = push_bit STORAGE_REQ_SHIFT 6"
definition STORAGE_FILE_SET_SIZE :: u32 where "STORAGE_FILE_SET_SIZE = push_bit STORAGE_REQ_SHIFT 7"
definition STORAGE_RPMB_SEND :: u32 where "STORAGE_RPMB_SEND = push_bit STORAGE_REQ_SHIFT 8"

definition STORAGE_NO_ERROR :: u32 where "STORAGE_NO_ERROR = 0"
definition STORAGE_ERR_GENERIC :: u32 where "STORAGE_ERR_GENERIC = 1"
definition STORAGE_ERR_NOT_VALID :: u32 where "STORAGE_ERR_NOT_VALID = 2"
definition STORAGE_ERR_UNIMPLEMENTED :: u32 where "STORAGE_ERR_UNIMPLEMENTED = 3"

definition MMC_BLOCK_SIZE :: u32 where "MMC_BLOCK_SIZE = 512"

record storage_msg =
  sm_cmd :: u32
  sm_op_id :: u32
  sm_flags :: u32
  sm_size :: u32
  sm_result :: u32
  sm_reserved :: u32

definition storage_msg_bytes :: "storage_msg \<Rightarrow> bytes" where
  "storage_msg_bytes m =
     le32 (sm_cmd m) @ le32 (sm_op_id m) @ le32 (sm_flags m) @ le32 (sm_size m) @ le32 (sm_result m) @
     le32 (sm_reserved m)"

definition storage_msg_of_bytes :: "bytes \<Rightarrow> storage_msg" where
  "storage_msg_of_bytes bs =
     \<lparr>sm_cmd = le_word (get_bytes 0 4 bs), sm_op_id = le_word (get_bytes 4 4 bs),
      sm_flags = le_word (get_bytes 8 4 bs), sm_size = le_word (get_bytes 12 4 bs),
      sm_result = le_word (get_bytes 16 4 bs), sm_reserved = le_word (get_bytes 20 4 bs)\<rparr>"

record storage_rpmb_send_req =
  rs_reliable_write_size :: u32
  rs_write_size :: u32
  rs_read_size :: u32

definition storage_rpmb_send_req_of_bytes :: "bytes \<Rightarrow> storage_rpmb_send_req" where
  "storage_rpmb_send_req_of_bytes bs =
     \<lparr>rs_reliable_write_size = le_word (get_bytes 0 4 bs), rs_write_size = le_word (get_bytes 4 4 bs),
      rs_read_size = le_word (get_bytes 8 4 bs)\<rparr>"

abbreviation (input) SIZEOF_storage_msg :: nat where "SIZEOF_storage_msg \<equiv> 24"
abbreviation (input) SIZEOF_rpmb_req :: nat where "SIZEOF_rpmb_req \<equiv> 16"

section \<open>The proxy's state\<close>

record 'e proxy_world = "'e world" +
  rp_initialized :: bool
  proxy_rpmb :: u64
  req_msg :: storage_msg
  req_buf :: bytes
  read_buf :: bytes

text \<open>
  The platform's RPMB driver (\<open>rpmb.h\<close>): \<open>rpmb_send\<close> executes an access on a device with the data
  of the reliable write, of the write, and the number of bytes to read, and gives a status and the
  bytes it read.
\<close>

record 'e rpmb_impl =
  rpmb_send :: "u64 \<Rightarrow> bytes \<Rightarrow> bytes \<Rightarrow> u64 \<Rightarrow> 'e \<Rightarrow> (int \<times> bytes) \<times> 'e"
  rpmb_get_ctx :: "'e \<Rightarrow> u64 \<times> 'e"
  rpmb_put_ctx :: "u64 \<Rightarrow> 'e \<Rightarrow> 'e"

text \<open>
  A call of \<open>rpmb_storage_send\<close>: the driver fills at most \<open>read_size\<close> bytes of \<open>read_buf\<close>; the
  sources are the payload of the request in \<open>req_buf\<close>, at offsets from its start.
\<close>

definition rpmb_storage_send ::
  "'e rpmb_impl \<Rightarrow> nat \<Rightarrow> nat \<Rightarrow> nat \<Rightarrow> nat \<Rightarrow> u64 \<Rightarrow> ('e, 'z) proxy_world_scheme \<Rightarrow>
   (int, ('e, 'z) proxy_world_scheme) outcome"
where
  "rpmb_storage_send I rel_off rel_size wr_off wr_size read_size w =
     (if length (req_buf w) < rel_off + rel_size \<or> length (req_buf w) < wr_off + wr_size \<or>
         length (read_buf w) < unat read_size then Fault
      else
        let rel = get_bytes rel_off rel_size (req_buf w); wr = get_bytes wr_off wr_size (req_buf w) in
        (case rpmb_send I (proxy_rpmb w) rel wr read_size (env w) of
           ((rc, bs), e) \<Rightarrow>
             Ret rc (w\<lparr>env := e, calls := calls w @ [C_rpmb rel wr read_size],
                       read_buf := put_bytes 0 (take (unat read_size) bs) (read_buf w)\<rparr>)))"

text \<open>The addresses of the channel objects of the program, which are distinct.\<close>

definition proxy_chan :: u64 where "proxy_chan = 0x100"

text \<open>Operations that do not wait are independent of the handler table; they are given this one.\<close>

abbreviation (input) nowait_tab :: "('e, 'z) ops_table" where "nowait_tab \<equiv> \<lambda>_. sync_ipc_ops"

section \<open>Requests and responses\<close>

definition proxy_read_request ::
  "'e platform \<Rightarrow> u64 \<Rightarrow> ('e, 'z) proxy_world_scheme \<Rightarrow> (int, ('e, 'z) proxy_world_scheme) outcome"
where
  "proxy_read_request P c w =
     (let req_iovs = [\<lparr>iov_base = storage_msg_bytes (req_msg w), iov_len = of_nat SIZEOF_storage_msg\<rparr>,
                      \<lparr>iov_base = req_buf w, iov_len = 4096\<rparr>] in
      obind (trusty_ipc_recv P nowait_tab c req_iovs False w) (\<lambda>(rc, iovs) w.
      let w = w\<lparr>req_msg := storage_msg_of_bytes (iov_base (iovs ! 0)), req_buf := iov_base (iovs ! 1)\<rparr> in
      if rc < 0 then Ret rc w
      else if rc < int SIZEOF_storage_msg then Ret TRUSTY_ERR_GENERIC w
      else Ret (rc - int SIZEOF_storage_msg) w))"

text \<open>\<open>resp\<close> is the size of the response data in \<open>read_buf\<close>, or \<open>None\<close> for a null pointer.\<close>

definition proxy_send_response ::
  "'e platform \<Rightarrow> u64 \<Rightarrow> u64 option \<Rightarrow> ('e, 'z) proxy_world_scheme \<Rightarrow>
   (int, ('e, 'z) proxy_world_scheme) outcome"
where
  "proxy_send_response P c resp w =
     (let msg = (req_msg w)\<lparr>sm_cmd := sm_cmd (req_msg w) OR STORAGE_RESP_BIT\<rparr>; w = w\<lparr>req_msg := msg\<rparr>;
          hdr = \<lparr>iov_base = storage_msg_bytes msg, iov_len = of_nat SIZEOF_storage_msg\<rparr> in
      trusty_ipc_send P nowait_tab c
        (case resp of None \<Rightarrow> [hdr] | Some n \<Rightarrow> [hdr, \<lparr>iov_base = read_buf w, iov_len = n\<rparr>]) False w)"

definition proxy_err_response ::
  "'e platform \<Rightarrow> u64 \<Rightarrow> u32 \<Rightarrow> ('e, 'z) proxy_world_scheme \<Rightarrow>
   (int, ('e, 'z) proxy_world_scheme) outcome"
where
  "proxy_err_response P c err w =
     proxy_send_response P c None (w\<lparr>req_msg := (req_msg w)\<lparr>sm_result := err\<rparr>\<rparr>)"

definition proxy_handle_rpmb ::
  "'e platform \<Rightarrow> 'e rpmb_impl \<Rightarrow> u64 \<Rightarrow> u64 \<Rightarrow> ('e, 'z) proxy_world_scheme \<Rightarrow>
   (int, ('e, 'z) proxy_world_scheme) outcome"
where
  "proxy_handle_rpmb P I c req_len w =
     (if req_len < 8 then proxy_err_response P c STORAGE_ERR_NOT_VALID w else
      if length (req_buf w) < SIZEOF_rpmb_req then Fault else
      let req = storage_rpmb_send_req_of_bytes (req_buf w);
          exp_len = of_nat SIZEOF_rpmb_req + ucast (rs_reliable_write_size req) + ucast (rs_write_size req) in
      if req_len \<noteq> exp_len then proxy_err_response P c STORAGE_ERR_NOT_VALID w else
      if rs_reliable_write_size req \<noteq> 0 \<and> rs_reliable_write_size req mod MMC_BLOCK_SIZE \<noteq> 0
        then proxy_err_response P c STORAGE_ERR_NOT_VALID w else
      if rs_write_size req \<noteq> 0 \<and> rs_write_size req mod MMC_BLOCK_SIZE \<noteq> 0
        then proxy_err_response P c STORAGE_ERR_NOT_VALID w else
      if rs_read_size req \<noteq> 0 \<and>
         (rs_read_size req mod MMC_BLOCK_SIZE \<noteq> 0 \<or> 4096 < rs_read_size req)
        then proxy_err_response P c STORAGE_ERR_NOT_VALID w else
      obind (rpmb_storage_send I SIZEOF_rpmb_req (unat (rs_reliable_write_size req))
          (SIZEOF_rpmb_req + unat (rs_reliable_write_size req)) (unat (rs_write_size req))
          (ucast (rs_read_size req)) w) (\<lambda>rc w.
      if rc \<noteq> 0 then proxy_err_response P c STORAGE_ERR_GENERIC w else
      let w = w\<lparr>req_msg := (req_msg w)\<lparr>sm_result := STORAGE_NO_ERROR\<rparr>\<rparr> in
      proxy_send_response P c (Some (ucast (rs_read_size req))) w))"

definition proxy_handle_req ::
  "'e platform \<Rightarrow> 'e rpmb_impl \<Rightarrow> u64 \<Rightarrow> u64 \<Rightarrow> ('e, 'z) proxy_world_scheme \<Rightarrow>
   (int, ('e, 'z) proxy_world_scheme) outcome"
where
  "proxy_handle_req P I c req_len w =
     (let cmd = sm_cmd (req_msg w) in
      if cmd = STORAGE_RPMB_SEND then proxy_handle_rpmb P I c req_len w
      else if cmd \<in> {STORAGE_FILE_DELETE, STORAGE_FILE_OPEN, STORAGE_FILE_CLOSE, STORAGE_FILE_WRITE,
          STORAGE_FILE_READ, STORAGE_FILE_GET_SIZE, STORAGE_FILE_SET_SIZE}
        then proxy_err_response P c STORAGE_ERR_UNIMPLEMENTED w
      else proxy_err_response P c STORAGE_ERR_UNIMPLEMENTED w)"

section \<open>Event handlers\<close>

definition proxy_on_disconnect ::
  "u64 \<Rightarrow> ('e, 'z) proxy_world_scheme \<Rightarrow> (int, ('e, 'z) proxy_world_scheme) outcome"
where
  "proxy_on_disconnect c w =
     obind (upd_chan c (\<lambda>ch. ch\<lparr>ch_handle := INVALID_IPC_HANDLE\<rparr>) w)
       (\<lambda>_ w. Ret TRUSTY_EVENT_HANDLED w)"

definition proxy_on_message ::
  "'e platform \<Rightarrow> 'e rpmb_impl \<Rightarrow> u64 \<Rightarrow> ('e, 'z) proxy_world_scheme \<Rightarrow>
   (int, ('e, 'z) proxy_world_scheme) outcome"
where
  "proxy_on_message P I c w =
     obind (proxy_read_request P c w) (\<lambda>rc w.
     if rc < 0 then obind (trusty_ipc_close P c w) (\<lambda>_ w. Ret rc w) else
     obind (proxy_handle_req P I c (word_of_int rc) w) (\<lambda>rc w.
     if rc < 0 then obind (trusty_ipc_close P c w) (\<lambda>_ w. Ret rc w) else
     Ret TRUSTY_EVENT_HANDLED w))"

definition proxy_ops ::
  "'e platform \<Rightarrow> 'e rpmb_impl \<Rightarrow> ('e, 'z proxy_world_ext) trusty_ipc_ops"
where
  "proxy_ops P I =
     \<lparr>on_raw_event = None, on_connect_complete = None, on_send_unblocked = None,
      on_message = Some (proxy_on_message P I), on_disconnect = Some proxy_on_disconnect\<rparr>"

text \<open>The handler tables of the program.\<close>

definition tipc_ops ::
  "'e platform \<Rightarrow> 'e rpmb_impl \<Rightarrow> ('e, 'z proxy_world_ext) ops_table"
where
  "tipc_ops P I p = (case p of Sync_ipc_ops \<Rightarrow> sync_ipc_ops | Proxy_ops \<Rightarrow> proxy_ops P I)"

section \<open>Starting and stopping the proxy\<close>

fun proxy_poll_loop ::
  "'e platform \<Rightarrow> 'e rpmb_impl \<Rightarrow> nat \<Rightarrow> ('e, 'z) proxy_world_scheme \<Rightarrow>
   (int, ('e, 'z) proxy_world_scheme) outcome"
where
  "proxy_poll_loop P I n w =
     obind (get_chan proxy_chan w) (\<lambda>ch w.
     obind (trusty_ipc_poll_for_event P (tipc_ops P I) (ch_dev ch) w) (\<lambda>rc w.
     if rc < 0 then Ret rc w else
     obind (get_chan proxy_chan w) (\<lambda>ch w.
     if ch_handle ch = INVALID_IPC_HANDLE then Ret TRUSTY_ERR_CHANNEL_CLOSED w else
     if rc \<noteq> TRUSTY_EVENT_NONE then
       (case n of 0 \<Rightarrow> NoFuel | Suc n' \<Rightarrow> proxy_poll_loop P I n' w)
     else Ret TRUSTY_ERR_NONE w)))"

definition rpmb_storage_proxy_init ::
  "'e platform \<Rightarrow> 'e rpmb_impl \<Rightarrow> trusty_ipc_dev \<Rightarrow> u64 \<Rightarrow> ('e, 'z) proxy_world_scheme \<Rightarrow>
   (int, ('e, 'z) proxy_world_scheme) outcome"
where
  "rpmb_storage_proxy_init P I dev rpmb_dev w =
     (let w = w\<lparr>proxy_rpmb := rpmb_dev\<rparr> in
      obind (trusty_ipc_chan_init proxy_chan dev w) (\<lambda>_ w.
      obind (trusty_ipc_connect P (tipc_ops P I) proxy_chan STORAGE_DISK_PROXY_PORT True w) (\<lambda>rc w.
      if rc < 0 then Ret rc w else
      obind (upd_chan proxy_chan (\<lambda>ch. ch\<lparr>ch_ops := Proxy_ops\<rparr>) w) (\<lambda>_ w.
      obind (proxy_poll_loop P I (fuel P) w) (\<lambda>rc w.
      if rc < 0 then Ret rc w else
      Ret TRUSTY_ERR_NONE (w\<lparr>rp_initialized := True\<rparr>))))))"

definition rpmb_storage_proxy_shutdown ::
  "'e platform \<Rightarrow> ('e, 'z) proxy_world_scheme \<Rightarrow> (unit, ('e, 'z) proxy_world_scheme) outcome"
where
  "rpmb_storage_proxy_shutdown P w =
     obind (trusty_ipc_close P proxy_chan w) (\<lambda>_ w. Ret () (w\<lparr>rp_initialized := False\<rparr>))"

declare proxy_poll_loop.simps [simp del]

section \<open>Lemmas: message formats\<close>

lemma length_storage_msg_bytes [simp]: "length (storage_msg_bytes m) = 24"
  by (simp add: storage_msg_bytes_def)

interpretation storage_msg_format: wire_format storage_msg_bytes storage_msg_of_bytes 24
proof unfold_locales
  fix x show "storage_msg_of_bytes (storage_msg_bytes x) = x"
    by (simp add: storage_msg_of_bytes_def storage_msg_bytes_def get_bytes_def)
next
  fix bs :: bytes assume len: "length bs = 24"
  then have "bs = get_bytes 0 4 bs @ get_bytes 4 4 bs @ get_bytes 8 4 bs @ get_bytes 12 4 bs @
      get_bytes 16 4 bs @ get_bytes 20 4 bs"
    by (intro nth_equalityI) (auto simp: get_bytes_def nth_append intro!: arg_cong [where f = "(!) bs"])
  with len show "storage_msg_bytes (storage_msg_of_bytes bs) = bs"
    by (simp add: storage_msg_bytes_def storage_msg_of_bytes_def le_bytes_le_word)
qed simp

section \<open>The proxy's invariant\<close>

definition proxy_ok :: "('e, 'z) proxy_world_scheme \<Rightarrow> bool" where
  "proxy_ok w \<longleftrightarrow> chans_ok w \<and> length (req_buf w) = 4096 \<and> length (read_buf w) = 4096"

definition proxy_keeps :: "('e, 'z) proxy_world_scheme \<Rightarrow> ('e, 'z) proxy_world_scheme \<Rightarrow> bool" where
  "proxy_keeps w w' \<longleftrightarrow> (proxy_ok w \<longrightarrow> proxy_ok w' \<and> chan_keeps w w')"

lemma proxy_keeps_refl [simp]: "proxy_keeps w w"
  by (simp add: proxy_keeps_def)

lemma transp_proxy_keeps: "transp proxy_keeps"
  using transp_chan_keeps unfolding transp_def proxy_keeps_def by blast

lemma proxy_fields_more:
  "world.more w' = world.more w \<Longrightarrow> req_buf w' = req_buf w \<and> read_buf w' = read_buf w \<and>
     req_msg w' = req_msg w \<and> proxy_rpmb w' = proxy_rpmb w \<and> rp_initialized w' = rp_initialized w"
  by (cases w, cases w') simp

lemma shapely_proxy_keeps: "shapely w w' \<Longrightarrow> proxy_keeps w w'"
  unfolding proxy_keeps_def proxy_ok_def
  using shapely_chan_keeps [of w w'] chans_ok_keeps [of w w'] stays_more [of w w'] proxy_fields_more [of w' w]
  by (auto simp: shapely_def)

lemma upd_chan_proxy_keeps:
  assumes "\<And>ch. ch_dev (f ch) = ch_dev ch"
  shows "keeps proxy_keeps w (upd_chan c f w)"
proof (cases "upd_chan c f w")
  case (Ret u w')
  moreover from upd_chan_keeps [OF assms, of w c] Ret have "chan_keeps w w'" by simp
  moreover from Ret have "world.more w' = world.more w" by (auto simp: upd_chan_Ret)
  ultimately show ?thesis
    using chans_ok_keeps [of w w'] proxy_fields_more [of w' w]
    by (auto simp: proxy_keeps_def proxy_ok_def)
qed (auto simp: upd_chan_def split: option.splits)

text \<open>Writes to the proxy's own message header and device pointer.\<close>

lemma set_req_msg_keeps [simp]: "proxy_keeps w (w\<lparr>req_msg := m\<rparr>)"
  by (auto simp: proxy_keeps_def proxy_ok_def chans_ok_def chan_keeps_def idev_ok_def dev_ready_def)

section \<open>What the proxy's handlers leave alone\<close>

text \<open>
  The interface of the proxy to a frame: a relation that the device below, updates of a channel's
  handle or completion, writes to the proxy's request buffers and valid accesses to the driver keep
  is kept by every handler of the program, and with them by every channel operation.
\<close>

lemma mod_block: "x mod MMC_BLOCK_SIZE = 0 \<longleftrightarrow> 512 dvd unat x"
  by (simp add: MMC_BLOCK_SIZE_def word_unat_eq_iff unat_mod dvd_eq_mod_eq_0)

text \<open>A received request is no longer than the buffer, which keeps its size.\<close>

lemma proxy_request_shape:
  assumes "trusty_ipc_recv P tab c
      [\<lparr>iov_base = storage_msg_bytes (req_msg w), iov_len = 24\<rparr>,
       \<lparr>iov_base = req_buf w, iov_len = 4096\<rparr>] False w = Ret (r, js) w1"
  shows "length (iov_base (js ! Suc 0)) = length (req_buf w1) \<and> r \<le> 4120"
proof -
  from assms obtain ch where "chans w c = Some ch" and
    r: "trusty_ipc_dev_recv P (ch_dev ch) (ch_handle ch)
      [\<lparr>iov_base = storage_msg_bytes (req_msg w), iov_len = 24\<rparr>,
       \<lparr>iov_base = req_buf w, iov_len = 4096\<rparr>] w = Ret (r, js) w1"
    by (cases "chans w c") (simp_all add: trusty_ipc_recv_nowait)
  from keeps_stays_Ret(2) [OF stays_frame.ipc_dev_ops_frame(6) r] have "req_buf w1 = req_buf w"
    by (auto dest: proxy_fields_more)
  with ipc_transport.recv_two [OF assms] show ?thesis by auto
qed

locale proxy_frame = call_frame P R
  for P :: "'e platform" and R :: "('e, 'z) proxy_world_scheme \<Rightarrow> ('e, 'z) proxy_world_scheme \<Rightarrow> bool" +
  fixes I :: "'e rpmb_impl"
  assumes frame_complete: "keeps R w (upd_chan c (\<lambda>ch. ch\<lparr>ch_complete := k\<rparr>) w)"
    and frame_handle: "keeps R w (upd_chan c (\<lambda>ch. ch\<lparr>ch_handle := h\<rparr>) w)"
    and frame_req_msg: "R w (w\<lparr>req_msg := msg\<rparr>)"
    and frame_request: "length b = length (req_buf w) \<Longrightarrow> R w (w\<lparr>req_msg := msg, req_buf := b\<rparr>)"
    and frame_rpmb: "512 dvd n \<Longrightarrow> 512 dvd m \<Longrightarrow> 512 dvd unat rd \<Longrightarrow> unat rd \<le> 4096 \<Longrightarrow>
      keeps R w (rpmb_storage_send I i n j m rd w)"
begin

lemma proxy_get_chan_frame: "keeps R w (get_chan c w)"
  by (simp add: get_chan_def frame_refl split: option.splits)

lemma proxy_close_frame: "keeps R w (trusty_ipc_close P c w)"
  unfolding trusty_ipc_close_def
  by (intro keeps_bind proxy_get_chan_frame ipc_dev_ops_frame frame_handle keeps_return)

lemma proxy_send_frame: "keeps R w (trusty_ipc_send P tab c iovs wait w)"
  by (simp add: trusty_ipc_send_def send_again_loop_eq ipc_dev_ops_frame split: option.splits)

lemma proxy_send_response_frame: "keeps R w (proxy_send_response P c resp w)"
  unfolding proxy_send_response_def Let_def
  by (rule keeps_from [OF frame_trans frame_req_msg proxy_send_frame])

lemma proxy_err_response_frame: "keeps R w (proxy_err_response P c e w)"
  unfolding proxy_err_response_def
  by (rule keeps_from [OF frame_trans frame_req_msg proxy_send_response_frame])

lemma proxy_handle_rpmb_frame: "keeps R w (proxy_handle_rpmb P I c n w)"
  unfolding proxy_handle_rpmb_def Let_def
  by (intro keeps_ifI keeps_bind proxy_err_response_frame frame_rpmb
      keeps_from [OF frame_trans frame_req_msg proxy_send_response_frame])
     (auto simp: word_less_nat_alt not_less mod_block)

lemma proxy_read_request_frame: "keeps R w (proxy_read_request P c w)"
  unfolding proxy_read_request_def Let_def
proof (rule keeps_bind, goal_cases)
  case 1
  show ?case by (simp add: trusty_ipc_recv_nowait ipc_dev_ops_frame split: option.splits)
next
  case (2 p w')
  then show ?case by (cases p) (auto simp: frame_request dest!: proxy_request_shape)
qed

lemma proxy_on_message_frame: "keeps R w (proxy_on_message P I c w)"
  unfolding proxy_on_message_def proxy_handle_req_def Let_def
  by (intro keeps_if keeps_bind proxy_read_request_frame proxy_close_frame proxy_handle_rpmb_frame
      proxy_err_response_frame keeps_return)

lemma sync_handlers_frame:
  "keeps R w (sync_ipc_on_connect_complete c w)" "keeps R w (sync_ipc_on_message c w)"
  "keeps R w (sync_ipc_on_disconnect c w)" "keeps R w (proxy_on_disconnect c w)"
  unfolding sync_ipc_on_connect_complete_def sync_ipc_on_message_def sync_ipc_on_disconnect_def
    proxy_on_disconnect_def
  by (intro keeps_bind frame_complete frame_handle keeps_return)+

end

sublocale proxy_frame \<subseteq> handlers: handler_frame P R "tipc_ops P I"
  by unfold_locales
     (auto simp: tipc_ops_def sync_ipc_ops_def proxy_ops_def split: ops_ptr.splits
        intro!: frame_complete frame_handle sync_handlers_frame proxy_on_message_frame)

context proxy_frame
begin

lemma proxy_poll_loop_frame: "keeps R w (proxy_poll_loop P I n w)"
proof (induction n arbitrary: w)
  case 0
  show ?case
    unfolding proxy_poll_loop.simps [of P I 0]
    by (intro keeps_bind keeps_if handlers.get_chan_frame handlers.poll_frame keeps_return) simp
next
  case (Suc n)
  show ?case
    unfolding proxy_poll_loop.simps [of P I "Suc n"] nat.case
    by (intro keeps_bind keeps_if handlers.get_chan_frame handlers.poll_frame keeps_return Suc.IH)
qed

end

lemma keeps_conj: "keeps (\<lambda>w w'. R w w' \<and> S w w') w m \<longleftrightarrow> keeps R w m \<and> keeps S w m"
  by (cases m) auto

text \<open>Two frames together are a frame.\<close>

lemma proxy_frame_conj:
  assumes "proxy_frame P R I" "proxy_frame P S I"
  shows "proxy_frame P (\<lambda>w w'. R w w' \<and> S w w') I"
proof -
  have tr: "transp (\<lambda>w w'. R w w' \<and> S w w')"
    using call_frame.frame_trans [OF proxy_frame.axioms(1) [OF assms(1)]]
      call_frame.frame_trans [OF proxy_frame.axioms(1) [OF assms(2)]] unfolding transp_def by blast
  note c = proxy_frame.axioms(1) [OF assms(1)] proxy_frame.axioms(1) [OF assms(2)]
  show ?thesis
    by unfold_locales
       (simp_all add: keeps_conj tr c [THEN call_frame.frame_refl] c [THEN call_frame.frame_sys_call]
          c [THEN call_frame.frame_smc8] c [THEN call_frame.frame_write]
          assms [THEN proxy_frame.frame_complete] assms [THEN proxy_frame.frame_handle]
          assms [THEN proxy_frame.frame_req_msg] assms [THEN proxy_frame.frame_request]
          assms [THEN proxy_frame.frame_rpmb])
qed

section \<open>The handlers keep the invariant\<close>

lemma machine_proxy_keeps:
  "keeps proxy_keeps w (sys_call P c w)" "keeps proxy_keeps w (shm_write va off bs w)"
  by (rule keeps_mono [OF sys_call_keeps] keeps_mono [OF shm_write_keeps],
      erule shapely_proxy_keeps)+

lemma rpmb_storage_send_keeps: "keeps proxy_keeps w (rpmb_storage_send I a n b m k w)"
  by (auto simp: rpmb_storage_send_def Let_def proxy_keeps_def proxy_ok_def chans_ok_def chan_keeps_def
      idev_ok_def dev_ready_def put_bytes_def split: prod.splits)

interpretation tipc_frame: proxy_frame P "\<lambda>w w'. keeps_buffers P \<longrightarrow> proxy_keeps w w'" I for P I
proof unfold_locales
  show "transp (\<lambda>w w' :: ('a, 'b) proxy_world_scheme. keeps_buffers P \<longrightarrow> proxy_keeps w w')"
    using transp_proxy_keeps by (auto simp: transp_def)
  show "keeps (\<lambda>w w'. keeps_buffers P \<longrightarrow> proxy_keeps w w') w (smc8 P args w)"
    for args and w :: "('a, 'b) proxy_world_scheme"
    using shapely_frame.frame_smc8 [of P w args] by (rule keeps_mono) (auto intro: shapely_proxy_keeps)
  show "length b = length (req_buf w) \<Longrightarrow>
      keeps_buffers P \<longrightarrow> proxy_keeps w (w\<lparr>req_msg := msg, req_buf := b\<rparr>)"
    for b msg and w :: "('a, 'b) proxy_world_scheme"
    by (auto simp: proxy_keeps_def proxy_ok_def chans_ok_def chan_keeps_def idev_ok_def dev_ready_def)
qed (simp_all add: machine_proxy_keeps keeps_imp upd_chan_proxy_keeps rpmb_storage_send_keeps)

section \<open>Lemmas: only valid accesses reach the device\<close>

definition valid_rpmb_request :: "u64 \<Rightarrow> storage_rpmb_send_req \<Rightarrow> bool" where
  "valid_rpmb_request n req \<longleftrightarrow>
     unat n = 16 + unat (rs_reliable_write_size req) + unat (rs_write_size req) \<and>
     512 dvd unat (rs_reliable_write_size req) \<and> 512 dvd unat (rs_write_size req) \<and>
     512 dvd unat (rs_read_size req) \<and> unat (rs_read_size req) \<le> 4096"

fun rpmb_call_ok :: "ext_call \<Rightarrow> bool" where
  "rpmb_call_ok (C_rpmb rel wr n) =
     (512 dvd length rel \<and> 512 dvd length wr \<and> 512 dvd unat n \<and> unat n \<le> 4096)"
| "rpmb_call_ok _ = True"

definition rpmb_calls_ok :: "('e, 'z) machine_scheme \<Rightarrow> ('e, 'z) machine_scheme \<Rightarrow> bool" where
  "rpmb_calls_ok w w' \<longleftrightarrow> (\<exists>t. calls w' = calls w @ t \<and> list_all rpmb_call_ok t)"

lemma rpmb_calls_ok_refl [simp]: "rpmb_calls_ok w w"
  by (simp add: rpmb_calls_ok_def)

lemma transp_rpmb_calls_ok: "transp rpmb_calls_ok"
  by (rule transpI) (force simp: rpmb_calls_ok_def)

lemma exp_len_eq:
  "n = 16 + ucast (a :: u32) + ucast (b :: u32) \<longleftrightarrow> unat (n :: u64) = 16 + unat a + unat b"
proof -
  have "unat (16 + ucast a + ucast b :: u64) = 16 + unat a + unat b"
    using unsigned_less [of a, where 'a = nat] unsigned_less [of b, where 'a = nat]
    by (simp add: unat_word_ariths(1))
  then show ?thesis by (simp add: word_unat_eq_iff)
qed

lemma proxy_handle_rpmb_eq:
  assumes "length (req_buf w) = 4096"
  shows "proxy_handle_rpmb P I c n w =
    (let req = storage_rpmb_send_req_of_bytes (req_buf w) in
     if valid_rpmb_request n req then
       obind (rpmb_storage_send I 16 (unat (rs_reliable_write_size req))
           (16 + unat (rs_reliable_write_size req)) (unat (rs_write_size req))
           (ucast (rs_read_size req)) w) (\<lambda>rc w.
         if rc \<noteq> 0 then proxy_err_response P c STORAGE_ERR_GENERIC w else
         proxy_send_response P c (Some (ucast (rs_read_size req)))
           (w\<lparr>req_msg := (req_msg w)\<lparr>sm_result := STORAGE_NO_ERROR\<rparr>\<rparr>))
     else proxy_err_response P c STORAGE_ERR_NOT_VALID w)"
proof -
  let ?req = "storage_rpmb_send_req_of_bytes (req_buf w)"
  let ?e = "n = 16 + ucast (rs_reliable_write_size ?req) + ucast (rs_write_size ?req)"
  have small: "n < 8 \<Longrightarrow> \<not> ?e"
    unfolding exp_len_eq by (simp add: word_less_nat_alt)
  have "valid_rpmb_request n ?req \<longleftrightarrow> ?e \<and>
      \<not> (rs_reliable_write_size ?req \<noteq> 0 \<and> rs_reliable_write_size ?req mod MMC_BLOCK_SIZE \<noteq> 0) \<and>
      \<not> (rs_write_size ?req \<noteq> 0 \<and> rs_write_size ?req mod MMC_BLOCK_SIZE \<noteq> 0) \<and>
      \<not> (rs_read_size ?req \<noteq> 0 \<and>
        (rs_read_size ?req mod MMC_BLOCK_SIZE \<noteq> 0 \<or> 4096 < rs_read_size ?req))"
    unfolding valid_rpmb_request_def exp_len_eq mod_block by (auto simp: word_less_nat_alt not_less)
  with small show ?thesis
    using assms unfolding proxy_handle_rpmb_def Let_def by (simp cong: if_cong)
qed

lemma sys_call_rpmb: "dev_call c \<Longrightarrow> keeps rpmb_calls_ok w (sys_call P c w)"
  by (cases c) (auto simp: sys_call_def rpmb_calls_ok_def)

lemma upd_chan_rpmb: "keeps rpmb_calls_ok w (upd_chan c f w)"
  by (auto simp: upd_chan_def rpmb_calls_ok_def split: option.splits)

interpretation rpmb_frame: proxy_frame P rpmb_calls_ok I for P I
  by unfold_locales
     (auto simp: sys_call_rpmb transp_rpmb_calls_ok smc8_def shm_write_def upd_chan_rpmb rpmb_storage_send_def
        Let_def rpmb_calls_ok_def not_less min_absorb1 split: prod.splits option.splits)

section \<open>Properties\<close>

text \<open>
  C4: the proxy executes exactly the well-formed requests. A request whose length is that of its
  header and its two write regions, whose three sizes are multiples of the MMC block size and whose
  read fits the proxy's buffer is handed to the driver with exactly the bytes of its regions, and
  answered with the data read or, when the driver fails, with \<open>STORAGE_ERR_GENERIC\<close>; every other
  request is answered with \<open>STORAGE_ERR_NOT_VALID\<close> and never reaches the driver.
\<close>

theorem proxy_handle_rpmb_validates:
  assumes "proxy_ok w" "unat n \<le> 4096"
  shows "proxy_handle_rpmb P I c n w =
    (let req = storage_rpmb_send_req_of_bytes (req_buf w);
         rel = unat (rs_reliable_write_size req); wr = unat (rs_write_size req);
         rd = ucast (rs_read_size req) :: u64 in
     if valid_rpmb_request n req then
       (case rpmb_send I (proxy_rpmb w) (get_bytes 16 rel (req_buf w)) (get_bytes (16 + rel) wr (req_buf w))
           rd (env w) of
          ((rc, bs), e) \<Rightarrow>
            let w1 = w\<lparr>env := e,
                calls := calls w @ [C_rpmb (get_bytes 16 rel (req_buf w)) (get_bytes (16 + rel) wr (req_buf w)) rd],
                read_buf := put_bytes 0 (take (unat rd) bs) (read_buf w)\<rparr> in
            if rc \<noteq> 0 then proxy_err_response P c STORAGE_ERR_GENERIC w1
            else proxy_send_response P c (Some rd) (w1\<lparr>req_msg := (req_msg w)\<lparr>sm_result := STORAGE_NO_ERROR\<rparr>\<rparr>))
     else proxy_err_response P c STORAGE_ERR_NOT_VALID w)"
proof -
  from assms(1) have "length (req_buf w) = 4096" "length (read_buf w) = 4096" by (auto simp: proxy_ok_def)
  with assms(2) show ?thesis
    by (auto simp: proxy_handle_rpmb_eq Let_def valid_rpmb_request_def rpmb_storage_send_def
        split: prod.splits)
qed

definition demo_rpmb :: "script rpmb_impl" where
  "demo_rpmb = \<lparr>rpmb_send = (\<lambda>dev rel wr n e. ((0, replicate (unat n) 7), e)),
     rpmb_get_ctx = (\<lambda>e. (0x4000, e)), rpmb_put_ctx = (\<lambda>c e. e)\<rparr>"

definition demo_proxy_world ::
  "(smc_ret8 \<times> (u64 \<times> bytes) option) list \<Rightarrow> bytes \<Rightarrow> script proxy_world"
where
  "demo_proxy_world replies req =
     \<lparr>env = (replies, 0x8000), calls = [],
      shm = [0x1000 \<mapsto> replicate 4096 0, 0x3000 \<mapsto> replicate 4096 0],
      chans = [proxy_chan \<mapsto> demo_chan\<lparr>ch_ops := Proxy_ops, ch_handle := 3\<rparr>],
      rp_initialized = True, proxy_rpmb = 0x4000,
      req_msg = \<lparr>sm_cmd = STORAGE_RPMB_SEND, sm_op_id = 1, sm_flags = 0, sm_size = 0, sm_result = 0,
        sm_reserved = 0\<rparr>,
      req_buf = put_bytes 0 req (replicate 4096 0), read_buf = replicate 4096 0\<rparr>"

lemma demo_proxy_ok: "length req \<le> 4096 \<Longrightarrow> proxy_ok (demo_proxy_world replies req)"
  by (auto simp: proxy_ok_def demo_proxy_world_def chans_ok_def demo_chan_def idev_ok_def dev_ready_def
      demo_idev_def demo_dev_def PAGE_SIZE_def)

lemma proxy_handle_rpmb_validates_witness:
  "proxy_handle_rpmb script_platform demo_rpmb proxy_chan 16
     (demo_proxy_world [] (le32 0 @ le32 0 @ le32 100 @ le32 0)) =
   proxy_err_response script_platform proxy_chan STORAGE_ERR_NOT_VALID
     (demo_proxy_world [] (le32 0 @ le32 0 @ le32 100 @ le32 0))"
proof -
  let ?req = "le32 0 @ le32 0 @ le32 100 @ le32 0"
  have "\<not> valid_rpmb_request 16
      (storage_rpmb_send_req_of_bytes (req_buf (demo_proxy_world [] ?req)))"
    by (simp add: valid_rpmb_request_def storage_rpmb_send_req_of_bytes_def demo_proxy_world_def
        get_bytes_def put_bytes_def del: le_bytes_zero)
  moreover have "proxy_ok (demo_proxy_world [] ?req)" by (rule demo_proxy_ok) simp
  ultimately show ?thesis
    using proxy_handle_rpmb_validates [of "demo_proxy_world [] ?req" 16 script_platform demo_rpmb proxy_chan]
    by (simp add: Let_def)
qed

text \<open>
  C13: no event makes the proxy pass a malformed access to the RPMB device. Whatever messages arrive,
  whether while waiting for an event, while connecting or while the proxy starts, every access that
  reaches the driver writes whole blocks, reads whole blocks and reads at most 4096 bytes.
\<close>

theorem rpmb_accesses_wellformed:
  "keeps rpmb_calls_ok w (trusty_ipc_poll_for_event P (tipc_ops P I) dev w) \<and>
   keeps rpmb_calls_ok w (trusty_ipc_connect P (tipc_ops P I) c port wait w) \<and>
   keeps rpmb_calls_ok w (trusty_ipc_recv P (tipc_ops P I) c iovs wait w) \<and>
   keeps rpmb_calls_ok w (rpmb_storage_proxy_init P I dev rpmb_dev w)"
proof (intro conjI)
  show "keeps rpmb_calls_ok w (trusty_ipc_poll_for_event P (tipc_ops P I) dev w)"
    "keeps rpmb_calls_ok w (trusty_ipc_connect P (tipc_ops P I) c port wait w)"
    "keeps rpmb_calls_ok w (trusty_ipc_recv P (tipc_ops P I) c iovs wait w)"
    by (rule rpmb_frame.handlers.poll_frame rpmb_frame.handlers.connect_frame
        rpmb_frame.handlers.recv_frame)+
  show "keeps rpmb_calls_ok w (rpmb_storage_proxy_init P I dev rpmb_dev w)"
    unfolding rpmb_storage_proxy_init_def trusty_ipc_chan_init_def Let_def obind.simps
    by (rule keeps_from [OF transp_rpmb_calls_ok _ rpmb_frame.keeps_bind [OF rpmb_frame.handlers.connect_frame]])
       (auto intro!: rpmb_frame.keeps_bind rpmb_frame.proxy_poll_loop_frame upd_chan_rpmb
          simp: rpmb_calls_ok_def)
qed

lemma proxy_keepsD:
  "keeps (\<lambda>w w'. keeps_buffers P \<longrightarrow> proxy_keeps w w') w m \<Longrightarrow> keeps_buffers P \<Longrightarrow> proxy_ok w \<Longrightarrow>
   keeps (\<lambda>_ w'. proxy_ok w') w m"
  by (erule keeps_mono) (auto simp: proxy_keeps_def)



lemma proxy_poll_loop_Ret:
  assumes "proxy_poll_loop P I n w = Ret r w'"
  shows "r < 0 \<or> r = 0 \<and> (\<exists>ch. chans w' proxy_chan = Some ch \<and> ch_handle ch \<noteq> INVALID_IPC_HANDLE)"
  using assms
proof (induction n arbitrary: w)
  case 0
  then show ?case
    by (auto simp: proxy_poll_loop.simps [of P I 0] outcome_simps trusty_err_defs split: if_splits)
next
  case (Suc n)
  then show ?case
    by (auto simp: proxy_poll_loop.simps [of P I "Suc n"] outcome_simps trusty_err_defs split: if_splits)
qed

text \<open>
  A started proxy is connected. \<open>rpmb_storage_proxy_init\<close> returns 0 only after its channel was
  connected, all pending events were served and the channel is still open, and then the proxy is
  marked initialised; every other return value is an error. Shutting down closes the channel and
  clears the mark.
\<close>

theorem rpmb_storage_proxy_init_connected:
  "on_ret (\<lambda>r w'. r < 0 \<or> r = 0 \<and> rp_initialized w' \<and>
      (\<exists>ch. chans w' proxy_chan = Some ch \<and> ch_handle ch \<noteq> INVALID_IPC_HANDLE))
    (rpmb_storage_proxy_init P I dev rpmb_dev w) \<and>
   on_ret (\<lambda>_ w'. \<not> rp_initialized w' \<and>
      (\<exists>ch. chans w' proxy_chan = Some ch \<and> ch_handle ch = INVALID_IPC_HANDLE))
    (rpmb_storage_proxy_shutdown P w)"
proof
  show "on_ret (\<lambda>_ w'. \<not> rp_initialized w' \<and>
      (\<exists>ch. chans w' proxy_chan = Some ch \<and> ch_handle ch = INVALID_IPC_HANDLE))
    (rpmb_storage_proxy_shutdown P w)"
    unfolding rpmb_storage_proxy_shutdown_def
    by (rule on_ret_bindI) (auto dest!: trusty_ipc_close_Ret)
  show "on_ret (\<lambda>r w'. r < 0 \<or> r = 0 \<and> rp_initialized w' \<and>
      (\<exists>ch. chans w' proxy_chan = Some ch \<and> ch_handle ch \<noteq> INVALID_IPC_HANDLE))
    (rpmb_storage_proxy_init P I dev rpmb_dev w)"
    unfolding rpmb_storage_proxy_init_def Let_def
    by (intro on_ret_bindI on_ret_if) (auto dest!: proxy_poll_loop_Ret simp: trusty_err_defs)
qed

section \<open>The proxy on the scripted platform\<close>

text \<open>The service accepts the connection with the handle \<open>h\<close> and has no request yet.\<close>

definition script_no_event :: "smc_ret8 \<times> (u64 \<times> bytes) option" where
  "script_no_event = (reply 0 0, Some (0x3000, demo_hdr 0x8002 0 0 16 @ le32 0 @ le32 0 @ le64 0))"

lemma script_proxy_init:
  assumes "script_mem (script_connection proxy_chan h @ script_no_event # rest, a) w"
    and "0 \<le> c_int h" "h \<noteq> 0"
  shows "\<exists>w'. rpmb_storage_proxy_init script_platform I demo_idev ctx w = Ret 0 w' \<and> rp_initialized w' \<and>
    script_chan Proxy_ops proxy_chan (rest, a) w' \<and> proxy_world.more w' = proxy_world.more w"
proof -
  let ?w = "w\<lparr>proxy_rpmb := ctx\<rparr>" and ?tab = "tipc_ops script_platform I"
  have "script_mem (script_connection proxy_chan h @ script_no_event # rest, a) ?w"
    using assms(1) by (simp add: script_mem_def)
  from script_chan_init [OF this, of proxy_chan] obtain w1 where
    w1: "trusty_ipc_chan_init proxy_chan demo_idev ?w = Ret () w1" "world.more w1 = world.more ?w"
      "script_world proxy_chan (script_connection proxy_chan h @ script_no_event # rest, a) w1" by blast
  have tab: "?tab Sync_ipc_ops = sync_ipc_ops" by (simp add: tipc_ops_def)
  have port: "length STORAGE_DISK_PROXY_PORT \<le> 4063" by (simp add: STORAGE_DISK_PROXY_PORT_def cstr_def)
  from script_connect [where tab = ?tab, OF w1(3) tab port assms(2)] obtain w2 ch where
    w2: "trusty_ipc_connect script_platform ?tab proxy_chan STORAGE_DISK_PROXY_PORT True w1 = Ret 1 w2"
      "script_world proxy_chan (script_no_event # rest, a) w2" "world.more w2 = world.more w1"
      "chans w2 proxy_chan = Some ch" "ch_handle ch = h" by blast
  let ?w2 = "w2\<lparr>chans := (chans w2)(proxy_chan \<mapsto> ch\<lparr>ch_ops := Proxy_ops\<rparr>)\<rparr>"
  have dev: "ch_dev ch = demo_idev" using w2(2,4) by (auto simp: script_chan_def)
  have "script_chan Proxy_ops proxy_chan (script_no_event # rest, a) ?w2"
    using w2(2) dev by (auto simp: script_chan_def)
  from script_get_event [OF this [unfolded script_no_event_def]] obtain w3 where
    w3: "trusty_ipc_dev_get_event script_platform demo_idev 0 ?w2 =
        Ret (0, Some \<lparr>ev_event = 0, ev_handle = 0, ev_cookie = 0\<rparr>) w3"
      "script_chan Proxy_ops proxy_chan (rest, a) w3" "machine.more w3 = machine.more ?w2" by blast
  then have c3: "chans w3 = chans ?w2" "world.more w3 = world.more ?w2" by (cases ?w2, cases w3, simp)+
  have "proxy_poll_loop script_platform I 16 ?w2 = Ret 0 w3"
    using w3(1) c3 dev w2(5) assms(3)
    by (simp add: proxy_poll_loop.simps get_chan_def trusty_ipc_poll_for_event_def trusty_err_defs
        TRUSTY_EVENT_NONE_def INVALID_IPC_HANDLE_def)
  with w1 w2 have "rpmb_storage_proxy_init script_platform I demo_idev ctx w = Ret 0 (w3\<lparr>rp_initialized := True\<rparr>)"
    by (simp add: rpmb_storage_proxy_init_def upd_chan_def get_chan_def trusty_err_defs)
  moreover have "proxy_world.more w3 = proxy_world.more w"
    using c3(2) w2(3) w1(2) by (cases w, cases w1, cases w2, cases w3) simp
  ultimately show ?thesis using w3(2) by (simp add: script_chan_def)
qed
end
