(* ===== verification/Avb.thy ===== *)
theory Avb
  imports Rpmb_Proxy
begin

text \<open>
  The client of the Android Verified Boot service, \<open>ql-tipc/avb.c\<close>, with its protocol
  (\<open>interface/avb/avb.h\<close>). Results that the C code returns through pointers are returned as values;
  a response structure on the stack starts with uninitialised bytes. The static variables of this
  client and of the keymaster client extend the proxy's world.
\<close>

section \<open>The protocol\<close>

definition AVB_PORT :: cstring where "AVB_PORT = cstr ''com.android.trusty.avb''"
definition AVB_MAX_BUFFER_LENGTH :: nat where "AVB_MAX_BUFFER_LENGTH = 2048"
definition AVB_REQ_SHIFT :: nat where "AVB_REQ_SHIFT = 1"
definition AVB_RESP_BIT :: u32 where "AVB_RESP_BIT = 1"
definition READ_ROLLBACK_INDEX :: u32 where "READ_ROLLBACK_INDEX = push_bit AVB_REQ_SHIFT 0"
definition WRITE_ROLLBACK_INDEX :: u32 where "WRITE_ROLLBACK_INDEX = push_bit AVB_REQ_SHIFT 1"
definition AVB_GET_VERSION :: u32 where "AVB_GET_VERSION = push_bit AVB_REQ_SHIFT 2"
definition READ_PERMANENT_ATTRIBUTES :: u32 where
  "READ_PERMANENT_ATTRIBUTES = push_bit AVB_REQ_SHIFT 3"
definition WRITE_PERMANENT_ATTRIBUTES :: u32 where
  "WRITE_PERMANENT_ATTRIBUTES = push_bit AVB_REQ_SHIFT 4"
definition READ_LOCK_STATE :: u32 where "READ_LOCK_STATE = push_bit AVB_REQ_SHIFT 5"
definition WRITE_LOCK_STATE :: u32 where "WRITE_LOCK_STATE = push_bit AVB_REQ_SHIFT 6"
definition LOCK_BOOT_STATE :: u32 where "LOCK_BOOT_STATE = push_bit AVB_REQ_SHIFT 7"
definition AVB_ERROR_NONE :: u32 where "AVB_ERROR_NONE = 0"

record avb_message =
  avb_cmd :: u32
  avb_result :: u32

definition avb_message_bytes :: "avb_message \<Rightarrow> bytes" where
  "avb_message_bytes m = le32 (avb_cmd m) @ le32 (avb_result m)"

definition avb_message_of_bytes :: "bytes \<Rightarrow> avb_message" where
  "avb_message_of_bytes bs =
     \<lparr>avb_cmd = le_word (get_bytes 0 4 bs), avb_result = le_word (get_bytes 4 4 bs)\<rparr>"

record avb_rollback_req =
  arq_value :: u64
  arq_slot :: u32

definition avb_rollback_req_bytes :: "avb_rollback_req \<Rightarrow> bytes" where
  "avb_rollback_req_bytes r = le64 (arq_value r) @ le32 (arq_slot r)"

section \<open>State\<close>

record 'e client_world = "'e proxy_world" +
  avb_initialized :: bool
  km_initialized :: bool

definition avb_chan :: u64 where "avb_chan = 0x200"
definition avb_tipc_version :: u32 where "avb_tipc_version = 1"

section \<open>Requests and responses\<close>

text \<open>A request or response body is \<open>None\<close> for a null pointer.\<close>

definition avb_send_request ::
  "'e platform \<Rightarrow> 'e rpmb_impl \<Rightarrow> avb_message \<Rightarrow> bytes option \<Rightarrow> u64 \<Rightarrow>
   ('e, 'z) client_world_scheme \<Rightarrow> (int, ('e, 'z) client_world_scheme) outcome"
where
  "avb_send_request P I msg req req_len w =
     (let hdr = \<lparr>iov_base = avb_message_bytes msg, iov_len = 8\<rparr> in
      trusty_ipc_send P (tipc_ops P I) avb_chan
        (case req of None \<Rightarrow> [hdr] | Some bs \<Rightarrow> [hdr, \<lparr>iov_base = bs, iov_len = req_len\<rparr>]) True w)"

text \<open>The result is the return value, the message header and the response buffer afterwards.\<close>

definition avb_read_response ::
  "'e platform \<Rightarrow> 'e rpmb_impl \<Rightarrow> avb_message \<Rightarrow> u32 \<Rightarrow> bytes option \<Rightarrow> u64 \<Rightarrow>
   ('e, 'z) client_world_scheme \<Rightarrow>
   (int \<times> avb_message \<times> bytes option, ('e, 'z) client_world_scheme) outcome"
where
  "avb_read_response P I msg cmd resp resp_len w =
     (let hdr = \<lparr>iov_base = avb_message_bytes msg, iov_len = 8\<rparr> in
      obind (trusty_ipc_recv P (tipc_ops P I) avb_chan
          (case resp of None \<Rightarrow> [hdr] | Some bs \<Rightarrow> [hdr, \<lparr>iov_base = bs, iov_len = resp_len\<rparr>]) True w)
        (\<lambda>(rc, iovs) w.
        let msg = avb_message_of_bytes (iov_base (iovs ! 0));
            resp = map_option (\<lambda>_. iov_base (iovs ! 1)) resp in
        if rc < 0 then Ret (rc, msg, resp) w
        else if avb_cmd msg \<noteq> cmd OR AVB_RESP_BIT then Ret (TRUSTY_ERR_GENERIC, msg, resp) w
        else Ret (rc - 8, msg, resp) w))"

text \<open>The result is the return value, the response buffer and the response size afterwards.\<close>

definition avb_do_tipc ::
  "'e platform \<Rightarrow> 'e rpmb_impl \<Rightarrow> u32 \<Rightarrow> bytes option \<Rightarrow> u32 \<Rightarrow> bytes option \<Rightarrow> u32 option \<Rightarrow>
   ('e, 'z) client_world_scheme \<Rightarrow>
   (int \<times> bytes option \<times> u32 option, ('e, 'z) client_world_scheme) outcome"
where
  "avb_do_tipc P I cmd req req_size resp resp_size_p w =
     (let msg = \<lparr>avb_cmd = cmd, avb_result = 0\<rparr> in
      if \<not> avb_initialized w \<and> cmd \<noteq> AVB_GET_VERSION then Ret (TRUSTY_ERR_GENERIC, resp, resp_size_p) w
      else
        obind (avb_send_request P I msg req (ucast req_size) w) (\<lambda>rc w.
        if rc < 0 then Ret (rc, resp, resp_size_p) w else
        let resp_size = (case resp_size_p of None \<Rightarrow> 0 | Some n \<Rightarrow> n) in
        obind (avb_read_response P I msg cmd resp (ucast resp_size) w) (\<lambda>(rc, msg, resp) w.
        if rc < 0 then Ret (rc, resp, resp_size_p) w else
        let resp_size_p = map_option (\<lambda>_. word_of_int rc) resp_size_p in
        if avb_result msg \<noteq> AVB_ERROR_NONE then Ret (TRUSTY_ERR_GENERIC, resp, resp_size_p) w
        else Ret (TRUSTY_ERR_NONE, resp, resp_size_p) w)))"

definition avb_get_version ::
  "'e platform \<Rightarrow> 'e rpmb_impl \<Rightarrow> ('e, 'z) client_world_scheme \<Rightarrow>
   (int \<times> u32, ('e, 'z) client_world_scheme) outcome"
where
  "avb_get_version P I w =
     obind (avb_do_tipc P I AVB_GET_VERSION None 0 (Some (uninit P 4)) (Some 4) w) (\<lambda>(rc, resp, _) w.
       Ret (rc, le_word (case resp of None \<Rightarrow> [] | Some bs \<Rightarrow> bs)) w)"

definition avb_tipc_init ::
  "'e platform \<Rightarrow> 'e rpmb_impl \<Rightarrow> trusty_ipc_dev \<Rightarrow> ('e, 'z) client_world_scheme \<Rightarrow>
   (int, ('e, 'z) client_world_scheme) outcome"
where
  "avb_tipc_init P I dev w =
     obind (trusty_ipc_chan_init avb_chan dev w) (\<lambda>_ w.
     obind (trusty_ipc_connect P (tipc_ops P I) avb_chan AVB_PORT True w) (\<lambda>rc w.
     if rc < 0 then Ret rc w else
     obind (avb_get_version P I w) (\<lambda>(rc, version) w.
     if rc \<noteq> 0 then Ret TRUSTY_ERR_GENERIC w
     else if version \<noteq> avb_tipc_version then Ret TRUSTY_ERR_GENERIC w
     else Ret TRUSTY_ERR_NONE (w\<lparr>avb_initialized := True\<rparr>))))"

definition avb_tipc_shutdown ::
  "'e platform \<Rightarrow> ('e, 'z) client_world_scheme \<Rightarrow> (unit, ('e, 'z) client_world_scheme) outcome"
where
  "avb_tipc_shutdown P w =
     (if \<not> avb_initialized w then Ret () w
      else obind (trusty_ipc_close P avb_chan w) (\<lambda>_ w. Ret () (w\<lparr>avb_initialized := False\<rparr>)))"

definition trusty_read_rollback_index ::
  "'e platform \<Rightarrow> 'e rpmb_impl \<Rightarrow> u32 \<Rightarrow> ('e, 'z) client_world_scheme \<Rightarrow>
   (int \<times> u64, ('e, 'z) client_world_scheme) outcome"
where
  "trusty_read_rollback_index P I slot w =
     obind (avb_do_tipc P I READ_ROLLBACK_INDEX
         (Some (avb_rollback_req_bytes \<lparr>arq_value = 0, arq_slot = slot\<rparr>)) 12
         (Some (uninit P 8)) (Some 8) w) (\<lambda>(rc, resp, _) w.
       Ret (rc, le_word (case resp of None \<Rightarrow> [] | Some bs \<Rightarrow> bs)) w)"

definition trusty_write_rollback_index ::
  "'e platform \<Rightarrow> 'e rpmb_impl \<Rightarrow> u32 \<Rightarrow> u64 \<Rightarrow> ('e, 'z) client_world_scheme \<Rightarrow>
   (int, ('e, 'z) client_world_scheme) outcome"
where
  "trusty_write_rollback_index P I slot val w =
     obind (avb_do_tipc P I WRITE_ROLLBACK_INDEX
         (Some (avb_rollback_req_bytes \<lparr>arq_value = val, arq_slot = slot\<rparr>)) 12
         (Some (uninit P 8)) (Some 8) w) (\<lambda>(rc, _, _) w. Ret rc w)"

text \<open>\<open>attributes\<close> is the caller's buffer; the result is the return value and its content.\<close>

definition trusty_read_permanent_attributes ::
  "'e platform \<Rightarrow> 'e rpmb_impl \<Rightarrow> bytes \<Rightarrow> u32 \<Rightarrow> ('e, 'z) client_world_scheme \<Rightarrow>
   (int \<times> bytes, ('e, 'z) client_world_scheme) outcome"
where
  "trusty_read_permanent_attributes P I attributes sz w =
     obind (avb_do_tipc P I READ_PERMANENT_ATTRIBUTES None 0 (Some (uninit P AVB_MAX_BUFFER_LENGTH))
         (Some (of_nat AVB_MAX_BUFFER_LENGTH)) w) (\<lambda>(rc, resp, resp_size) w.
       if rc \<noteq> 0 then Ret (rc, attributes) w
       else if resp_size \<noteq> Some sz then Ret (TRUSTY_ERR_INVALID_ARGS, attributes) w
       else
         let resp_buf = (case resp of None \<Rightarrow> [] | Some bs \<Rightarrow> bs) in
         if length attributes < unat sz \<or> length resp_buf < unat sz then Fault
         else Ret (rc, put_bytes 0 (take (unat sz) resp_buf) attributes) w)"

definition trusty_write_permanent_attributes ::
  "'e platform \<Rightarrow> 'e rpmb_impl \<Rightarrow> bytes \<Rightarrow> u32 \<Rightarrow> ('e, 'z) client_world_scheme \<Rightarrow>
   (int, ('e, 'z) client_world_scheme) outcome"
where
  "trusty_write_permanent_attributes P I attributes sz w =
     obind (avb_do_tipc P I WRITE_PERMANENT_ATTRIBUTES (Some attributes) sz None None w)
       (\<lambda>(rc, _, _) w. Ret rc w)"

definition trusty_read_lock_state ::
  "'e platform \<Rightarrow> 'e rpmb_impl \<Rightarrow> u8 \<Rightarrow> ('e, 'z) client_world_scheme \<Rightarrow>
   (int \<times> u8, ('e, 'z) client_world_scheme) outcome"
where
  "trusty_read_lock_state P I lock_state w =
     obind (avb_do_tipc P I READ_LOCK_STATE None 0 (Some [lock_state]) (Some 1) w) (\<lambda>(rc, resp, _) w.
       Ret (rc, case resp of Some [b] \<Rightarrow> b | _ \<Rightarrow> lock_state) w)"

definition trusty_write_lock_state ::
  "'e platform \<Rightarrow> 'e rpmb_impl \<Rightarrow> u8 \<Rightarrow> ('e, 'z) client_world_scheme \<Rightarrow>
   (int, ('e, 'z) client_world_scheme) outcome"
where
  "trusty_write_lock_state P I lock_state w =
     obind (avb_do_tipc P I WRITE_LOCK_STATE (Some [lock_state]) 1 None None w) (\<lambda>(rc, _, _) w. Ret rc w)"

definition trusty_lock_boot_state ::
  "'e platform \<Rightarrow> 'e rpmb_impl \<Rightarrow> ('e, 'z) client_world_scheme \<Rightarrow>
   (int, ('e, 'z) client_world_scheme) outcome"
where
  "trusty_lock_boot_state P I w =
     obind (avb_do_tipc P I LOCK_BOOT_STATE None 0 None None w) (\<lambda>(rc, _, _) w. Ret rc w)"

section \<open>Lemmas: the message format\<close>

lemma length_avb_message_bytes [simp]: "length (avb_message_bytes m) = 8"
  by (simp add: avb_message_bytes_def)

interpretation avb_message_format: wire_format avb_message_bytes avb_message_of_bytes 8
proof unfold_locales
  fix x show "avb_message_of_bytes (avb_message_bytes x) = x"
    by (simp add: avb_message_of_bytes_def avb_message_bytes_def get_bytes_def)
next
  fix bs :: bytes assume len: "length bs = 8"
  then have "bs = get_bytes 0 4 bs @ get_bytes 4 4 bs"
    by (intro nth_equalityI) (auto simp: get_bytes_def nth_append intro!: arg_cong [where f = "(!) bs"])
  with len show "avb_message_bytes (avb_message_of_bytes bs) = bs"
    by (simp add: avb_message_bytes_def avb_message_of_bytes_def le_bytes_le_word)
qed simp

section \<open>The statics of the clients\<close>

text \<open>
  \<open>client_keeps\<close>: the static variables that the clients add to the proxy's world are unchanged.
  Nothing below the clients writes them, whatever handlers run.
\<close>

definition client_keeps ::
  "('e, 'z) proxy_world_scheme \<Rightarrow> ('e, 'z) proxy_world_scheme \<Rightarrow> bool"
where
  "client_keeps w w' \<longleftrightarrow> proxy_world.more w' = proxy_world.more w"

lemma client_keeps_refl [simp]: "client_keeps w w"
  by (simp add: client_keeps_def)

lemma transp_client_keeps: "transp client_keeps"
  by (rule transpI) (simp add: client_keeps_def)

lemma stays_client_keeps: "stays w w' \<Longrightarrow> client_keeps w w'"
  by (cases w, cases w') (simp add: stays_def client_keeps_def)

lemma machine_client_keeps:
  "keeps client_keeps w (sys_call P c w)" "keeps client_keeps w (smc8 P args w)"
  by (rule keeps_mono [OF sys_call_stays] keeps_mono [OF smc8_stays], erule stays_client_keeps)+

lemma shm_write_client_keeps: "keeps client_keeps w (shm_write va off bs w)"
  by (rule keeps_mono [OF shm_write_keeps]) (auto simp: shapely_def intro: stays_client_keeps)

lemma upd_chan_client_keeps: "keeps client_keeps w (upd_chan c f w)"
  by (auto simp: upd_chan_def client_keeps_def split: option.splits)

interpretation client_frame: proxy_frame P client_keeps I for P I
  by unfold_locales
     (auto simp: transp_client_keeps machine_client_keeps shm_write_client_keeps upd_chan_client_keeps
        rpmb_storage_send_def Let_def client_keeps_def split: prod.splits)

lemma client_keeps_fields:
  "client_keeps w w' \<Longrightarrow> avb_initialized w' = avb_initialized w \<and> km_initialized w' = km_initialized w"
  by (cases w, cases w') (simp add: client_keeps_def)

section \<open>Lemmas: one exchange\<close>

text \<open>The message header and the caller's buffer as the client passes them to the channel.\<close>

abbreviation (input) avb_iovs :: "avb_message \<Rightarrow> bytes option \<Rightarrow> u64 \<Rightarrow> trusty_ipc_iovec list" where
  "avb_iovs msg body n \<equiv>
     (case body of None \<Rightarrow> [\<lparr>iov_base = avb_message_bytes msg, iov_len = 8\<rparr>]
      | Some bs \<Rightarrow> [\<lparr>iov_base = avb_message_bytes msg, iov_len = 8\<rparr>, \<lparr>iov_base = bs, iov_len = n\<rparr>])"

definition opt_body :: "bytes option \<Rightarrow> nat \<Rightarrow> bytes" where
  "opt_body body n = (case body of None \<Rightarrow> [] | Some bs \<Rightarrow> take n bs)"

lemma avb_recv_shape:
  assumes "trusty_ipc_recv P tab c (avb_iovs msg resp n) True w = Ret (r, js) w'" "unat n < 2 ^ 31 - 8"
  shows "\<exists>hdr body. js = hdr # body \<and> length (iov_base hdr) = 8 \<and> r \<le> 8 + int (unat n) \<and>
    map_option length (map_option (\<lambda>_. iov_base (js ! 1)) resp) = map_option length resp"
proof (cases resp)
  case None
  with assms(1) show ?thesis
    by (auto simp: add_increasing2 dest!: ipc_transport.recv_one)
next
  case (Some bs)
  with assms show ?thesis
    by (auto dest!: ipc_transport.recv_two)
qed

lemma avb_send_request_transmitted:
  assumes "avb_send_request P I msg req n w = Ret r w'" "0 \<le> r" "chans_ok w"
    and "\<And>bs. req = Some bs \<Longrightarrow> unat n \<le> length bs" "unat n < 2 ^ 32"
  shows "r = 0 \<and> transmitted P avb_chan (avb_message_bytes msg @ opt_body req (unat n)) w w'"
proof -
  have "list_all iov_ok (avb_iovs msg req n)" "iov_total (avb_iovs msg req n) < 2 ^ 64"
    using assms(4,5) by (auto simp: iov_ok_def split: option.splits)
  with trusty_ipc_send_transmitted [OF assms(1) [unfolded avb_send_request_def Let_def] assms(2,3)]
  show ?thesis by (cases req) (auto simp: opt_body_def)
qed

text \<open>A frame of the proxy, on a world with the clients' statics, is kept by every exchange.\<close>

locale service_frame = proxy_frame P R I
  for P :: "'e platform" and R :: "('e, 'z) client_world_scheme \<Rightarrow> ('e, 'z) client_world_scheme \<Rightarrow> bool"
    and I :: "'e rpmb_impl"
begin

lemma avb_do_tipc_frame: "keeps R w (avb_do_tipc P I cmd req n resp sz w)"
  unfolding avb_do_tipc_def avb_send_request_def avb_read_response_def Let_def obind_assoc
  by (intro keeps_bind keeps_return keeps_if keeps_case_prod handlers.send_frame handlers.recv_frame)

lemma avb_get_version_frame: "keeps R w (avb_get_version P I w)"
  unfolding avb_get_version_def
  by (intro keeps_bind avb_do_tipc_frame keeps_case_prod keeps_return)

end

interpretation client_service: service_frame P client_keeps I for P I ..

text \<open>
  \<open>avb_accepted\<close>: the reply that the client took from the channel had at least a full header that
  acknowledges the command without an error; the caller got the payload and its size, which is at
  most the room announced.
\<close>

definition avb_accepted ::
  "'e platform \<Rightarrow> 'e rpmb_impl \<Rightarrow> u32 \<Rightarrow> bytes option \<Rightarrow> u32 option \<Rightarrow>
   ('e, 'z) client_world_scheme \<Rightarrow> bytes option \<Rightarrow> u32 option \<Rightarrow> ('e, 'z) client_world_scheme \<Rightarrow> bool"
where
  "avb_accepted P I cmd resp sz w1 resp' sz' w' \<longleftrightarrow>
     (\<exists>r js.
        trusty_ipc_recv P (tipc_ops P I) avb_chan
          (avb_iovs \<lparr>avb_cmd = cmd, avb_result = 0\<rparr> resp (ucast (case sz of None \<Rightarrow> 0 | Some n \<Rightarrow> n)))
          True w1 = Ret (r, js) w' \<and>
        avb_message_of_bytes (iov_base (js ! 0)) =
          \<lparr>avb_cmd = cmd OR AVB_RESP_BIT, avb_result = AVB_ERROR_NONE\<rparr> \<and>
        resp' = map_option (\<lambda>_. iov_base (js ! 1)) resp \<and>
        sz' = map_option (\<lambda>_. word_of_int (r - 8)) sz \<and>
        8 \<le> r \<and> (\<forall>n. sz = Some n \<longrightarrow> r - 8 \<le> int (unat n)))"

lemma avb_recv_cases:
  assumes "avb_do_tipc P I cmd req n resp sz w = Ret (rc, resp', sz') w'"
  obtains "rc < 0" "resp' = resp" "sz' = sz"
  | w1 r js where "avb_initialized w \<or> cmd = AVB_GET_VERSION"
    "avb_send_request P I \<lparr>avb_cmd = cmd, avb_result = 0\<rparr> req (ucast n) w = Ret 0 w1"
    "trusty_ipc_recv P (tipc_ops P I) avb_chan
      (avb_iovs \<lparr>avb_cmd = cmd, avb_result = 0\<rparr> resp (ucast (case sz of None \<Rightarrow> 0 | Some n \<Rightarrow> n)))
      True w1 = Ret (r, js) w'"
    "resp' = map_option (\<lambda>_. iov_base (js ! 1)) resp"
    "rc < 0 \<or> rc = 0 \<and> 8 \<le> r \<and> sz' = map_option (\<lambda>_. word_of_int (r - 8)) sz \<and>
      avb_message_of_bytes (iov_base (js ! 0)) =
        \<lparr>avb_cmd = cmd OR AVB_RESP_BIT, avb_result = AVB_ERROR_NONE\<rparr>"
proof (cases "\<not> avb_initialized w \<and> cmd \<noteq> AVB_GET_VERSION")
  case True
  with assms that(1) show ?thesis by (simp add: avb_do_tipc_def trusty_err_defs)
next
  case False
  from assms False obtain r0 w1 where
    s: "avb_send_request P I \<lparr>avb_cmd = cmd, avb_result = 0\<rparr> req (ucast n) w = Ret r0 w1"
    by (auto simp: avb_do_tipc_def Let_def outcome_simps)
  show ?thesis
  proof (cases "r0 < 0")
    case True
    with assms s False that(1) show ?thesis by (auto simp: avb_do_tipc_def Let_def)
  next
    case neg: False
    from s have "r0 \<le> 0" unfolding avb_send_request_def Let_def by (rule trusty_ipc_send_result)
    with neg have r0: "r0 = 0" by simp
    from assms False s r0 obtain r js w2 where
      v: "trusty_ipc_recv P (tipc_ops P I) avb_chan
      (avb_iovs \<lparr>avb_cmd = cmd, avb_result = 0\<rparr> resp (ucast (case sz of None \<Rightarrow> 0 | Some n \<Rightarrow> n)))
      True w1 = Ret (r, js) w2"
      by (auto simp: avb_do_tipc_def avb_read_response_def Let_def outcome_simps)
    show ?thesis
      by (rule that(2) [of w1 r js])
         (use assms False s r0 v in \<open>auto simp: avb_do_tipc_def avb_read_response_def Let_def
            trusty_err_defs split: if_splits\<close>)
  qed
qed

section \<open>Properties\<close>

text \<open>
  C15: an exchange with the AVB service. A client that is not initialised gets an error, without any
  effect, for every command but the version query. When \<open>avb_do_tipc\<close> returns 0, the one message
  transmitted on the client's channel was the header with the command and the whole request, and
  the reply taken from the channel had at least a full header, acknowledged this very command and
  carried no error; the caller gets its payload and the payload's size, at most the room it
  announced. Every other result is negative; the caller's buffer never changes its size.
\<close>

theorem avb_do_tipc_exchange:
  assumes "chans_ok w" "\<And>bs. req = Some bs \<Longrightarrow> unat n \<le> length bs"
    and "\<And>k. sz = Some k \<Longrightarrow> unat k < 2 ^ 31 - 8"
  shows "(\<not> avb_initialized w \<and> cmd \<noteq> AVB_GET_VERSION \<longrightarrow>
      avb_do_tipc P I cmd req n resp sz w = Ret (TRUSTY_ERR_GENERIC, resp, sz) w) \<and>
    on_ret (\<lambda>(rc, resp', sz') w'.
        rc \<le> 0 \<and> map_option length resp' = map_option length resp \<and>
        (rc = 0 \<longrightarrow> (\<exists>w1. transmitted P avb_chan (le32 cmd @ le32 0 @ opt_body req (unat n)) w w1 \<and>
          avb_accepted P I cmd resp sz w1 resp' sz' w')))
      (avb_do_tipc P I cmd req n resp sz w)"
proof (intro conjI impI on_retI, goal_cases)
  case 1
  then show ?case by (simp add: avb_do_tipc_def)
next
  case (2 p w')
  obtain rc resp' sz' where p: "p = (rc, resp', sz')" by (cases p)
  let ?k = "ucast (case sz of None \<Rightarrow> 0 | Some k \<Rightarrow> k) :: u64"
  have k: "unat ?k < 2 ^ 31 - 8" using assms(3) by (cases sz) auto
  from 2 p have r: "avb_do_tipc P I cmd req n resp sz w = Ret (rc, resp', sz') w'" by simp
  then show ?case
  proof (cases rule: avb_recv_cases)
    case 1
    with p show ?thesis by simp
  next
    case (2 w1 r js)
    from avb_recv_shape [OF 2(3) k] obtain hdr body where js: "js = hdr # body" "r \<le> 8 + int (unat ?k)"
      "map_option length (map_option (\<lambda>_. iov_base (js ! 1)) resp) = map_option length resp" by blast
    have "unat (ucast n :: u64) \<le> length bs" if "req = Some bs" for bs
      using assms(2) [OF that] by simp
    with avb_send_request_transmitted [OF 2(2) _ assms(1)]
    have t: "transmitted P avb_chan (le32 cmd @ le32 0 @ opt_body req (unat n)) w w1"
      using unsigned_less [of n, where 'a = nat] by (simp add: avb_message_bytes_def)
    have "rc = 0 \<Longrightarrow> avb_accepted P I cmd resp sz w1 resp' sz' w'"
      unfolding avb_accepted_def using 2(3-5) js
      by (intro exI [of _ r] exI [of _ js]) (cases sz; auto)
    with p js 2(4,5) t show ?thesis by auto
  qed
qed

definition demo_client_world ::
  "u64 \<Rightarrow> bool \<Rightarrow> (smc_ret8 \<times> (u64 \<times> bytes) option) list \<Rightarrow> script client_world"
where
  "demo_client_world c init replies =
     \<lparr>env = (replies, 0x8000), calls = [],
      shm = [0x1000 \<mapsto> replicate 4096 0, 0x3000 \<mapsto> replicate 4096 0],
      chans = [c \<mapsto> demo_chan\<lparr>ch_handle := 3\<rparr>],
      rp_initialized = False, proxy_rpmb = 0,
      req_msg = \<lparr>sm_cmd = 0, sm_op_id = 0, sm_flags = 0, sm_size = 0, sm_result = 0, sm_reserved = 0\<rparr>,
      req_buf = replicate 4096 0, read_buf = replicate 4096 0, avb_initialized = init, km_initialized = init\<rparr>"

lemma demo_client_script: "script_world c (replies, 0x8000) (demo_client_world c init replies)"
  by (simp add: script_chan_def demo_client_world_def demo_chan_def)

lemma demo_client_ok: "chans_ok (demo_client_world c init replies)"
  by (auto simp: chans_ok_def demo_client_world_def demo_chan_def idev_ok_def dev_ready_def demo_idev_def
      demo_dev_def PAGE_SIZE_def split: if_splits)

text \<open>A query on the scripted platform: the service answers with \<open>payload\<close>.\<close>

lemma script_avb_query:
  assumes "script_world avb_chan (script_exchange avb_chan (le32 (cmd OR AVB_RESP_BIT) @ le32 0 @ payload) @ rest, a) w"
    and "avb_initialized w \<or> cmd = AVB_GET_VERSION" "length payload \<le> length buf" "length buf \<le> 4072"
  shows "\<exists>w'. avb_do_tipc script_platform I cmd None 0 (Some buf) (Some (of_nat (length buf))) w =
      Ret (0, Some (put_bytes 0 payload buf), Some (of_nat (length payload))) w' \<and>
    script_world avb_chan (rest, a) w' \<and> world.more w' = world.more w"
proof -
  let ?m = "le32 (cmd OR AVB_RESP_BIT) @ le32 0 @ payload"
  let ?hdr = "\<lparr>iov_base = avb_message_bytes \<lparr>avb_cmd = cmd, avb_result = 0\<rparr>, iov_len = 8\<rparr>"
  let ?iovs = "[?hdr, \<lparr>iov_base = buf, iov_len = of_nat (length buf)\<rparr>]"
  have n: "unat (of_nat (length buf) :: u64) = length buf" using assms(4) by (simp add: unat_of_nat)
  have ok: "list_all iov_ok [?hdr]" "iov_total [?hdr] \<le> 4080" "list_all iov_ok ?iovs"
    "length ?m \<le> iov_total ?iovs" "length ?m \<le> 4080"
    using assms(3,4) n by (simp_all add: iov_ok_def)
  have tab: "tipc_ops script_platform I Sync_ipc_ops = sync_ipc_ops" by (simp add: tipc_ops_def)
  obtain w1 w2 where x:
    "trusty_ipc_send script_platform (tipc_ops script_platform I) avb_chan [?hdr] True w = Ret 0 w1"
    "trusty_ipc_recv script_platform (tipc_ops script_platform I) avb_chan ?iovs True w1 =
      Ret (int (length ?m), scatter ?iovs ?m) w2" "script_world avb_chan (rest, a) w2"
    "world.more w2 = world.more w"
    using script_session [where tab = "tipc_ops script_platform I", OF assms(1) tab ok] by blast
  have s: "scatter ?iovs ?m = [\<lparr>iov_base = le32 (cmd OR AVB_RESP_BIT) @ le32 0, iov_len = 8\<rparr>,
      \<lparr>iov_base = put_bytes 0 payload buf, iov_len = of_nat (length buf)\<rparr>]"
    using assms(3) n by (simp add: avb_message_bytes_def put_bytes_def)
  have u: "(ucast (of_nat (length buf) :: u32) :: u64) = of_nat (length buf)"
    using assms(4) n by (simp add: word_unat_eq_iff unat_of_nat)
  show ?thesis
    using x(3,4) assms(2)
    by (auto simp: avb_do_tipc_def avb_send_request_def avb_read_response_def x(1) x(2) [unfolded s] u Let_def
        avb_message_of_bytes_def get_bytes_def AVB_ERROR_NONE_def trusty_err_defs simp del: le_bytes_zero)
qed

lemma avb_do_tipc_exchange_witness:
  "\<exists>w1 w'. transmitted script_platform avb_chan (le32 4 @ le32 0)
      (demo_client_world avb_chan False (script_exchange avb_chan (le32 5 @ le32 0 @ le32 1))) w1 \<and>
    avb_accepted script_platform demo_rpmb 4 (Some (replicate 4 0)) (Some 4) w1 (Some (le32 1)) (Some 4) w'"
proof -
  let ?w = "demo_client_world avb_chan False (script_exchange avb_chan (le32 5 @ le32 0 @ le32 1))"
  have c: "AVB_GET_VERSION = 4" by (simp add: AVB_GET_VERSION_def AVB_REQ_SHIFT_def)
  have "script_world avb_chan (script_exchange avb_chan (le32 (4 OR AVB_RESP_BIT) @ le32 0 @ le32 1) @ [], 0x8000) ?w"
    using demo_client_script by (simp add: AVB_RESP_BIT_def)
  from script_avb_query [OF this, of "replicate 4 0" demo_rpmb] c obtain w' where
    r: "avb_do_tipc script_platform demo_rpmb 4 None 0 (Some (replicate 4 0)) (Some 4) ?w =
      Ret (0, Some (le32 1), Some 4) w'"
    by (auto simp: put_bytes_def)
  have "chans_ok ?w" by (rule demo_client_ok)
  from avb_do_tipc_exchange [OF this, where req = None and n = 0 and sz = "Some 4"
      and resp = "Some (replicate 4 0)" and cmd = 4 and P = script_platform and I = demo_rpmb] r
  show ?thesis by (auto simp: opt_body_def)
qed

lemma avb_do_tipc_fits:
  assumes "avb_do_tipc P I cmd req n (Some buf) (Some k) w = Ret (0, resp', sz') w'"
    and "unat k < 2 ^ 31 - 8"
  shows "\<exists>reply k'. resp' = Some reply \<and> sz' = Some k' \<and> length reply = length buf \<and> unat k' \<le> unat k"
  using assms(1)
proof (cases rule: avb_recv_cases)
  case (2 w1 r js)
  have "unat (ucast k :: u64) < 2 ^ 31 - 8" using assms(2) by simp
  from avb_recv_shape [where resp = "Some buf", OF _ this, simplified, OF 2(3) [simplified]]
  have js: "length (iov_base (js ! 1)) = length buf" "r \<le> 8 + uint k" by auto
  from 2(5) have r: "8 \<le> r" and k': "sz' = Some (word_of_int (r - 8))" by auto
  with js(2) have "uint (word_of_int (r - 8) :: u32) = r - 8"
    using uint_lt2p [of k] by (intro word_of_int_inverse [OF refl]) auto
  with js r have "uint (word_of_int (r - 8) :: u32) \<le> uint k" by simp
  with js k' 2(4) show ?thesis by (simp add: word_le_def flip: word_le_nat_alt)
qed simp

text \<open>
  C16: reading the permanent attributes stays inside of the caller's buffer. Whatever the service
  answers, the buffer keeps its size, it is written only when the call returns 0, and then the
  service sent exactly as many bytes as the caller asked for and these are the ones stored. For a
  buffer of the announced size the copy itself is never out of bounds: the call can only go wrong
  where the exchange below it does.
\<close>

theorem trusty_read_permanent_attributes_safe:
  assumes "unat sz \<le> length attributes"
  shows "on_ret (\<lambda>(rc, attrs) w'. length attrs = length attributes \<and> (rc \<noteq> 0 \<longrightarrow> attrs = attributes) \<and>
      (rc = 0 \<longrightarrow> (\<exists>reply.
        avb_do_tipc P I READ_PERMANENT_ATTRIBUTES None 0 (Some (uninit P 2048)) (Some 2048) w =
          Ret (0, Some reply, Some sz) w' \<and> unat sz \<le> length reply \<and>
        attrs = take (unat sz) reply @ drop (unat sz) attributes)))
      (trusty_read_permanent_attributes P I attributes sz w) \<and>
    (trusty_read_permanent_attributes P I attributes sz w = Fault \<longleftrightarrow>
      avb_do_tipc P I READ_PERMANENT_ATTRIBUTES None 0 (Some (uninit P 2048)) (Some 2048) w = Fault)"
proof -
  let ?m = "avb_do_tipc P I READ_PERMANENT_ATTRIBUTES None 0 (Some (uninit P 2048)) (Some 2048) w"
  have fits: "\<exists>reply. resp' = Some reply \<and> unat k \<le> length reply"
    if "?m = Ret (0, resp', Some k) w'" for resp' k w'
    using avb_do_tipc_fits [OF that] by (auto simp: uninit_def)
  have n: "AVB_MAX_BUFFER_LENGTH = 2048" "of_nat AVB_MAX_BUFFER_LENGTH = (2048 :: u32)"
    by (simp_all add: AVB_MAX_BUFFER_LENGTH_def)
  show ?thesis
  proof (cases ?m)
    case (Ret p w')
    obtain rc resp' sz' where p: "p = (rc, resp', sz')" by (cases p)
    show ?thesis
    proof (cases "rc = 0 \<and> sz' = Some sz")
      case True
      with Ret p fits obtain reply where reply: "resp' = Some reply" "unat sz \<le> length reply" by auto
      with True Ret p assms show ?thesis
        by (simp add: trusty_read_permanent_attributes_def n put_bytes_def min_absorb2)
    next
      case False
      with Ret p show ?thesis
        by (auto simp: trusty_read_permanent_attributes_def n trusty_err_defs)
    qed
  qed (simp_all add: trusty_read_permanent_attributes_def n)
qed

lemma trusty_read_permanent_attributes_safe_witness:
  "\<exists>w'. trusty_read_permanent_attributes script_platform demo_rpmb [0, 0, 0, 9] 3
      (demo_client_world avb_chan True (script_exchange avb_chan (le32 7 @ le32 0 @ [5, 6, 7]))) =
    Ret (0, [5, 6, 7, 9]) w'"
proof -
  let ?w = "demo_client_world avb_chan True (script_exchange avb_chan (le32 7 @ le32 0 @ [5, 6, 7]))"
  have c: "READ_PERMANENT_ATTRIBUTES = 6" by (simp add: READ_PERMANENT_ATTRIBUTES_def AVB_REQ_SHIFT_def)
  have "script_world avb_chan (script_exchange avb_chan (le32 (6 OR AVB_RESP_BIT) @ le32 0 @ [5, 6, 7]) @ [], 0x8000) ?w"
    using demo_client_script by (simp add: AVB_RESP_BIT_def)
  moreover have "avb_initialized ?w" by (simp add: demo_client_world_def)
  ultimately obtain w' where
    "avb_do_tipc script_platform demo_rpmb 6 None 0 (Some (uninit script_platform 2048)) (Some 2048) ?w =
      Ret (0, Some (put_bytes 0 [5, 6, 7] (uninit script_platform 2048)), Some 3) w'"
    using script_avb_query [where buf = "uninit script_platform 2048" and payload = "[5, 6, 7]"]
    by (fastforce simp: uninit_def)
  moreover from this have "\<exists>rc bs. trusty_read_permanent_attributes script_platform demo_rpmb [0, 0, 0, 9] 3 ?w =
      Ret (rc, bs) w' \<and> rc = 0"
    by (simp add: trusty_read_permanent_attributes_def c AVB_MAX_BUFFER_LENGTH_def uninit_def put_bytes_def)
  ultimately show ?thesis
    using trusty_read_permanent_attributes_safe [of 3 "[0, 0, 0, 9]" script_platform demo_rpmb ?w]
    by (auto simp: c put_bytes_def)
qed

section \<open>Starting the client on the scripted platform\<close>

text \<open>The service accepts the connection and answers the version query with version 1.\<close>

definition script_avb_start :: "u32 \<Rightarrow> (smc_ret8 \<times> (u64 \<times> bytes) option) list" where
  "script_avb_start h = script_connection avb_chan h @ script_exchange avb_chan (le32 5 @ le32 0 @ le32 1)"

lemma script_avb_init:
  fixes w :: "(script, 'z) client_world_scheme"
  assumes "script_mem (script_avb_start h @ rest, a) w" "0 \<le> c_int h"
  shows "\<exists>w'. avb_tipc_init script_platform I demo_idev w = Ret 0 w' \<and> avb_initialized w' \<and>
    script_world avb_chan (rest, a) w' \<and> client_world.more w' = client_world.more w \<and>
    rp_initialized w' = rp_initialized w"
proof -
  let ?tab = "tipc_ops script_platform I :: (script, _) ops_table"
  let ?s = "script_exchange avb_chan (le32 5 @ le32 0 @ le32 1) @ rest"
  from script_chan_init [OF assms(1), of avb_chan] obtain w1 where
    w1: "trusty_ipc_chan_init avb_chan demo_idev w = Ret () w1" "world.more w1 = world.more w"
      "script_world avb_chan (script_connection avb_chan h @ ?s, a) w1" by (auto simp: script_avb_start_def)
  have tab: "?tab Sync_ipc_ops = sync_ipc_ops" by (simp add: tipc_ops_def)
  have port: "length AVB_PORT \<le> 4063" by (simp add: AVB_PORT_def cstr_def)
  from script_connect [where tab = ?tab, OF w1(3) tab port assms(2)] obtain w2 where
    w2: "trusty_ipc_connect script_platform ?tab avb_chan AVB_PORT True w1 = Ret 1 w2"
      "script_world avb_chan (?s, a) w2" "world.more w2 = world.more w1" by blast
  have v: "AVB_GET_VERSION OR AVB_RESP_BIT = 5" "AVB_GET_VERSION = 4"
    by (simp_all add: AVB_GET_VERSION_def AVB_REQ_SHIFT_def AVB_RESP_BIT_def)
  have "script_world avb_chan (script_exchange avb_chan (le32 (AVB_GET_VERSION OR AVB_RESP_BIT) @ le32 0 @ le32 1) @ rest, a) w2"
    using w2(2) by (simp only: v(1))
  from script_avb_query [OF this, of "uninit script_platform 4" I] obtain w3 where
    w3: "avb_do_tipc script_platform I AVB_GET_VERSION None 0 (Some (uninit script_platform 4)) (Some 4) w2 =
        Ret (0, Some (le32 1), Some 4) w3" "script_world avb_chan (rest, a) w3" "world.more w3 = world.more w2"
    by (auto simp: uninit_def put_bytes_def)
  then have "avb_tipc_init script_platform I demo_idev w = Ret 0 (w3\<lparr>avb_initialized := True\<rparr>)"
    using w1(1) w2(1)
    by (simp add: avb_tipc_init_def avb_get_version_def avb_tipc_version_def trusty_err_defs Let_def)
  moreover have "client_world.more w3 = client_world.more w" "rp_initialized w3 = rp_initialized w"
    using w3(3) w2(3) w1(2) by (cases w, cases w1, cases w2, cases w3, simp)+
  ultimately show ?thesis using w3(2) by (simp add: script_chan_def)
qed
end
