(* ===== verification/Keymaster_Serializable.thy ===== *)
theory Keymaster_Serializable
  imports Ipc_Dev
begin

text \<open>
  The serializers of keymaster requests, \<open>ql-tipc/keymaster_serializable.c\<close>, with the structures
  of \<open>interface/keymaster/keymaster.h\<close>. A pointer to input data is \<open>None\<close> when it is null; a
  serializer allocates a zeroed object and fills it through a moving position. The lemmas show that
  the object is the encoding of the structure, that the encoding can be taken apart again, and what
  happens when the 32 bit size of the object wraps around.
\<close>

section \<open>Structures\<close>

record km_boot_params =
  kb_os_version :: u32
  kb_os_patchlevel :: u32
  kb_device_locked :: u32
  kb_verified_boot_state :: u32
  kb_verified_boot_key_hash_size :: u32
  kb_verified_boot_key_hash :: "bytes option"
  kb_verified_boot_hash_size :: u32
  kb_verified_boot_hash :: "bytes option"

record km_attestation_data =
  ka_algorithm :: u32
  ka_data_size :: u32
  ka_data :: "bytes option"

record km_raw_buffer =
  kr_data_size :: u32
  kr_data :: "bytes option"

section \<open>Appending to a buffer\<close>

text \<open>
  A write position in a buffer and the buffer. A copy that reads past the end of the source or
  writes past the end of the buffer has no result.
\<close>

definition append_to_buf :: "bytes option \<Rightarrow> u64 \<Rightarrow> nat \<times> bytes \<Rightarrow> (nat \<times> bytes) option" where
  "append_to_buf data data_len pb =
     (case pb of (pos, buf) \<Rightarrow>
        (case data of
           None \<Rightarrow> Some (pos + unat data_len, buf)
         | Some d \<Rightarrow>
             if data_len = 0 then Some (pos + unat data_len, buf)
             else if length d < unat data_len \<or> length buf < pos + unat data_len then None
             else Some (pos + unat data_len, put_bytes pos (take (unat data_len) d) buf)))"

definition append_uint32_to_buf :: "u32 \<Rightarrow> nat \<times> bytes \<Rightarrow> (nat \<times> bytes) option" where
  "append_uint32_to_buf val = append_to_buf (Some (le32 val)) 4"

definition append_sized_buf_to_buf :: "bytes option \<Rightarrow> u32 \<Rightarrow> nat \<times> bytes \<Rightarrow> (nat \<times> bytes) option" where
  "append_sized_buf_to_buf data data_len pb =
     Option.bind (append_uint32_to_buf data_len pb) (append_to_buf data (ucast data_len))"

section \<open>Serializers\<close>

text \<open>
  The result of a serializer is its return value, the address and the content of \<open>*out\<close> and the
  value of \<open>*out_size\<close>. \<open>params\<close> is \<open>None\<close> for a null pointer, \<open>outs\<close> says that neither of the
  output pointers is null.
\<close>

definition km_boot_params_serialize ::
  "'e platform \<Rightarrow> km_boot_params option \<Rightarrow> bool \<Rightarrow> ('e, 'z) machine_scheme \<Rightarrow>
   (int \<times> u64 \<times> bytes \<times> u32, ('e, 'z) machine_scheme) outcome"
where
  "km_boot_params_serialize P params outs w =
     (case params of
        None \<Rightarrow> Ret (TRUSTY_ERR_INVALID_ARGS, 0, [], 0) w
      | Some p \<Rightarrow>
          if \<not> outs then Ret (TRUSTY_ERR_INVALID_ARGS, 0, [], 0) w else
          let out_size = 4 + 4 + 4 + 4 + 4 + 4 + kb_verified_boot_key_hash_size p +
                kb_verified_boot_hash_size p in
          obind (trusty_calloc P (ucast out_size) 1 w) (\<lambda>out w.
          if out = 0 then Ret (TRUSTY_ERR_NO_MEMORY, 0, [], out_size) w else
          (case
             Option.bind (append_uint32_to_buf (kb_os_version p) (0, replicate (unat out_size) 0)) (\<lambda>tmp.
             Option.bind (append_uint32_to_buf (kb_os_patchlevel p) tmp) (\<lambda>tmp.
             Option.bind (append_uint32_to_buf (kb_device_locked p) tmp) (\<lambda>tmp.
             Option.bind (append_uint32_to_buf (kb_verified_boot_state p) tmp) (\<lambda>tmp.
             Option.bind (append_sized_buf_to_buf (kb_verified_boot_key_hash p)
               (kb_verified_boot_key_hash_size p) tmp) (\<lambda>tmp.
             append_sized_buf_to_buf (kb_verified_boot_hash p) (kb_verified_boot_hash_size p) tmp)))))
           of None \<Rightarrow> Fault | Some (_, buf) \<Rightarrow> Ret (TRUSTY_ERR_NONE, out, buf, out_size) w)))"

definition km_attestation_data_serialize ::
  "'e platform \<Rightarrow> km_attestation_data option \<Rightarrow> bool \<Rightarrow> ('e, 'z) machine_scheme \<Rightarrow>
   (int \<times> u64 \<times> bytes \<times> u32, ('e, 'z) machine_scheme) outcome"
where
  "km_attestation_data_serialize P data outs w =
     (case data of
        None \<Rightarrow> Ret (TRUSTY_ERR_INVALID_ARGS, 0, [], 0) w
      | Some d \<Rightarrow>
          if \<not> outs then Ret (TRUSTY_ERR_INVALID_ARGS, 0, [], 0) w else
          let out_size = 4 + 4 + ka_data_size d in
          obind (trusty_calloc P (ucast out_size) 1 w) (\<lambda>out w.
          if out = 0 then Ret (TRUSTY_ERR_NO_MEMORY, 0, [], out_size) w else
          (case
             Option.bind (append_uint32_to_buf (ka_algorithm d) (0, replicate (unat out_size) 0)) (\<lambda>tmp.
             append_sized_buf_to_buf (ka_data d) (ka_data_size d) tmp)
           of None \<Rightarrow> Fault | Some (_, buf) \<Rightarrow> Ret (TRUSTY_ERR_NONE, out, buf, out_size) w)))"

definition km_raw_buffer_serialize ::
  "'e platform \<Rightarrow> km_raw_buffer option \<Rightarrow> bool \<Rightarrow> ('e, 'z) machine_scheme \<Rightarrow>
   (int \<times> u64 \<times> bytes \<times> u32, ('e, 'z) machine_scheme) outcome"
where
  "km_raw_buffer_serialize P buf outs w =
     (case buf of
        None \<Rightarrow> Ret (TRUSTY_ERR_INVALID_ARGS, 0, [], 0) w
      | Some b \<Rightarrow>
          if \<not> outs then Ret (TRUSTY_ERR_INVALID_ARGS, 0, [], 0) w else
          let out_size = 4 + kr_data_size b in
          obind (trusty_calloc P (ucast out_size) 1 w) (\<lambda>out w.
          if out = 0 then Ret (TRUSTY_ERR_NO_MEMORY, 0, [], out_size) w else
          (case append_sized_buf_to_buf (kr_data b) (kr_data_size b) (0, replicate (unat out_size) 0)
           of None \<Rightarrow> Fault | Some (_, bs) \<Rightarrow> Ret (TRUSTY_ERR_NONE, out, bs, out_size) w)))"

section \<open>The encoding\<close>

text \<open>The bytes behind a data pointer; a null pointer stands for zeroes.\<close>

definition data_bytes :: "bytes option \<Rightarrow> u32 \<Rightarrow> bytes" where
  "data_bytes data n = (case data of None \<Rightarrow> replicate (unat n) 0 | Some d \<Rightarrow> take (unat n) d)"

definition data_ok :: "bytes option \<Rightarrow> u32 \<Rightarrow> bool" where
  "data_ok data n = (case data of None \<Rightarrow> True | Some d \<Rightarrow> unat n \<le> length d)"

definition sized_bytes :: "bytes option \<Rightarrow> u32 \<Rightarrow> bytes" where
  "sized_bytes data n = le32 n @ data_bytes data n"

definition km_boot_params_bytes :: "km_boot_params \<Rightarrow> bytes" where
  "km_boot_params_bytes p =
     le32 (kb_os_version p) @ le32 (kb_os_patchlevel p) @ le32 (kb_device_locked p) @
     le32 (kb_verified_boot_state p) @
     sized_bytes (kb_verified_boot_key_hash p) (kb_verified_boot_key_hash_size p) @
     sized_bytes (kb_verified_boot_hash p) (kb_verified_boot_hash_size p)"

definition km_attestation_data_bytes :: "km_attestation_data \<Rightarrow> bytes" where
  "km_attestation_data_bytes d = le32 (ka_algorithm d) @ sized_bytes (ka_data d) (ka_data_size d)"

definition km_raw_buffer_bytes :: "km_raw_buffer \<Rightarrow> bytes" where
  "km_raw_buffer_bytes b = sized_bytes (kr_data b) (kr_data_size b)"

text \<open>Taking an encoding apart: an integer, or data behind its size, and the rest.\<close>

definition get_uint32 :: "bytes \<Rightarrow> (u32 \<times> bytes) option" where
  "get_uint32 bs = (if length bs < 4 then None else Some (le_word (take 4 bs), drop 4 bs))"

definition get_sized :: "bytes \<Rightarrow> (bytes \<times> bytes) option" where
  "get_sized bs =
     Option.bind (get_uint32 bs) (\<lambda>(n, bs).
       if length bs < unat n then None else Some (take (unat n) bs, drop (unat n) bs))"

definition decode_boot_params :: "bytes \<Rightarrow> (u32 \<times> u32 \<times> u32 \<times> u32 \<times> bytes \<times> bytes) option" where
  "decode_boot_params bs =
     Option.bind (get_uint32 bs) (\<lambda>(v, bs).
     Option.bind (get_uint32 bs) (\<lambda>(pl, bs).
     Option.bind (get_uint32 bs) (\<lambda>(lck, bs).
     Option.bind (get_uint32 bs) (\<lambda>(st, bs).
     Option.bind (get_sized bs) (\<lambda>(kh, bs).
     Option.bind (get_sized bs) (\<lambda>(h, bs).
       if bs = [] then Some (v, pl, lck, st, kh, h) else None))))))"

definition decode_attestation_data :: "bytes \<Rightarrow> (u32 \<times> bytes) option" where
  "decode_attestation_data bs =
     Option.bind (get_uint32 bs) (\<lambda>(alg, bs).
     Option.bind (get_sized bs) (\<lambda>(d, bs). if bs = [] then Some (alg, d) else None))"

section \<open>Lemmas: appending\<close>

lemma length_data_bytes [simp]: "data_ok data n \<Longrightarrow> length (data_bytes data n) = unat n"
  by (simp add: data_bytes_def data_ok_def split: option.splits)

lemma length_sized_bytes [simp]: "data_ok data n \<Longrightarrow> length (sized_bytes data n) = 4 + unat n"
  by (simp add: sized_bytes_def)

text \<open>\<open>filled\<close>: what has been written at the start of a zeroed object of a given size.\<close>

definition filled :: "nat \<Rightarrow> bytes \<Rightarrow> nat \<times> bytes \<Rightarrow> bool" where
  "filled n bs pb \<longleftrightarrow> length bs \<le> n \<and> pb = (length bs, bs @ replicate (n - length bs) 0)"

lemma filled_start: "filled n [] (0, replicate n 0)"
  by (simp add: filled_def)

lemma append_to_buf_filled:
  assumes "filled n bs pb" "data_ok data k" "length bs + unat k \<le> n"
  shows "\<exists>pb'. append_to_buf data (ucast k) pb = Some pb' \<and> filled n (bs @ data_bytes data k) pb'"
proof -
  have split: "replicate (n - length bs) 0 = replicate (unat k) 0 @ replicate (n - (length bs + unat k)) (0 :: u8)"
    using assms(3) by (simp flip: replicate_add)
  from assms(1) have pb: "pb = (length bs, bs @ replicate (n - length bs) 0)" "length bs \<le> n"
    by (simp_all add: filled_def)
  show ?thesis
  proof (cases data)
    case None
    with assms(3) show ?thesis
      by (simp add: append_to_buf_def pb filled_def data_bytes_def split)
  next
    case (Some d)
    with assms(2) have d: "unat k \<le> length d" by (simp add: data_ok_def)
    show ?thesis
    proof (cases "k = 0")
      case True
      with Some pb show ?thesis by (simp add: append_to_buf_def filled_def data_bytes_def)
    next
      case False
      with Some d assms(3) pb show ?thesis
        by (simp add: append_to_buf_def filled_def data_bytes_def put_bytes_def)
    qed
  qed
qed

lemma append_uint32_filled:
  assumes "filled n bs pb" "length bs + 4 \<le> n"
  shows "\<exists>pb'. append_uint32_to_buf v pb = Some pb' \<and> filled n (bs @ le32 v) pb'"
  using append_to_buf_filled [OF assms(1), of "Some (le32 v)" 4] assms(2)
  by (simp add: append_uint32_to_buf_def data_ok_def data_bytes_def)

lemma append_sized_filled:
  assumes "filled n bs pb" "data_ok data k" "length bs + 4 + unat k \<le> n"
  shows "\<exists>pb'. append_sized_buf_to_buf data k pb = Some pb' \<and> filled n (bs @ sized_bytes data k) pb'"
proof -
  from append_uint32_filled [OF assms(1), of k] assms(3) obtain pb1 where
    p: "append_uint32_to_buf k pb = Some pb1" "filled n (bs @ le32 k) pb1" by auto
  from append_to_buf_filled [OF p(2) assms(2)] assms(3) p(1) show ?thesis
    by (auto simp: append_sized_buf_to_buf_def sized_bytes_def)
qed

lemma filled_full: "filled n bs pb \<Longrightarrow> length bs = n \<Longrightarrow> pb = (n, bs)"
  by (simp add: filled_def)

section \<open>Lemmas: serializers\<close>

text \<open>What a serializer does with the encoding of its structure.\<close>

definition serialized ::
  "'e platform \<Rightarrow> bytes \<Rightarrow> ('e, 'z) machine_scheme \<Rightarrow>
   (int \<times> u64 \<times> bytes \<times> u32, ('e, 'z) machine_scheme) outcome"
where
  "serialized P bs w =
     obind (trusty_calloc P (of_nat (length bs)) 1 w) (\<lambda>out w.
       Ret (if out = 0 then (TRUSTY_ERR_NO_MEMORY, 0, [], of_nat (length bs))
            else (TRUSTY_ERR_NONE, out, bs, of_nat (length bs))) w)"

lemma size_word:
  assumes "unat (x :: u32) = k"
  shows "x = of_nat k" "(ucast x :: u64) = of_nat k"
proof -
  show "x = of_nat k" using assms by (metis of_nat_unat ucast_id)
  have "unat (ucast x :: u64) = k" using assms by simp
  then show "(ucast x :: u64) = of_nat k" by (metis of_nat_unat ucast_id)
qed

lemma serialized_from:
  assumes "A = Some (k, bs)" "unat n = length bs"
  shows "obind (trusty_calloc P (ucast (n :: u32)) 1 w) (\<lambda>out w.
      if out = 0 then Ret (TRUSTY_ERR_NO_MEMORY, 0, [], n) w else
      (case A of None \<Rightarrow> Fault | Some (_, buf) \<Rightarrow> Ret (TRUSTY_ERR_NONE, out, buf, n) w)) =
    serialized P bs w"
  unfolding serialized_def assms(1) option.case prod.case size_word(2) [OF assms(2)]
  using size_word(1) [OF assms(2)]
  by (intro arg_cong [where f = "obind _"]) (auto simp: fun_eq_iff)

lemma km_raw_buffer_serialized:
  assumes "data_ok (kr_data b) (kr_data_size b)" "unat (kr_data_size b) < 2 ^ 32 - 4"
  shows "km_raw_buffer_serialize P (Some b) True w = serialized P (km_raw_buffer_bytes b) w"
proof -
  let ?n = "4 + kr_data_size b"
  have n: "unat ?n = length (km_raw_buffer_bytes b)"
    using assms by (simp add: km_raw_buffer_bytes_def unat_word_ariths(1))
  have "\<exists>pb. append_sized_buf_to_buf (kr_data b) (kr_data_size b) (0, replicate (unat ?n) 0) = Some pb \<and>
      filled (unat ?n) (km_raw_buffer_bytes b) pb"
    using append_sized_filled [OF filled_start assms(1), of "unat ?n"] assms n
    by (simp add: km_raw_buffer_bytes_def)
  then have a: "append_sized_buf_to_buf (kr_data b) (kr_data_size b) (0, replicate (unat ?n) 0) =
      Some (unat ?n, km_raw_buffer_bytes b)"
    using n by (auto dest: filled_full)
  show ?thesis
    unfolding km_raw_buffer_serialize_def option.case Let_def
    by (simp only: not_True_eq_False if_False) (rule serialized_from [OF a n])
qed

lemma km_attestation_data_serialized:
  assumes "data_ok (ka_data d) (ka_data_size d)" "unat (ka_data_size d) < 2 ^ 32 - 8"
  shows "km_attestation_data_serialize P (Some d) True w = serialized P (km_attestation_data_bytes d) w"
proof -
  let ?n = "4 + 4 + ka_data_size d"
  have n: "unat ?n = length (km_attestation_data_bytes d)"
    using assms by (simp add: km_attestation_data_bytes_def unat_word_ariths(1))
  have sz: "unat ?n = 8 + unat (ka_data_size d)" using assms by (simp add: unat_word_ariths(1))
  obtain pb where pb: "append_uint32_to_buf (ka_algorithm d) (0, replicate (unat ?n) 0) = Some pb"
    "filled (unat ?n) ([] @ le32 (ka_algorithm d)) pb"
    using append_uint32_filled [OF filled_start, of "unat ?n" "ka_algorithm d"] sz by auto
  with append_sized_filled [OF pb(2) assms(1)] sz
  have a: "Option.bind (append_uint32_to_buf (ka_algorithm d) (0, replicate (unat ?n) 0))
      (append_sized_buf_to_buf (ka_data d) (ka_data_size d)) = Some (unat ?n, km_attestation_data_bytes d)"
    using n by (auto dest!: filled_full simp: km_attestation_data_bytes_def)
  show ?thesis
    unfolding km_attestation_data_serialize_def option.case Let_def
    by (simp only: not_True_eq_False if_False) (rule serialized_from [OF a n])
qed

lemma append_uint32_next:
  assumes "filled n bs pb" "length bs + 4 \<le> n" "\<And>pb'. filled n (bs @ le32 v) pb' \<Longrightarrow> f pb' = r"
  shows "Option.bind (append_uint32_to_buf v pb) f = r"
  using append_uint32_filled [OF assms(1,2), of v] assms(3) by auto

lemma append_sized_next:
  assumes "filled n bs pb" "data_ok data k" "length bs + 4 + unat k \<le> n"
    and "\<And>pb'. filled n (bs @ sized_bytes data k) pb' \<Longrightarrow> f pb' = r"
  shows "Option.bind (append_sized_buf_to_buf data k pb) f = r"
  using append_sized_filled [OF assms(1-3)] assms(4) by auto

lemma km_boot_params_serialized:
  assumes "data_ok (kb_verified_boot_key_hash p) (kb_verified_boot_key_hash_size p)"
    and "data_ok (kb_verified_boot_hash p) (kb_verified_boot_hash_size p)"
    and "unat (kb_verified_boot_key_hash_size p) + unat (kb_verified_boot_hash_size p) < 2 ^ 32 - 24"
  shows "km_boot_params_serialize P (Some p) True w = serialized P (km_boot_params_bytes p) w"
proof -
  let ?ks = "kb_verified_boot_key_hash_size p" and ?hs = "kb_verified_boot_hash_size p"
  let ?n = "4 + 4 + 4 + 4 + 4 + 4 + ?ks + ?hs"
  have sz: "unat ?n = 24 + unat ?ks + unat ?hs" using assms(3) by (simp add: unat_word_ariths(1))
  then have n: "unat ?n = length (km_boot_params_bytes p)"
    using assms(1,2) by (simp add: km_boot_params_bytes_def)
  have a: "Option.bind (append_uint32_to_buf (kb_os_version p) (0, replicate (unat ?n) 0)) (\<lambda>tmp.
      Option.bind (append_uint32_to_buf (kb_os_patchlevel p) tmp) (\<lambda>tmp.
      Option.bind (append_uint32_to_buf (kb_device_locked p) tmp) (\<lambda>tmp.
      Option.bind (append_uint32_to_buf (kb_verified_boot_state p) tmp) (\<lambda>tmp.
      Option.bind (append_sized_buf_to_buf (kb_verified_boot_key_hash p) ?ks tmp) (\<lambda>tmp.
      append_sized_buf_to_buf (kb_verified_boot_hash p) ?hs tmp))))) = Some (unat ?n, km_boot_params_bytes p)"
  proof (rule append_uint32_next [OF filled_start], goal_cases)
    case (2 pb1)
    then show ?case
    proof (rule append_uint32_next, goal_cases)
      case (2 pb2)
      then show ?case
      proof (rule append_uint32_next, goal_cases)
        case (2 pb3)
        then show ?case
        proof (rule append_uint32_next, goal_cases)
          case (2 pb4)
          then show ?case
          proof (rule append_sized_next [OF _ assms(1)], goal_cases)
            case (2 pb5)
            from append_sized_filled [OF this assms(2)] assms(1) sz obtain pb6 where
              "append_sized_buf_to_buf (kb_verified_boot_hash p) ?hs pb5 = Some pb6"
              "filled (unat ?n) (km_boot_params_bytes p) pb6"
              by (auto simp: km_boot_params_bytes_def)
            with filled_full [OF this(2) n [symmetric]] show ?case by simp
          qed (use sz in simp)
        qed (use sz in simp)
      qed (use sz in simp)
    qed (use sz in simp)
  qed (use sz in simp)
  show ?thesis
    unfolding km_boot_params_serialize_def option.case Let_def
    by (simp only: not_True_eq_False if_False) (rule serialized_from [OF a n])
qed

section \<open>Lemmas: decoding\<close>

lemma get_uint32_append [simp]: "get_uint32 (le32 x @ bs) = Some (x, bs)"
  by (simp add: get_uint32_def)

lemma get_sized_append [simp]: "data_ok data n \<Longrightarrow> get_sized (sized_bytes data n @ bs) = Some (data_bytes data n, bs)"
  by (simp add: get_sized_def sized_bytes_def)

section \<open>Properties\<close>

text \<open>
  C17: the serializers produce the encodings. As long as the size of the encoding fits 32 bits and the
  data behind the pointers is as long as announced, each serializer allocates one object of exactly
  the size of the encoding, reports \<open>TRUSTY_ERR_NO_MEMORY\<close> when that fails, and otherwise returns the
  object filled with the encoding, field by field and each data block behind its size.
\<close>

theorem km_serializers_encode:
  assumes "data_ok (kb_verified_boot_key_hash p) (kb_verified_boot_key_hash_size p)"
    and "data_ok (kb_verified_boot_hash p) (kb_verified_boot_hash_size p)"
    and "unat (kb_verified_boot_key_hash_size p) + unat (kb_verified_boot_hash_size p) < 2 ^ 32 - 24"
    and "data_ok (ka_data d) (ka_data_size d)" "unat (ka_data_size d) < 2 ^ 32 - 8"
    and "data_ok (kr_data b) (kr_data_size b)" "unat (kr_data_size b) < 2 ^ 32 - 4"
  shows "km_boot_params_serialize P (Some p) True w = serialized P (km_boot_params_bytes p) w \<and>
    km_attestation_data_serialize P (Some d) True w = serialized P (km_attestation_data_bytes d) w \<and>
    km_raw_buffer_serialize P (Some b) True w = serialized P (km_raw_buffer_bytes b) w"
  using km_boot_params_serialized km_attestation_data_serialized km_raw_buffer_serialized assms by blast

definition demo_boot_params :: km_boot_params where
  "demo_boot_params =
     \<lparr>kb_os_version = 7, kb_os_patchlevel = 8, kb_device_locked = 1, kb_verified_boot_state = 0,
      kb_verified_boot_key_hash_size = 2, kb_verified_boot_key_hash = Some [1, 2],
      kb_verified_boot_hash_size = 1, kb_verified_boot_hash = None\<rparr>"

lemma km_serializers_encode_witness:
  "\<exists>w. km_boot_params_serialize script_platform (Some demo_boot_params) True (script_machine []) =
    Ret (0, 0x9000, le32 7 @ le32 8 @ le32 1 @ le32 0 @ le32 2 @ [1, 2] @ le32 1 @ [0], 27) w"
proof -
  have "serialized script_platform (km_boot_params_bytes demo_boot_params) (script_machine []) =
      Ret (0, 0x9000, le32 7 @ le32 8 @ le32 1 @ le32 0 @ le32 2 @ [1, 2] @ le32 1 @ [0], 27)
        ((script_machine [])\<lparr>calls := [C_calloc 27 1 0x9000]\<rparr>)"
    by (simp add: serialized_def trusty_calloc_def script_platform_def script_machine_def
        km_boot_params_bytes_def demo_boot_params_def sized_bytes_def data_bytes_def trusty_err_defs)
  then show ?thesis
    using km_serializers_encode [of demo_boot_params "\<lparr>ka_algorithm = 1, ka_data_size = 0, ka_data = None\<rparr>"
        "\<lparr>kr_data_size = 0, kr_data = None\<rparr>" script_platform "script_machine []"]
    by (auto simp: demo_boot_params_def data_ok_def)
qed



text \<open>
  The size of a request can wrap around. A raw buffer of almost 4 GiB makes
  the 32 bit object size wrap to less than the size of its own header, so the serializer writes past
  the object it allocated.
\<close>

theorem km_serializers_overflow:
  assumes "trusty_calloc P (ucast (4 + kr_data_size b)) 1 w = Ret out w'" "out \<noteq> 0"
    and "2 ^ 32 - 4 \<le> unat (kr_data_size b)"
  shows "km_raw_buffer_serialize P (Some b) True w = Fault"
proof -
  have "unat (4 + kr_data_size b) = 4 + unat (kr_data_size b) - 2 ^ 32"
    using assms(3) unsigned_less [of "kr_data_size b", where 'a = nat]
    by (simp add: unat_word_ariths(1) le_mod_geq)
  then have "unat (4 + kr_data_size b) < 4"
    using unsigned_less [of "kr_data_size b", where 'a = nat] by simp
  with assms(1,2) show ?thesis
    by (simp add: km_raw_buffer_serialize_def append_sized_buf_to_buf_def append_uint32_to_buf_def
        append_to_buf_def)
qed

lemma km_serializers_overflow_witness:
  "km_raw_buffer_serialize script_platform (Some \<lparr>kr_data_size = 0xFFFFFFFE, kr_data = None\<rparr>) True
     (script_machine []) = Fault"
proof -
  have "trusty_calloc script_platform (ucast (4 + kr_data_size \<lparr>kr_data_size = 0xFFFFFFFE, kr_data = None\<rparr>)) 1
      (script_machine []) = Ret 0x9000 ((script_machine [])\<lparr>calls := [C_calloc 2 1 0x9000]\<rparr>)"
    by (simp add: trusty_calloc_def script_platform_def script_machine_def)
  from km_serializers_overflow [OF this] show ?thesis by simp
qed

end
