(* ===== verification/Keymaster.thy ===== *)
theory Keymaster
  imports Avb Keymaster_Serializable
begin

text \<open>
  The client of the keymaster service, \<open>ql-tipc/keymaster.c\<close>: requests, responses that the service
  splits into frames, the version check, and the boot loader calls. Buffers that the C code fills
  through a pointer are passed and returned as values. The lemmas show how frames are put together,
  that a long certificate response is sent in chunks that cover it, that no request object is
  leaked, and where the code trusts a length that the service announces.
\<close>

section \<open>The protocol\<close>

definition KEYMASTER_PORT :: cstring where "KEYMASTER_PORT = cstr ''com.android.trusty.keymaster''"
definition KEYMASTER_MAX_BUFFER_LENGTH :: int where "KEYMASTER_MAX_BUFFER_LENGTH = 4096"
definition KEYMASTER_RESP_BIT :: u32 where "KEYMASTER_RESP_BIT = 1"
definition KEYMASTER_STOP_BIT :: u32 where "KEYMASTER_STOP_BIT = 2"
definition KEYMASTER_REQ_SHIFT :: nat where "KEYMASTER_REQ_SHIFT = 2"
definition KM_GET_VERSION :: u32 where "KM_GET_VERSION = push_bit KEYMASTER_REQ_SHIFT 7"
definition KM_SET_BOOT_PARAMS :: u32 where "KM_SET_BOOT_PARAMS = push_bit KEYMASTER_REQ_SHIFT 0x1000"
definition KM_SET_ATTESTATION_KEY :: u32 where
  "KM_SET_ATTESTATION_KEY = push_bit KEYMASTER_REQ_SHIFT 0x2000"
definition KM_APPEND_ATTESTATION_CERT_CHAIN :: u32 where
  "KM_APPEND_ATTESTATION_CERT_CHAIN = push_bit KEYMASTER_REQ_SHIFT 0x3000"
definition KM_ATAP_GET_CA_REQUEST :: u32 where
  "KM_ATAP_GET_CA_REQUEST = push_bit KEYMASTER_REQ_SHIFT 0x4000"
definition KM_ATAP_SET_CA_RESPONSE_BEGIN :: u32 where
  "KM_ATAP_SET_CA_RESPONSE_BEGIN = push_bit KEYMASTER_REQ_SHIFT 0x5000"
definition KM_ATAP_SET_CA_RESPONSE_UPDATE :: u32 where
  "KM_ATAP_SET_CA_RESPONSE_UPDATE = push_bit KEYMASTER_REQ_SHIFT 0x6000"
definition KM_ATAP_SET_CA_RESPONSE_FINISH :: u32 where
  "KM_ATAP_SET_CA_RESPONSE_FINISH = push_bit KEYMASTER_REQ_SHIFT 0x7000"
definition KM_ATAP_READ_UUID :: u32 where "KM_ATAP_READ_UUID = push_bit KEYMASTER_REQ_SHIFT 0x8000"
definition KM_ERROR_OK :: u32 where "KM_ERROR_OK = 0"

section \<open>State and constants\<close>

definition km_chan :: u64 where "km_chan = 0x300"
definition trusty_km_version :: int where "trusty_km_version = 2"
definition kMaxCaRequestSize :: u64 where "kMaxCaRequestSize = 10000"
definition kMaxSendSize :: u64 where "kMaxSendSize = 4000"
definition kUuidSize :: u64 where "kUuidSize = 32"

section \<open>Requests and responses\<close>

text \<open>The message header is the four bytes of the command.\<close>

definition km_send_request ::
  "'e platform \<Rightarrow> 'e rpmb_impl \<Rightarrow> u32 \<Rightarrow> bytes option \<Rightarrow> u64 \<Rightarrow> ('e, 'z) client_world_scheme \<Rightarrow>
   (int, ('e, 'z) client_world_scheme) outcome"
where
  "km_send_request P I cmd req req_len w =
     (let hdr = \<lparr>iov_base = le32 cmd, iov_len = 4\<rparr> in
      trusty_ipc_send P (tipc_ops P I) km_chan
        (case req of None \<Rightarrow> [hdr] | Some bs \<Rightarrow> [hdr, \<lparr>iov_base = bs, iov_len = req_len\<rparr>]) True w)"

definition check_response_error :: "u32 \<Rightarrow> u32 \<Rightarrow> int \<Rightarrow> int" where
  "check_response_error expected_cmd header_cmd tipc_result =
     (if tipc_result < 0 then tipc_result
      else if tipc_result < 4 then TRUSTY_ERR_GENERIC
      else if header_cmd AND NOT KEYMASTER_STOP_BIT \<noteq> expected_cmd OR KEYMASTER_RESP_BIT then TRUSTY_ERR_GENERIC
      else tipc_result)"

text \<open>
  The loop of \<open>km_read_raw_response\<close>: \<open>hdr\<close> is the header object, \<open>resp\<close> the object from the response
  pointer on, \<open>resp_len\<close> what has been read so far.
\<close>

fun km_raw_response_loop ::
  "'e platform \<Rightarrow> 'e rpmb_impl \<Rightarrow> nat \<Rightarrow> u32 \<Rightarrow> u64 \<Rightarrow> bytes \<Rightarrow> u64 \<Rightarrow> bytes \<Rightarrow>
   ('e, 'z) client_world_scheme \<Rightarrow> (int \<times> bytes, ('e, 'z) client_world_scheme) outcome"
where
  "km_raw_response_loop P I n cmd max_resp_len hdr resp_len resp w =
     (let iovs = [\<lparr>iov_base = hdr, iov_len = 4\<rparr>,
                  \<lparr>iov_base = drop (unat resp_len) resp,
                   iov_len = word_of_int (min KEYMASTER_MAX_BUFFER_LENGTH (c_int max_resp_len - c_int resp_len))\<rparr>] in
      obind (trusty_ipc_recv P (tipc_ops P I) km_chan iovs True w) (\<lambda>(rc, iovs) w.
      let hdr = iov_base (iovs ! 0); header_cmd = le_word hdr;
          resp = take (unat resp_len) resp @ iov_base (iovs ! 1);
          rc = check_response_error cmd header_cmd rc in
      if rc < 0 then Ret (rc, resp) w else
      let resp_len = resp_len + (word_of_int rc - 4) in
      if header_cmd AND KEYMASTER_STOP_BIT \<noteq> 0 \<or> max_resp_len \<le> resp_len
        then Ret (c_int resp_len, resp) w
      else (case n of 0 \<Rightarrow> NoFuel
            | Suc n' \<Rightarrow> km_raw_response_loop P I n' cmd max_resp_len hdr resp_len resp w)))"

definition km_read_raw_response ::
  "'e platform \<Rightarrow> 'e rpmb_impl \<Rightarrow> u32 \<Rightarrow> bytes option \<Rightarrow> u64 \<Rightarrow> ('e, 'z) client_world_scheme \<Rightarrow>
   (int \<times> bytes option, ('e, 'z) client_world_scheme) outcome"
where
  "km_read_raw_response P I cmd resp resp_len w =
     (case resp of
        None \<Rightarrow> Ret (TRUSTY_ERR_GENERIC, None) w
      | Some bs \<Rightarrow>
          obind (km_raw_response_loop P I (fuel P) cmd resp_len (le32 cmd) 0 bs w) (\<lambda>(rc, bs) w.
            Ret (rc, Some bs) w))"

text \<open>
  \<open>error\<close> and \<open>resp_data_len\<close> are the objects behind these pointers, \<open>resp_data\<close> the object from the
  data pointer on. The result is the return value and the three objects afterwards. Moving the data
  pointer past the end of its object is undefined in C and a \<open>Fault\<close> here.
\<close>

definition km_read_data_response ::
  "'e platform \<Rightarrow> 'e rpmb_impl \<Rightarrow> u32 \<Rightarrow> bytes \<Rightarrow> bytes \<Rightarrow> u32 \<Rightarrow> ('e, 'z) client_world_scheme \<Rightarrow>
   (int \<times> bytes \<times> bytes \<times> u32, ('e, 'z) client_world_scheme) outcome"
where
  "km_read_data_response P I cmd error resp_data resp_data_len w =
     (let max_resp_len = ucast resp_data_len :: u64;
          iovs = [\<lparr>iov_base = le32 cmd, iov_len = 4\<rparr>, \<lparr>iov_base = error, iov_len = 4\<rparr>,
                  \<lparr>iov_base = le32 resp_data_len, iov_len = 4\<rparr>,
                  \<lparr>iov_base = resp_data, iov_len = min 4096 max_resp_len\<rparr>] in
      obind (trusty_ipc_recv P (tipc_ops P I) km_chan iovs True w) (\<lambda>(rc, iovs) w.
      let header_cmd = le_word (iov_base (iovs ! 0)); error = iov_base (iovs ! 1);
          resp_data_len = le_word (iov_base (iovs ! 2)); resp_data = iov_base (iovs ! 3);
          rc = check_response_error cmd header_cmd rc in
      if rc < 0 then Ret (rc, error, resp_data, resp_data_len) w else
      let resp_data_bytes = ucast (word_of_int rc - 4 - 8 :: u64) :: u32 in
      if header_cmd AND KEYMASTER_STOP_BIT \<noteq> 0
        then Ret (TRUSTY_ERR_NONE, error, resp_data, resp_data_len) w else
      if length resp_data < unat resp_data_bytes then Fault else
      let resp_data_remaining = ucast (resp_data_len - resp_data_bytes) :: u64 in
      obind (km_read_raw_response P I cmd (Some (drop (unat resp_data_bytes) resp_data)) resp_data_remaining w)
        (\<lambda>(rc, rest) w.
        let resp_data = take (unat resp_data_bytes) resp_data @ (case rest of None \<Rightarrow> [] | Some bs \<Rightarrow> bs) in
        if rc < 0 then Ret (rc, error, resp_data, resp_data_len) w
        else if resp_data_len \<noteq> resp_data_bytes + word_of_int rc
          then Ret (TRUSTY_ERR_GENERIC, error, resp_data, resp_data_len) w
        else Ret (TRUSTY_ERR_NONE, error, resp_data, resp_data_len) w)))"

text \<open>\<open>resp_data\<close> is \<open>None\<close> for a null pointer; the result has the data and its length afterwards.\<close>

definition km_do_tipc ::
  "'e platform \<Rightarrow> 'e rpmb_impl \<Rightarrow> u32 \<Rightarrow> bytes option \<Rightarrow> u32 \<Rightarrow> bytes option \<Rightarrow> u32 \<Rightarrow>
   ('e, 'z) client_world_scheme \<Rightarrow>
   (int \<times> bytes option \<times> u32, ('e, 'z) client_world_scheme) outcome"
where
  "km_do_tipc P I cmd req req_len resp_data resp_data_len w =
     obind (km_send_request P I cmd req (ucast req_len) w) (\<lambda>rc w.
     if rc < 0 then Ret (rc, resp_data, resp_data_len) w else
     obind
       (case resp_data of
          None \<Rightarrow>
            obind (km_read_raw_response P I cmd (Some (uninit P 4)) 4 w) (\<lambda>(rc, hdr) w.
              Ret (rc, (case hdr of None \<Rightarrow> [] | Some bs \<Rightarrow> bs), None, resp_data_len) w)
        | Some bs \<Rightarrow>
            obind (km_read_data_response P I cmd (uninit P 4) bs resp_data_len w)
              (\<lambda>(rc, error, bs, resp_data_len) w. Ret (rc, error, Some bs, resp_data_len) w))
       (\<lambda>(rc, error, resp_data, resp_data_len) w.
        if rc < 0 then Ret (rc, resp_data, resp_data_len) w
        else if le_word error \<noteq> KM_ERROR_OK then Ret (TRUSTY_ERR_GENERIC, resp_data, resp_data_len) w
        else Ret (TRUSTY_ERR_NONE, resp_data, resp_data_len) w))"

section \<open>Version and connection\<close>

definition MessageVersion :: "u8 \<Rightarrow> u8 \<Rightarrow> u8 \<Rightarrow> int" where
  "MessageVersion major_ver minor_ver subminor_ver =
     (if major_ver = 0 then 0
      else if major_ver = 1 then (if minor_ver = 0 then 1 else if minor_ver = 1 then 2 else -1)
      else if major_ver = 2 then 3
      else -1)"

text \<open>The result is the return value and the version, which is unchanged on an error.\<close>

definition km_get_version ::
  "'e platform \<Rightarrow> 'e rpmb_impl \<Rightarrow> int \<Rightarrow> ('e, 'z) client_world_scheme \<Rightarrow>
   (int \<times> int, ('e, 'z) client_world_scheme) outcome"
where
  "km_get_version P I version w =
     obind (km_send_request P I KM_GET_VERSION None 0 w) (\<lambda>rc w.
     if rc < 0 then Ret (rc, version) w else
     obind (km_read_raw_response P I KM_GET_VERSION (Some (uninit P 7)) 7 w) (\<lambda>(rc, resp) w.
     if rc < 0 then Ret (rc, version) w else
     let bs = (case resp of None \<Rightarrow> [] | Some bs \<Rightarrow> bs) in
     Ret (TRUSTY_ERR_NONE, MessageVersion (bs ! 4) (bs ! 5) (bs ! 6)) w))"

definition km_tipc_init ::
  "'e platform \<Rightarrow> 'e rpmb_impl \<Rightarrow> trusty_ipc_dev \<Rightarrow> ('e, 'z) client_world_scheme \<Rightarrow>
   (int, ('e, 'z) client_world_scheme) outcome"
where
  "km_tipc_init P I dev w =
     obind (trusty_ipc_chan_init km_chan dev w) (\<lambda>_ w.
     obind (trusty_ipc_connect P (tipc_ops P I) km_chan KEYMASTER_PORT True w) (\<lambda>rc w.
     if rc < 0 then Ret rc w else
     let w = w\<lparr>km_initialized := True\<rparr> in
     obind (km_get_version P I (-1) w) (\<lambda>(rc, version) w.
     if rc < 0 then Ret rc w
     else if version < trusty_km_version then Ret TRUSTY_ERR_GENERIC w
     else Ret TRUSTY_ERR_NONE w)))"

definition km_tipc_shutdown ::
  "'e platform \<Rightarrow> ('e, 'z) client_world_scheme \<Rightarrow> (unit, ('e, 'z) client_world_scheme) outcome"
where
  "km_tipc_shutdown P w =
     (if \<not> km_initialized w then Ret () w
      else obind (trusty_ipc_close P km_chan w) (\<lambda>_ w. Ret () (w\<lparr>km_initialized := False\<rparr>)))"

declare km_raw_response_loop.simps [simp del]

section \<open>The calls of the boot loader\<close>

text \<open>The common end of the senders: the request object is freed when there is one.\<close>

definition km_free_req ::
  "'e platform \<Rightarrow> u64 \<Rightarrow> ('e, 'z) machine_scheme \<Rightarrow> (unit, ('e, 'z) machine_scheme) outcome"
where
  "km_free_req P req w = (if req \<noteq> 0 then sys_call P (C_free req) w else Ret () w)"

text \<open>The request pointer of \<open>km_do_tipc\<close> for an allocated object.\<close>

definition ptr_bytes :: "u64 \<Rightarrow> bytes \<Rightarrow> bytes option" where
  "ptr_bytes a bs = (if a = 0 then None else Some bs)"

definition trusty_set_boot_params ::
  "'e platform \<Rightarrow> 'e rpmb_impl \<Rightarrow> u32 \<Rightarrow> u32 \<Rightarrow> u32 \<Rightarrow> bool \<Rightarrow> bytes option \<Rightarrow> u32 \<Rightarrow> bytes option \<Rightarrow> u32 \<Rightarrow>
   ('e, 'z) client_world_scheme \<Rightarrow> (int, ('e, 'z) client_world_scheme) outcome"
where
  "trusty_set_boot_params P I os_version os_patchlevel verified_boot_state device_locked
       verified_boot_key_hash verified_boot_key_hash_size verified_boot_hash verified_boot_hash_size w =
     (let params = \<lparr>kb_os_version = os_version, kb_os_patchlevel = os_patchlevel,
            kb_device_locked = of_bool device_locked, kb_verified_boot_state = verified_boot_state,
            kb_verified_boot_key_hash_size = verified_boot_key_hash_size,
            kb_verified_boot_key_hash = verified_boot_key_hash,
            kb_verified_boot_hash_size = verified_boot_hash_size,
            kb_verified_boot_hash = verified_boot_hash\<rparr> in
      obind (km_boot_params_serialize P (Some params) True w) (\<lambda>(rc, req, bs, req_size) w.
      obind (if rc < 0 then Ret rc w
             else obind (km_do_tipc P I KM_SET_BOOT_PARAMS (ptr_bytes req bs) req_size None 0 w)
               (\<lambda>(rc, _, _) w. Ret rc w)) (\<lambda>rc w.
      obind (km_free_req P req w) (\<lambda>_ w. Ret rc w))))"

definition trusty_send_attestation_data ::
  "'e platform \<Rightarrow> 'e rpmb_impl \<Rightarrow> u32 \<Rightarrow> bytes option \<Rightarrow> u32 \<Rightarrow> u32 \<Rightarrow>
   ('e, 'z) client_world_scheme \<Rightarrow> (int, ('e, 'z) client_world_scheme) outcome"
where
  "trusty_send_attestation_data P I cmd data data_size algorithm w =
     (let attestation_data = \<lparr>ka_algorithm = algorithm, ka_data_size = data_size, ka_data = data\<rparr> in
      obind (km_attestation_data_serialize P (Some attestation_data) True w) (\<lambda>(rc, req, bs, req_size) w.
      obind (if rc < 0 then Ret rc w
             else obind (km_do_tipc P I cmd (ptr_bytes req bs) req_size None 0 w)
               (\<lambda>(rc, _, _) w. Ret rc w)) (\<lambda>rc w.
      obind (km_free_req P req w) (\<lambda>_ w. Ret rc w))))"

definition trusty_send_raw_buffer ::
  "'e platform \<Rightarrow> 'e rpmb_impl \<Rightarrow> u32 \<Rightarrow> bytes option \<Rightarrow> u32 \<Rightarrow> bytes option \<Rightarrow> u32 \<Rightarrow>
   ('e, 'z) client_world_scheme \<Rightarrow>
   (int \<times> bytes option \<times> u32, ('e, 'z) client_world_scheme) outcome"
where
  "trusty_send_raw_buffer P I cmd req_data req_data_size resp_data resp_data_size w =
     (let buf = \<lparr>kr_data_size = req_data_size, kr_data = req_data\<rparr> in
      obind (km_raw_buffer_serialize P (Some buf) True w) (\<lambda>(rc, req, bs, req_size) w.
      obind (if rc < 0 then Ret (rc, resp_data, resp_data_size) w
             else km_do_tipc P I cmd (ptr_bytes req bs) req_size resp_data resp_data_size w) (\<lambda>res w.
      obind (km_free_req P req w) (\<lambda>_ w. Ret res w))))"

definition trusty_set_attestation_key ::
  "'e platform \<Rightarrow> 'e rpmb_impl \<Rightarrow> bytes option \<Rightarrow> u32 \<Rightarrow> u32 \<Rightarrow>
   ('e, 'z) client_world_scheme \<Rightarrow> (int, ('e, 'z) client_world_scheme) outcome"
where
  "trusty_set_attestation_key P I key key_size algorithm w =
     trusty_send_attestation_data P I KM_SET_ATTESTATION_KEY key key_size algorithm w"

definition trusty_append_attestation_cert_chain ::
  "'e platform \<Rightarrow> 'e rpmb_impl \<Rightarrow> bytes option \<Rightarrow> u32 \<Rightarrow> u32 \<Rightarrow>
   ('e, 'z) client_world_scheme \<Rightarrow> (int, ('e, 'z) client_world_scheme) outcome"
where
  "trusty_append_attestation_cert_chain P I cert cert_size algorithm w =
     trusty_send_attestation_data P I KM_APPEND_ATTESTATION_CERT_CHAIN cert cert_size algorithm w"

text \<open>The result is the return value, the address and content of the request object and its size.\<close>

definition trusty_atap_get_ca_request ::
  "'e platform \<Rightarrow> 'e rpmb_impl \<Rightarrow> bytes option \<Rightarrow> u32 \<Rightarrow> ('e, 'z) client_world_scheme \<Rightarrow>
   (int \<times> u64 \<times> bytes \<times> u32, ('e, 'z) client_world_scheme) outcome"
where
  "trusty_atap_get_ca_request P I operation_start operation_start_size w =
     obind (trusty_calloc P 1 kMaxCaRequestSize w) (\<lambda>ca_request w.
     if ca_request = 0 then Ret (TRUSTY_ERR_NO_MEMORY, 0, [], 0) w else
     obind (trusty_send_raw_buffer P I KM_ATAP_GET_CA_REQUEST operation_start operation_start_size
         (Some (replicate (unat kMaxCaRequestSize) 0)) (ucast kMaxCaRequestSize) w) (\<lambda>(rc, resp, sz) w.
     let bs = (case resp of None \<Rightarrow> [] | Some bs \<Rightarrow> bs) in
     if rc \<noteq> TRUSTY_ERR_NONE
       then obind (sys_call P (C_free ca_request) w) (\<lambda>_ w. Ret (rc, ca_request, bs, sz) w)
     else Ret (rc, ca_request, bs, sz) w))"

text \<open>
  The chunks of the CA response: \<open>ca_response\<close> is the object behind the pointer, \<open>bytes_sent\<close> and
  \<open>send_size\<close> are 32 bit variables.
\<close>

function ca_response_loop ::
  "'e platform \<Rightarrow> 'e rpmb_impl \<Rightarrow> bytes \<Rightarrow> u32 \<Rightarrow> u32 \<Rightarrow> ('e, 'z) client_world_scheme \<Rightarrow>
   (int, ('e, 'z) client_world_scheme) outcome"
where
  "ca_response_loop P I ca_response ca_response_size bytes_sent w =
     (if bytes_sent < ca_response_size then
        let send_size = ucast (min kMaxSendSize (ucast (ca_response_size - bytes_sent))) :: u32 in
        obind (trusty_send_raw_buffer P I KM_ATAP_SET_CA_RESPONSE_UPDATE
            (Some (drop (unat bytes_sent) ca_response)) send_size None 0 w) (\<lambda>(rc, _, _) w.
        if rc \<noteq> TRUSTY_ERR_NONE then Ret rc w
        else ca_response_loop P I ca_response ca_response_size (bytes_sent + send_size) w)
      else
        obind (km_do_tipc P I KM_ATAP_SET_CA_RESPONSE_FINISH None 0 None 0 w) (\<lambda>(rc, _, _) w. Ret rc w))"
  by pat_completeness auto

lemma unat_send_size:
  assumes "bytes_sent < sz"
  shows "unat (ucast (min kMaxSendSize (ucast (sz - bytes_sent :: u32))) :: u32) =
    min 4000 (unat sz - unat bytes_sent)"
proof -
  have d: "unat (sz - bytes_sent) = unat sz - unat bytes_sent"
    using assms by (simp add: unat_sub order.strict_implies_order)
  have "unat (min kMaxSendSize (ucast (sz - bytes_sent))) = min 4000 (unat sz - unat bytes_sent)"
    by (simp add: min_def word_le_nat_alt kMaxSendSize_def d)
  then show ?thesis
    using unsigned_less [of sz, where 'a = nat]
    by (simp add: unsigned_ucast_eq take_bit_nat_eq_self_iff)
qed

lemma bytes_sent_step:
  assumes "bytes_sent < sz" "k = min 4000 (unat (sz :: u32) - unat bytes_sent)" "unat (n :: u32) = k"
  shows "unat (bytes_sent + n) = unat bytes_sent + k"
  using assms unsigned_less [of sz, where 'a = nat]
  by (simp add: unat_word_ariths(1) word_less_nat_alt)

termination ca_response_loop
proof (relation "measure (\<lambda>(P, I, bs, sz, sent, w). unat sz - unat sent)", goal_cases)
  case (2 P I bs sz sent w x p w' rc q r s)
  from bytes_sent_step [OF 2(1) refl unat_send_size [OF 2(1)]] 2(1) show ?case
    by (simp add: 2(2) word_less_nat_alt)
qed simp

definition trusty_atap_set_ca_response ::
  "'e platform \<Rightarrow> 'e rpmb_impl \<Rightarrow> bytes \<Rightarrow> u32 \<Rightarrow> ('e, 'z) client_world_scheme \<Rightarrow>
   (int, ('e, 'z) client_world_scheme) outcome"
where
  "trusty_atap_set_ca_response P I ca_response ca_response_size w =
     obind (km_do_tipc P I KM_ATAP_SET_CA_RESPONSE_BEGIN (Some (le32 ca_response_size)) 4 None 0 w) (\<lambda>(rc, _, _) w.
     if rc \<noteq> TRUSTY_ERR_NONE then Ret rc w
     else ca_response_loop P I ca_response ca_response_size 0 w)"

text \<open>
  \<open>slots\<close> is the array of pointers that \<open>uuid_p\<close> points into, from \<open>uuid_p\<close> on. The statement
  \<open>*uuid_p[kUuidSize] = 0\<close> writes through the pointer in slot 32, not to the last byte of the new
  object; it is defined only if there is such a slot and it points into the new object. The result
  is the return value and the object.
\<close>

definition trusty_atap_read_uuid_str ::
  "'e platform \<Rightarrow> 'e rpmb_impl \<Rightarrow> u64 list \<Rightarrow> ('e, 'z) client_world_scheme \<Rightarrow>
   (int \<times> u64 \<times> bytes, ('e, 'z) client_world_scheme) outcome"
where
  "trusty_atap_read_uuid_str P I slots w =
     obind (trusty_calloc P 1 (kUuidSize + 1) w) (\<lambda>uuid w.
     if length slots \<le> unat kUuidSize then Fault else
     let p = slots ! unat kUuidSize; off = unat (p - uuid) in
     if uuid = 0 \<or> unat kUuidSize < off then Fault else
     let obj = put_bytes off [0] (replicate (unat kUuidSize + 1) 0) in
     obind (km_do_tipc P I KM_ATAP_READ_UUID None 0 (Some obj) (ucast kUuidSize) w) (\<lambda>(rc, resp, response_size) w.
     let obj = (case resp of None \<Rightarrow> [] | Some bs \<Rightarrow> bs) in
     if rc < 0 then obind (sys_call P (C_free uuid) w) (\<lambda>_ w. Ret (rc, uuid, obj) w) else
     if response_size \<noteq> ucast kUuidSize
       then obind (sys_call P (C_free uuid) w) (\<lambda>_ w. Ret (TRUSTY_ERR_GENERIC, uuid, obj) w)
     else Ret (rc, uuid, obj) w))"

declare ca_response_loop.simps [simp del]

section \<open>What the exchanges leave alone\<close>

context service_frame
begin

lemma km_send_request_frame: "keeps R w (km_send_request P I cmd req n w)"
  unfolding km_send_request_def Let_def by (rule handlers.send_frame)

lemma km_raw_response_loop_frame: "keeps R w (km_raw_response_loop P I n cmd mx hdr k resp w)"
proof (induction n arbitrary: hdr k resp w)
  case 0
  show ?case
    unfolding km_raw_response_loop.simps [of P I 0] Let_def
    by (intro keeps_bind handlers.recv_frame keeps_case_prod keeps_if keeps_return) simp
next
  case (Suc n)
  show ?case
    unfolding km_raw_response_loop.simps [of P I "Suc n"] Let_def nat.case
    by (intro keeps_bind handlers.recv_frame keeps_case_prod keeps_if keeps_return Suc.IH)
qed

lemma km_read_raw_frame: "keeps R w (km_read_raw_response P I cmd resp n w)"
  unfolding km_read_raw_response_def
  by (cases resp) (auto simp: frame_refl intro!: keeps_bind km_raw_response_loop_frame keeps_return split: prod.splits)

lemma km_read_data_frame: "keeps R w (km_read_data_response P I cmd error bs sz w)"
  unfolding km_read_data_response_def Let_def
  by (intro keeps_bind handlers.recv_frame keeps_case_prod keeps_if keeps_return km_read_raw_frame) simp

lemma km_do_tipc_frame: "keeps R w (km_do_tipc P I cmd req n resp sz w)"
  unfolding km_do_tipc_def
  by (cases resp)
     (auto intro!: keeps_bind km_send_request_frame keeps_if keeps_return km_read_raw_frame km_read_data_frame
        split: prod.splits)

lemma km_get_version_frame: "keeps R w (km_get_version P I v w)"
  unfolding km_get_version_def Let_def
  by (intro keeps_bind km_send_request_frame keeps_if keeps_return keeps_case_prod km_read_raw_frame)

end

section \<open>Lemmas: frames\<close>

text \<open>
  One frame of a response: a message taken from the channel into a header and at most \<open>room\<close> bytes
  (and never more than 4096) that acknowledges the command; \<open>stop\<close> says whether it is marked as
  the last one.
\<close>

definition km_frame ::
  "'e platform \<Rightarrow> 'e rpmb_impl \<Rightarrow> u32 \<Rightarrow> nat \<Rightarrow> ('e, 'z) client_world_scheme \<Rightarrow> bytes \<Rightarrow> bool \<Rightarrow>
   ('e, 'z) client_world_scheme \<Rightarrow> bool"
where
  "km_frame P I cmd room w payload stop w' \<longleftrightarrow>
     (\<exists>hdr base iovs.
        trusty_ipc_recv P (tipc_ops P I) km_chan
          [\<lparr>iov_base = hdr, iov_len = 4\<rparr>, \<lparr>iov_base = base, iov_len = of_nat (min 4096 room)\<rparr>] True w =
          Ret (4 + int (length payload), iovs) w' \<and>
        le_word (iov_base (iovs ! 0)) AND NOT KEYMASTER_STOP_BIT = cmd OR KEYMASTER_RESP_BIT \<and>
        stop = (le_word (iov_base (iovs ! 0)) AND KEYMASTER_STOP_BIT \<noteq> 0) \<and>
        payload = take (length payload) (iov_base (iovs ! 1)) \<and> length payload \<le> min 4096 room)"

text \<open>A whole response: frames up to the one that is marked or that fills the room.\<close>

inductive km_frames ::
  "'e platform \<Rightarrow> 'e rpmb_impl \<Rightarrow> u32 \<Rightarrow> nat \<Rightarrow> ('e, 'z) client_world_scheme \<Rightarrow> bytes list \<Rightarrow>
   ('e, 'z) client_world_scheme \<Rightarrow> bool"
  for P I cmd
where
  last_frame: "km_frame P I cmd room w pl stop w' \<Longrightarrow> stop \<or> length pl = room \<Longrightarrow>
    km_frames P I cmd room w [pl] w'"
| next_frame: "km_frame P I cmd room w pl False w' \<Longrightarrow> length pl < room \<Longrightarrow>
    km_frames P I cmd (room - length pl) w' fs w'' \<Longrightarrow> km_frames P I cmd room w (pl # fs) w''"

inductive_cases km_frames_Cons: "km_frames P I cmd room w (pl # fs) w'"

lemma km_frames_room: "km_frames P I cmd room w fs w' \<Longrightarrow> length (concat fs) \<le> room \<and> fs \<noteq> []"
  by (induction rule: km_frames.induct) (auto simp: km_frame_def)

lemma check_response_error_ok:
  assumes "0 \<le> check_response_error cmd h r"
  shows "check_response_error cmd h r = r" "4 \<le> r" "h AND NOT KEYMASTER_STOP_BIT = cmd OR KEYMASTER_RESP_BIT"
  using assms by (auto simp: check_response_error_def trusty_err_defs split: if_splits)

lemma c_int_small: "unat (x :: u64) < 2 ^ 31 \<Longrightarrow> c_int x = int (unat x)"
  using c_int_of_nat [of "unat x"] by simp

lemma frame_len:
  fixes mx k :: u64
  assumes "unat mx < 2 ^ 31" "unat k \<le> unat mx"
  shows "(word_of_int (min KEYMASTER_MAX_BUFFER_LENGTH (c_int mx - c_int k)) :: u64) =
    of_nat (min 4096 (unat mx - unat k))"
proof -
  have nats: "min 4096 (int a - int b) = int (min 4096 (a - b))" if "b \<le> a" for a b :: nat
    using that by (auto simp: min_def)
  have "c_int mx = int (unat mx)" "c_int k = int (unat k)"
    by (rule c_int_small, use assms in simp)+
  then have "min KEYMASTER_MAX_BUFFER_LENGTH (c_int mx - c_int k) = int (min 4096 (unat mx - unat k))"
    using nats [OF assms(2)] by (simp only: KEYMASTER_MAX_BUFFER_LENGTH_def)
  then show ?thesis by (simp only: of_int_of_nat_eq)
qed

text \<open>One iteration of the read loop takes one frame.\<close>

lemma km_raw_step:
  fixes mx k :: u64
  assumes "trusty_ipc_recv P (tipc_ops P I) km_chan
      [\<lparr>iov_base = hdr, iov_len = 4\<rparr>,
       \<lparr>iov_base = drop (unat k) resp,
        iov_len = word_of_int (min KEYMASTER_MAX_BUFFER_LENGTH (c_int mx - c_int k))\<rparr>] True w = Ret (r, iovs) w1"
    and len: "unat mx < 2 ^ 31" "unat k \<le> unat mx" "unat mx \<le> length resp" "length hdr = 4"
  defines "resp1 \<equiv> take (unat k) resp @ iov_base (iovs ! 1)"
  shows "length resp1 = length resp" "length (iov_base (iovs ! 0)) = 4"
    and "0 \<le> check_response_error cmd (le_word (iov_base (iovs ! 0))) r \<Longrightarrow>
      \<exists>pl. r = 4 + int (length pl) \<and> length pl \<le> unat mx - unat k \<and>
        unat (k + (word_of_int r - 4)) = unat k + length pl \<and>
        take (unat k + length pl) resp1 = take (unat k) resp @ pl \<and>
        km_frame P I cmd (unat mx - unat k) w pl (le_word (iov_base (iovs ! 0)) AND KEYMASTER_STOP_BIT \<noteq> 0) w1"
proof -
  let ?room = "min 4096 (unat mx - unat k)"
  note recv = assms(1) [unfolded frame_len [OF len(1,2)]]
  have room: "unat (of_nat ?room :: u64) = ?room" "?room < 2147483644" by (auto simp: unat_of_nat)
  obtain a b where iovs: "iovs = [a, b]" "length (iov_base a) = 4" "length (iov_base b) = length resp - unat k"
    "r \<le> 4 + int ?room"
    using ipc_transport.recv_two [OF recv] room len by auto
  from iovs len show "length resp1 = length resp" "length (iov_base (iovs ! 0)) = 4"
    by (simp_all add: resp1_def min_absorb2)
  assume "0 \<le> check_response_error cmd (le_word (iov_base (iovs ! 0))) r"
  note ok = check_response_error_ok [OF this]
  define pl where "pl = take (nat (r - 4)) (iov_base b)"
  from iovs ok len have l: "r = 4 + int (length pl)" "length pl \<le> ?room" "length pl = nat (r - 4)"
    by (auto simp: pl_def)
  then have t: "take (length pl) (iov_base b) = pl" by (simp add: pl_def)
  have "word_of_int r - 4 = (of_nat (length pl) :: u64)" by (simp add: l(1))
  moreover have "unat (k + of_nat (length pl)) = unat k + length pl"
    using l(2) len by (simp add: unat_word_ariths(1) unat_of_nat)
  ultimately have adv: "unat (k + (word_of_int r - 4)) = unat k + length pl" by simp
  have frame: "km_frame P I cmd (unat mx - unat k) w pl
      (le_word (iov_base (iovs ! 0)) AND KEYMASTER_STOP_BIT \<noteq> 0) w1"
    unfolding km_frame_def
  proof (rule exI [of _ hdr], rule exI [of _ "drop (unat k) resp"], rule exI [of _ iovs], intro conjI)
    show "pl = take (length pl) (iov_base (iovs ! 1))" using t iovs(1) by simp
  qed (rule recv [unfolded l(1)] ok(3) refl l(2))+
  have data: "take (unat k + length pl) resp1 = take (unat k) resp @ pl"
    using iovs(1) len t by (simp add: resp1_def min_absorb2)
  from l(2) have "length pl \<le> unat mx - unat k" by simp
  with l(1) adv data frame show "\<exists>pl. r = 4 + int (length pl) \<and> length pl \<le> unat mx - unat k \<and>
        unat (k + (word_of_int r - 4)) = unat k + length pl \<and>
        take (unat k + length pl) resp1 = take (unat k) resp @ pl \<and>
        km_frame P I cmd (unat mx - unat k) w pl (le_word (iov_base (iovs ! 0)) AND KEYMASTER_STOP_BIT \<noteq> 0) w1"
    by blast
qed

lemma km_raw_loop_cases:
  assumes "km_raw_response_loop P I n cmd mx hdr k resp w = Ret (rc, bs) w'"
  obtains r iovs w1 where
    "trusty_ipc_recv P (tipc_ops P I) km_chan
      [\<lparr>iov_base = hdr, iov_len = 4\<rparr>,
       \<lparr>iov_base = drop (unat k) resp,
        iov_len = word_of_int (min KEYMASTER_MAX_BUFFER_LENGTH (c_int mx - c_int k))\<rparr>] True w = Ret (r, iovs) w1"
    "(let h = le_word (iov_base (iovs ! 0)); resp1 = take (unat k) resp @ iov_base (iovs ! 1);
          k1 = k + (word_of_int r - 4); c = check_response_error cmd h r in
      c < 0 \<and> rc = c \<and> bs = resp1 \<and> w' = w1 \<or>
      0 \<le> c \<and> (h AND KEYMASTER_STOP_BIT \<noteq> 0 \<or> mx \<le> k1) \<and> rc = c_int k1 \<and> bs = resp1 \<and> w' = w1 \<or>
      0 \<le> c \<and> h AND KEYMASTER_STOP_BIT = 0 \<and> k1 < mx \<and>
        (\<exists>n'. n = Suc n' \<and>
          km_raw_response_loop P I n' cmd mx (iov_base (iovs ! 0)) k1 resp1 w1 = Ret (rc, bs) w'))"
proof -
  from assms obtain r iovs w1 where
    recv: "trusty_ipc_recv P (tipc_ops P I) km_chan
      [\<lparr>iov_base = hdr, iov_len = 4\<rparr>,
       \<lparr>iov_base = drop (unat k) resp,
        iov_len = word_of_int (min KEYMASTER_MAX_BUFFER_LENGTH (c_int mx - c_int k))\<rparr>] True w = Ret (r, iovs) w1"
    unfolding km_raw_response_loop.simps [of P I n] Let_def obind_eq_Ret by (metis prod.exhaust)
  show thesis
    by (rule that [OF recv])
       (use assms check_response_error_ok(1) [of cmd "le_word (iov_base (iovs ! 0))" r] in
         \<open>simp add: km_raw_response_loop.simps [of P I n] Let_def recv not_less not_le
            split: if_splits nat.splits\<close>)
qed

lemma km_raw_loop_frames:
  assumes "km_raw_response_loop P I n cmd mx hdr k resp w = Ret (rc, bs) w'"
    and "unat mx < 2 ^ 31" "unat k \<le> unat mx" "unat mx \<le> length resp" "length hdr = 4"
  shows "length bs = length resp \<and>
    (0 \<le> rc \<longrightarrow> (\<exists>fs. km_frames P I cmd (unat mx - unat k) w fs w' \<and>
      rc = int (unat k + length (concat fs)) \<and> unat k + length (concat fs) \<le> unat mx \<and>
      take (unat k + length (concat fs)) bs = take (unat k) resp @ concat fs))"
  using assms
proof (induction n arbitrary: hdr k resp w rule: less_induct)
  case (less n)
  from less.prems(1) obtain r iovs w1 where
    recv: "trusty_ipc_recv P (tipc_ops P I) km_chan
      [\<lparr>iov_base = hdr, iov_len = 4\<rparr>,
       \<lparr>iov_base = drop (unat k) resp,
        iov_len = word_of_int (min KEYMASTER_MAX_BUFFER_LENGTH (c_int mx - c_int k))\<rparr>] True w = Ret (r, iovs) w1"
    and c: "let h = le_word (iov_base (iovs ! 0)); resp1 = take (unat k) resp @ iov_base (iovs ! 1);
          k1 = k + (word_of_int r - 4); c = check_response_error cmd h r in
      c < 0 \<and> rc = c \<and> bs = resp1 \<and> w' = w1 \<or>
      0 \<le> c \<and> (h AND KEYMASTER_STOP_BIT \<noteq> 0 \<or> mx \<le> k1) \<and> rc = c_int k1 \<and> bs = resp1 \<and> w' = w1 \<or>
      0 \<le> c \<and> h AND KEYMASTER_STOP_BIT = 0 \<and> k1 < mx \<and>
        (\<exists>n'. n = Suc n' \<and>
          km_raw_response_loop P I n' cmd mx (iov_base (iovs ! 0)) k1 resp1 w1 = Ret (rc, bs) w')"
    by (rule km_raw_loop_cases)
  let ?resp1 = "take (unat k) resp @ iov_base (iovs ! 1)" and ?h = "le_word (iov_base (iovs ! 0)) :: u32"
    and ?k1 = "k + (word_of_int r - 4)"
  note step = km_raw_step [OF recv less.prems(2-5)]
  from c consider (err) "rc < 0" "bs = ?resp1"
    | (last) "0 \<le> check_response_error cmd ?h r" "?h AND KEYMASTER_STOP_BIT \<noteq> 0 \<or> mx \<le> ?k1"
      "rc = c_int ?k1" "bs = ?resp1" "w' = w1"
    | (more) n' where "0 \<le> check_response_error cmd ?h r" "?h AND KEYMASTER_STOP_BIT = 0" "?k1 < mx"
      "n = Suc n'" "km_raw_response_loop P I n' cmd mx (iov_base (iovs ! 0)) ?k1 ?resp1 w1 = Ret (rc, bs) w'"
    unfolding Let_def by blast
  then show ?case
  proof cases
    case err
    with step(1) show ?thesis by simp
  next
    case last
    from step(3) [OF last(1)] obtain pl where
      pl: "length pl \<le> unat mx - unat k" "unat ?k1 = unat k + length pl"
        "take (unat k + length pl) ?resp1 = take (unat k) resp @ pl"
        "km_frame P I cmd (unat mx - unat k) w pl (?h AND KEYMASTER_STOP_BIT \<noteq> 0) w1" by blast
    from last(2) pl(1,2) have "?h AND KEYMASTER_STOP_BIT \<noteq> 0 \<or> length pl = unat mx - unat k"
      by (auto simp: word_le_nat_alt)
    with pl(4) have "km_frames P I cmd (unat mx - unat k) w [pl] w1" by (rule last_frame)
    moreover from last(3) pl(1,2) less.prems(2,3) have "rc = int (unat k + length pl)"
      by (subst (asm) c_int_small) simp_all
    ultimately show ?thesis
      using pl(1,3) step(1) last(4,5) less.prems(3) by (intro conjI impI exI [of _ "[pl]"]) simp_all
  next
    case more
    from step(3) [OF more(1)] more(2) obtain pl where
      pl: "length pl \<le> unat mx - unat k" "unat ?k1 = unat k + length pl"
        "take (unat k + length pl) ?resp1 = take (unat k) resp @ pl"
        "km_frame P I cmd (unat mx - unat k) w pl False w1" by auto
    from more(3) pl(2) have lt: "unat k + length pl < unat mx" by (simp add: word_less_nat_alt)
    with less.IH [OF _ more(5) less.prems(2)] more(4) step(1,2) less.prems(4) pl(2)
    have "length bs = length resp" and fs: "0 \<le> rc \<Longrightarrow> \<exists>fs. km_frames P I cmd (unat mx - unat ?k1) w1 fs w' \<and>
        rc = int (unat ?k1 + length (concat fs)) \<and> unat ?k1 + length (concat fs) \<le> unat mx \<and>
        take (unat ?k1 + length (concat fs)) bs = take (unat ?k1) ?resp1 @ concat fs"
      by simp_all
    show ?thesis
    proof (intro conjI impI \<open>length bs = length resp\<close>)
      assume "0 \<le> rc"
      from fs [OF this] obtain fs where f: "km_frames P I cmd (unat mx - unat ?k1) w1 fs w'"
        "rc = int (unat ?k1 + length (concat fs))" "unat ?k1 + length (concat fs) \<le> unat mx"
        "take (unat ?k1 + length (concat fs)) bs = take (unat ?k1) ?resp1 @ concat fs" by blast
      have "km_frames P I cmd (unat mx - unat k) w (pl # fs) w'"
        by (rule next_frame [OF pl(4)]) (use lt f(1) pl(2) in simp_all)
      with f(2-4) show "\<exists>fs. km_frames P I cmd (unat mx - unat k) w fs w' \<and>
          rc = int (unat k + length (concat fs)) \<and> unat k + length (concat fs) \<le> unat mx \<and>
          take (unat k + length (concat fs)) bs = take (unat k) resp @ concat fs"
        unfolding pl(2) pl(3) by (intro exI [of _ "pl # fs"]) (simp add: add.assoc)
    qed
  qed
qed

section \<open>Properties: responses\<close>

text \<open>
  C19: frames are put together in order. Reading a response into a buffer of the announced size keeps
  the size of the buffer; when it succeeds, the frames taken from the channel are the prefix of the
  buffer, one behind the other without their headers, up to the first frame that is marked as the
  last one or that fills the buffer, and the result is their total length, at most the room there was.
\<close>

theorem km_read_raw_response_reassembles:
  assumes "unat n < 2 ^ 31" "unat n \<le> length resp"
  shows "on_ret (\<lambda>(rc, resp') w'. \<exists>bs. resp' = Some bs \<and> length bs = length resp \<and>
      (0 \<le> rc \<longrightarrow> (\<exists>fs. km_frames P I cmd (unat n) w fs w' \<and> rc = int (length (concat fs)) \<and>
        length (concat fs) \<le> unat n \<and> take (length (concat fs)) bs = concat fs)))
    (km_read_raw_response P I cmd (Some resp) n w)"
  unfolding km_read_raw_response_def option.case
proof (rule on_ret_bindI, goal_cases)
  case (1 p w')
  then obtain rc bs where p: "p = (rc, bs)"
    and l: "km_raw_response_loop P I (fuel P) cmd n (le32 cmd) 0 resp w = Ret (rc, bs) w'" by (cases p) auto
  from km_raw_loop_frames [OF l assms(1)] assms(2) p show ?case by auto
qed

text \<open>A response of one frame on the scripted platform.\<close>

lemma script_km_query:
  assumes "script_world km_chan (script_exchange km_chan (le32 (cmd OR KEYMASTER_RESP_BIT OR KEYMASTER_STOP_BIT) @
      payload) @ rest, a) w"
    and "list_all iov_ok out" "iov_total out \<le> 4080" "length payload \<le> length buf" "length buf \<le> 4000"
    and "cmd AND KEYMASTER_STOP_BIT = 0"
  shows "\<exists>w1 w2. trusty_ipc_send script_platform (tipc_ops script_platform I) km_chan out True w = Ret 0 w1 \<and>
    km_read_raw_response script_platform I cmd (Some buf) (of_nat (length buf)) w1 =
      Ret (int (length payload), Some (put_bytes 0 payload buf)) w2 \<and>
    script_world km_chan (rest, a) w2 \<and> world.more w2 = world.more w"
proof -
  let ?c = "cmd OR KEYMASTER_RESP_BIT OR KEYMASTER_STOP_BIT"
  let ?n = "of_nat (length buf) :: u64"
  let ?iovs = "[\<lparr>iov_base = le32 cmd, iov_len = 4\<rparr>, \<lparr>iov_base = buf, iov_len = ?n\<rparr>]"
  have n: "unat ?n = length buf" using assms(5) by (simp add: unat_of_nat)
  have ok: "list_all iov_ok ?iovs" "length (le32 ?c @ payload) \<le> iov_total ?iovs" "length (le32 ?c @ payload) \<le> 4080"
    using assms(4,5) n by (simp_all add: iov_ok_def)
  have tab: "tipc_ops script_platform I Sync_ipc_ops = sync_ipc_ops" by (simp add: tipc_ops_def)
  obtain w1 w2 where x:
    "trusty_ipc_send script_platform (tipc_ops script_platform I) km_chan out True w = Ret 0 w1"
    "trusty_ipc_recv script_platform (tipc_ops script_platform I) km_chan ?iovs True w1 =
      Ret (int (length (le32 ?c @ payload)), scatter ?iovs (le32 ?c @ payload)) w2"
    "script_world km_chan (rest, a) w2" "world.more w2 = world.more w"
    using script_session [where tab = "tipc_ops script_platform I", OF assms(1) tab assms(2,3) ok] by blast
  have s: "scatter ?iovs (le32 ?c @ payload) =
      [\<lparr>iov_base = le32 ?c, iov_len = 4\<rparr>, \<lparr>iov_base = put_bytes 0 payload buf, iov_len = ?n\<rparr>]"
    using assms(4) n by (simp add: put_bytes_def)
  have l: "word_of_int (min KEYMASTER_MAX_BUFFER_LENGTH (c_int ?n - c_int (0 :: u64))) = ?n"
    using frame_len [of ?n 0] n assms(5) by simp
  have "(?c AND NOT KEYMASTER_STOP_BIT) = cmd OR KEYMASTER_RESP_BIT" "?c AND KEYMASTER_STOP_BIT \<noteq> 0"
  proof -
    have d: "KEYMASTER_RESP_BIT AND KEYMASTER_STOP_BIT = 0" "KEYMASTER_STOP_BIT \<noteq> 0"
      by (simp_all add: KEYMASTER_RESP_BIT_def KEYMASTER_STOP_BIT_def)
    have "\<And>i. \<not> (bit cmd i \<and> bit KEYMASTER_STOP_BIT i)" "\<And>i. \<not> (bit KEYMASTER_RESP_BIT i \<and> bit KEYMASTER_STOP_BIT i)"
      using assms(6) d(1) by (metis bit_0_eq bit_and_iff bot_apply bot_bool_def)+
    then show "(?c AND NOT KEYMASTER_STOP_BIT) = cmd OR KEYMASTER_RESP_BIT"
      by (intro bit_word_eqI) (auto simp: bit_or_iff bit_and_iff bit_not_iff)
    show "?c AND KEYMASTER_STOP_BIT \<noteq> 0"
      using d(2) by (simp add: bit.conj_disj_distrib2 or_eq_0_iff)
  qed
  moreover have "c_int (of_nat (length payload) :: u64) = int (length payload)"
    by (rule c_int_of_nat) (use assms(4,5) in simp)
  ultimately have "km_read_raw_response script_platform I cmd (Some buf) ?n w1 =
      Ret (int (length payload), Some (put_bytes 0 payload buf)) w2"
    using x(2) [unfolded s]
    by (simp add: km_read_raw_response_def km_raw_response_loop.simps l Let_def check_response_error_def)
  with x show ?thesis by blast
qed

lemma km_read_raw_response_reassembles_witness:
  "\<exists>(w :: script client_world) w' fs. km_read_raw_response script_platform demo_rpmb 28 (Some (replicate 7 0)) 7 w =
      Ret (7, Some [0, 0, 0, 0, 2, 0, 0]) w' \<and>
    km_frames script_platform demo_rpmb 28 7 w fs w' \<and> concat fs = [0, 0, 0, 0, 2, 0, 0]"
proof -
  let ?p = "[0, 0, 0, 0, 2, 0, 0] :: bytes"
  let ?w = "demo_client_world km_chan True (script_exchange km_chan
    (le32 (28 OR KEYMASTER_RESP_BIT OR KEYMASTER_STOP_BIT) @ ?p))"
  have "script_world km_chan (script_exchange km_chan
    (le32 (28 OR KEYMASTER_RESP_BIT OR KEYMASTER_STOP_BIT) @ ?p) @ [], 0x8000) ?w"
    using demo_client_script by simp
  from script_km_query [OF this, of "[]" "replicate 7 0" demo_rpmb] obtain w1 w2 :: "script client_world" where
    r: "km_read_raw_response script_platform demo_rpmb 28 (Some (replicate 7 0)) 7 w1 = Ret (7, Some ?p) w2"
    by (auto simp: KEYMASTER_STOP_BIT_def put_bytes_def)
  from km_read_raw_response_reassembles [of 7 "replicate 7 0" script_platform demo_rpmb 28 w1] r
  obtain fs where fs: "km_frames script_platform demo_rpmb 28 7 w1 fs w2" "7 = int (length (concat fs))"
    "take (length (concat fs)) ?p = concat fs"
    by auto
  from fs(2) have "length (concat fs) = 7" by linarith
  with fs(3) have "concat fs = ?p" by simp
  with r fs(1) show ?thesis by blast
qed

section \<open>Lemmas: chunks\<close>

text \<open>A byte list in pieces of a given size, and sending a list of pieces until one fails.\<close>

function chunks :: "nat \<Rightarrow> bytes \<Rightarrow> bytes list" where
  "chunks n bs = (if n = 0 \<or> bs = [] then [] else take n bs # chunks n (drop n bs))"
  by pat_completeness auto
termination by (relation "measure (\<lambda>(n, bs). length bs)") auto

declare chunks.simps [simp del]

lemma chunks_Nil [simp]: "chunks n [] = []"
  by (simp add: chunks.simps)

lemma concat_chunks: "0 < n \<Longrightarrow> concat (chunks n bs) = bs"
proof (induction n bs rule: chunks.induct)
  case (1 n bs)
  then show ?case by (subst chunks.simps) simp
qed

lemma chunks_size: "c \<in> set (chunks n bs) \<Longrightarrow> c \<noteq> [] \<and> length c \<le> n"
proof (induction n bs rule: chunks.induct)
  case (1 n bs)
  then show ?case by (subst (asm) chunks.simps) (auto split: if_splits)
qed

primrec send_chunks ::
  "'e platform \<Rightarrow> 'e rpmb_impl \<Rightarrow> bytes list \<Rightarrow> ('e, 'z) client_world_scheme \<Rightarrow>
   (int, ('e, 'z) client_world_scheme) outcome"
where
  "send_chunks P I [] w = Ret TRUSTY_ERR_NONE w"
| "send_chunks P I (c # cs) w =
     obind (trusty_send_raw_buffer P I KM_ATAP_SET_CA_RESPONSE_UPDATE (Some c) (of_nat (length c)) None 0 w)
       (\<lambda>(rc, _, _) w. if rc \<noteq> TRUSTY_ERR_NONE then Ret rc w else send_chunks P I cs w)"

text \<open>Only the announced part of the data reaches the request.\<close>

lemma send_raw_take:
  assumes "unat n \<le> length d" "unat n < 2 ^ 32 - 4"
  shows "trusty_send_raw_buffer P I cmd (Some d) n resp sz w =
    trusty_send_raw_buffer P I cmd (Some (take (unat n) d)) n resp sz w"
proof -
  have "km_raw_buffer_serialize P (Some \<lparr>kr_data_size = n, kr_data = Some d\<rparr>) True w =
      km_raw_buffer_serialize P (Some \<lparr>kr_data_size = n, kr_data = Some (take (unat n) d)\<rparr>) True w"
    using assms
    by (subst km_raw_buffer_serialized, simp add: data_ok_def, simp)
       (subst km_raw_buffer_serialized, simp_all add: data_ok_def km_raw_buffer_bytes_def sized_bytes_def data_bytes_def)
  then show ?thesis by (simp add: trusty_send_raw_buffer_def)
qed

definition ca_finish ::
  "'e platform \<Rightarrow> 'e rpmb_impl \<Rightarrow> int \<Rightarrow> ('e, 'z) client_world_scheme \<Rightarrow>
   (int, ('e, 'z) client_world_scheme) outcome"
where
  "ca_finish P I rc w =
     (if rc \<noteq> TRUSTY_ERR_NONE then Ret rc w
      else obind (km_do_tipc P I KM_ATAP_SET_CA_RESPONSE_FINISH None 0 None 0 w) (\<lambda>(rc, _, _) w. Ret rc w))"

lemma chunk_step:
  assumes "sent < sz" "sz \<le> length resp" "k = min 4000 (sz - sent)"
  shows "chunks 4000 (drop sent (take sz resp)) =
      take k (drop sent resp) # chunks 4000 (drop (sent + k) (take sz resp))"
proof -
  let ?bs = "drop sent (take sz resp)"
  from assms have "?bs \<noteq> []" by simp
  then have "chunks 4000 ?bs = take 4000 ?bs # chunks 4000 (drop 4000 ?bs)"
    by (simp add: chunks.simps [of 4000 ?bs])
  moreover have "take 4000 ?bs = take k (drop sent resp)"
    using assms by (simp add: drop_take take_take)
  moreover have "drop 4000 ?bs = drop (sent + k) (take sz resp)"
  proof (cases "4000 \<le> sz - sent")
    case True
    with assms(3) show ?thesis by (simp add: add.commute)
  next
    case False
    with assms have "sz \<le> sent + 4000" "sent + k = sz" by auto
    then show ?thesis by simp
  qed
  ultimately show ?thesis by simp
qed

lemma ca_response_loop_chunks:
  assumes "unat sz \<le> length resp" "unat sent \<le> unat sz"
  shows "ca_response_loop P I resp sz sent w =
    obind (send_chunks P I (chunks 4000 (drop (unat sent) (take (unat sz) resp))) w) (ca_finish P I)"
  using assms
proof (induction P I resp sz sent w rule: ca_response_loop.induct)
  case (1 P I resp sz sent w)
  show ?case
  proof (cases "sent < sz")
    case False
    with 1(3) have "unat sent = unat sz" by (simp add: word_less_nat_alt)
    with False 1(2) show ?thesis
      by (subst ca_response_loop.simps) (simp add: ca_finish_def)
  next
    case True
    let ?n = "ucast (min kMaxSendSize (ucast (sz - sent))) :: u32"
    let ?k = "min 4000 (unat sz - unat sent)"
    let ?c = "take ?k (drop (unat sent) resp)"
    note n = unat_send_size [OF True]
    have lt: "unat sent < unat sz" using True by (simp add: word_less_nat_alt)
    then have len: "length ?c = ?k" using 1(2) by simp
    then have nn: "?n = of_nat (length ?c)" using n by (metis of_nat_unat ucast_id)
    have adv: "unat (sent + ?n) = unat sent + ?k" by (rule bytes_sent_step [OF True refl n])
    have send: "trusty_send_raw_buffer P I KM_ATAP_SET_CA_RESPONSE_UPDATE (Some (drop (unat sent) resp)) ?n None 0 w =
        trusty_send_raw_buffer P I KM_ATAP_SET_CA_RESPONSE_UPDATE (Some ?c) (of_nat (length ?c)) None 0 w"
      using send_raw_take [of ?n "drop (unat sent) resp" P I KM_ATAP_SET_CA_RESPONSE_UPDATE None 0 w] 1(2) lt
      unfolding n nn [symmetric] by auto
    have IH: "ca_response_loop P I resp sz (sent + ?n) w' =
        obind (send_chunks P I (chunks 4000 (drop (unat sent + ?k) (take (unat sz) resp))) w') (ca_finish P I)"
      if "trusty_send_raw_buffer P I KM_ATAP_SET_CA_RESPONSE_UPDATE (Some (drop (unat sent) resp)) ?n None 0 w =
          Ret (TRUSTY_ERR_NONE, x, y) w'" for x y w'
      using 1(1) [OF True refl that refl refl] 1(2) lt by (simp add: adv)
    show ?thesis
      unfolding chunk_step [OF lt 1(2) refl] send_chunks.simps obind_assoc
      by (subst ca_response_loop.simps)
         (auto simp: True Let_def send ca_finish_def IH [unfolded send] intro!: obind_cong split: prod.splits)
  qed
qed

section \<open>Properties: requests\<close>

text \<open>
  C20: a CA response is sent completely and in order. Sending a response of \<open>ca_response_size\<close> bytes
  always terminates and is the same as announcing the size, sending the pieces of at most 4000 bytes
  into which the response splits, each as one update request, until one of them fails, and
  finishing; the pieces are not empty and together are exactly the response.
\<close>

theorem trusty_atap_set_ca_response_chunks:
  assumes "unat ca_response_size \<le> length ca_response"
  shows "trusty_atap_set_ca_response P I ca_response ca_response_size w =
      obind (km_do_tipc P I KM_ATAP_SET_CA_RESPONSE_BEGIN (Some (le32 ca_response_size)) 4 None 0 w)
        (\<lambda>(rc, _, _) w. if rc \<noteq> TRUSTY_ERR_NONE then Ret rc w else
          obind (send_chunks P I (chunks 4000 (take (unat ca_response_size) ca_response)) w) (ca_finish P I)) \<and>
    concat (chunks 4000 (take (unat ca_response_size) ca_response)) = take (unat ca_response_size) ca_response \<and>
    (\<forall>c \<in> set (chunks 4000 (take (unat ca_response_size) ca_response)). c \<noteq> [] \<and> length c \<le> 4000)"
proof (intro conjI ballI)
  show "trusty_atap_set_ca_response P I ca_response ca_response_size w =
      obind (km_do_tipc P I KM_ATAP_SET_CA_RESPONSE_BEGIN (Some (le32 ca_response_size)) 4 None 0 w)
        (\<lambda>(rc, _, _) w. if rc \<noteq> TRUSTY_ERR_NONE then Ret rc w else
          obind (send_chunks P I (chunks 4000 (take (unat ca_response_size) ca_response)) w) (ca_finish P I))"
    unfolding trusty_atap_set_ca_response_def
    by (simp add: split_def ca_response_loop_chunks [OF assms] cong: if_cong)
qed (auto simp: concat_chunks dest: chunks_size)

lemma trusty_atap_set_ca_response_chunks_witness:
  "trusty_atap_set_ca_response script_platform demo_rpmb (replicate 5000 7) 5000 (demo_client_world km_chan True []) =
    obind (km_do_tipc script_platform demo_rpmb KM_ATAP_SET_CA_RESPONSE_BEGIN (Some (le32 5000)) 4 None 0
        (demo_client_world km_chan True []))
      (\<lambda>(rc, _, _) w. if rc \<noteq> TRUSTY_ERR_NONE then Ret rc w else
        obind (send_chunks script_platform demo_rpmb [replicate 4000 7, replicate 1000 7] w)
          (ca_finish script_platform demo_rpmb))"
proof -
  have "chunks 4000 (replicate 5000 7) = [replicate 4000 7, replicate 1000 (7 :: u8)]"
    by (simp add: chunks.simps [of 4000 "replicate _ _"])
  then show ?thesis
    using trusty_atap_set_ca_response_chunks [of 5000 "replicate 5000 7" script_platform demo_rpmb
        "demo_client_world km_chan True []"]
    by (simp add: split_def cong: if_cong)
qed

section \<open>No request object is leaked\<close>

lemma upd_req_balanced: "balanced w (w\<lparr>req_msg := m\<rparr>)" "balanced w (w\<lparr>req_msg := m, req_buf := b\<rparr>)"
  by (simp_all add: balanced_def)

lemma rpmb_storage_send_balanced: "keeps balanced w (rpmb_storage_send I a n b m k w)"
  by (auto simp: rpmb_storage_send_def Let_def balanced_def split: prod.splits)

interpretation balanced_proxy: proxy_frame P balanced I for P I
  by unfold_locales
     (auto simp: upd_req_balanced intro: upd_chan_balanced rpmb_storage_send_balanced)

interpretation balanced_service: service_frame P balanced I for P I ..

lemmas km_do_tipc_balanced = balanced_service.km_do_tipc_frame

text \<open>The heap after an allocation that returned \<open>va\<close>.\<close>

definition heap_plus :: "u64 \<Rightarrow> u64 list \<times> u64 list \<Rightarrow> u64 list \<times> u64 list" where
  "heap_plus va s = (if va = 0 then s else (fst s, va # snd s))"

lemma heap_plus_0 [simp]: "heap_plus 0 = (\<lambda>s. s)"
  by (simp add: heap_plus_def fun_eq_iff)

lemma calloc_alloced: "trusty_calloc P n sz w = Ret va w' \<Longrightarrow> alloced w (heap_plus va) w'"
  by (rule alloced_calls [OF alloced_refl, of w' w "[C_calloc n sz va]"])
     (auto dest: trusty_calloc_Ret simp: heap_plus_def)

lemma free_alloced:
  assumes "alloced w (heap_plus va) w1" "va \<noteq> 0" "sys_call P (C_free va) w1 = Ret u w2"
  shows "alloced w (\<lambda>s. s) w2"
  by (rule alloced_calls [OF assms(1), of w2 "[C_free va]"])
     (use assms(2,3) in \<open>auto simp: heap_plus_def sys_call_def\<close>)

lemma balanced_alloced: "balanced w w' \<longleftrightarrow> alloced w (\<lambda>s. s) w'"
  by (simp add: balanced_def alloced_def)

lemma serializer_alloced:
  "on_ret (\<lambda>(rc, req, bs, n) w'. alloced w (heap_plus req) w')
    (obind (trusty_calloc P k sz w) (\<lambda>out w.
      if out = 0 then Ret (e, 0, [], n) w
      else (case A of None \<Rightarrow> Fault | Some (_, buf) \<Rightarrow> Ret (e', out, buf, n) w)))"
  by (rule on_ret_bindI, drule calloc_alloced) (auto split: option.splits)

lemma serializers_alloced:
  "on_ret (\<lambda>(rc, req, bs, n) w'. alloced w (heap_plus req) w') (km_boot_params_serialize P (Some p) True w)"
  "on_ret (\<lambda>(rc, req, bs, n) w'. alloced w (heap_plus req) w') (km_attestation_data_serialize P (Some d) True w)"
  "on_ret (\<lambda>(rc, req, bs, n) w'. alloced w (heap_plus req) w') (km_raw_buffer_serialize P (Some b) True w)"
  unfolding km_boot_params_serialize_def km_attestation_data_serialize_def km_raw_buffer_serialize_def
    option.case Let_def if_False not_True_eq_False
  by (rule serializer_alloced)+

text \<open>The common shape of the senders: serialize, exchange, free.\<close>

lemma km_sender_balanced:
  assumes "on_ret (\<lambda>(rc, req, bs, n) w'. alloced w (heap_plus req) w') m"
    and "\<And>rc req bs n w1. keeps balanced w1 (f rc req bs n w1)"
  shows "on_ret (\<lambda>_ w'. balanced w w') (obind m (\<lambda>(rc, req, bs, n) w.
    obind (f rc req bs n w) (\<lambda>res w. obind (km_free_req P req w) (\<lambda>_ w. Ret (g res) w))))"
proof (rule on_ret_bindI, rule on_ret_case_prod, rule on_ret_case_prod, rule on_ret_case_prod,
    rule on_ret_bindI, rule on_ret_bindI, goal_cases)
  case (1 p w1 rc q req r bs n res w2 u w3)
  with assms(1) have "alloced w (heap_plus req) w1" by simp
  moreover from 1 assms(2) [of w1 rc req bs n] have "balanced w1 w2" by simp
  ultimately have a: "alloced w (heap_plus req) w2" by (rule alloced_balanced)
  from 1 have f: "km_free_req P req w2 = Ret u w3" by simp
  show ?case
  proof (cases "req = 0")
    case True
    with a f show ?thesis by (simp add: km_free_req_def balanced_alloced)
  next
    case False
    with f free_alloced [OF a] show ?thesis by (simp add: km_free_req_def balanced_alloced)
  qed
qed

lemma km_senders_balanced:
  "on_ret (\<lambda>_ w'. balanced w w') (trusty_set_boot_params P I v pl st lck kh ks h hs w)"
  "on_ret (\<lambda>_ w'. balanced w w') (trusty_send_attestation_data P I cmd data dn alg w)"
  "on_ret (\<lambda>_ w'. balanced w w') (trusty_send_raw_buffer P I cmd rq rn resp sz w)"
proof -
  show "on_ret (\<lambda>_ w'. balanced w w') (trusty_set_boot_params P I v pl st lck kh ks h hs w)"
    unfolding trusty_set_boot_params_def Let_def
    by (rule km_sender_balanced [where g = "\<lambda>x. x", OF serializers_alloced(1)])
       (auto intro!: keeps_if balanced_frame.keeps_bind km_do_tipc_balanced split: prod.splits)
  show "on_ret (\<lambda>_ w'. balanced w w') (trusty_send_attestation_data P I cmd data dn alg w)"
    unfolding trusty_send_attestation_data_def Let_def
    by (rule km_sender_balanced [where g = "\<lambda>x. x", OF serializers_alloced(2)])
       (auto intro!: keeps_if balanced_frame.keeps_bind km_do_tipc_balanced split: prod.splits)
  show "on_ret (\<lambda>_ w'. balanced w w') (trusty_send_raw_buffer P I cmd rq rn resp sz w)"
    unfolding trusty_send_raw_buffer_def Let_def
    by (rule km_sender_balanced [where g = "\<lambda>x. x", OF serializers_alloced(3)])
       (auto intro!: keeps_if km_do_tipc_balanced)
qed

lemma ca_response_loop_balanced: "on_ret (\<lambda>_ w'. balanced w w') (ca_response_loop P I resp sz sent w)"
proof (induction P I resp sz sent w rule: ca_response_loop.induct)
  case (1 P I resp sz sent w)
  let ?n = "ucast (min kMaxSendSize (ucast (sz - sent))) :: u32"
  show ?case
  proof (cases "sent < sz")
    case True
    show ?thesis
      unfolding ca_response_loop.simps [of P I resp sz sent w] if_P [OF True] Let_def
    proof (rule on_ret_bindI, rule on_ret_case_prod, rule on_ret_case_prod, rule on_ret_if, goal_cases)
      case (1 p w1 rc q x y)
      with on_retD [OF km_senders_balanced(3) 1(1)] show ?case by simp
    next
      case (2 p w1 rc q x y)
      note b = on_retD [OF km_senders_balanced(3) 2(1)]
      from 1 [OF True refl 2(1) 2(2) [symmetric] 2(3) [symmetric]] 2(4)
      have "on_ret (\<lambda>_ w'. balanced w1 w') (ca_response_loop P I resp sz (sent + ?n) w1)" by simp
      then show ?case by (rule on_ret_mono) (use b balanced_trans in blast)
    qed
  next
    case False
    then show ?thesis
      using km_do_tipc_balanced [of w P I KM_ATAP_SET_CA_RESPONSE_FINISH None 0 None 0]
      by (subst ca_response_loop.simps)
         (cases "km_do_tipc P I KM_ATAP_SET_CA_RESPONSE_FINISH None 0 None 0 w"; auto)
  qed
qed


section \<open>Properties: the connection\<close>

lemma MessageVersion_new: "trusty_km_version \<le> MessageVersion a b c \<longleftrightarrow> a = 2 \<or> a = 1 \<and> b = 1"
  by (auto simp: MessageVersion_def trusty_km_version_def)

lemma km_tipc_shutdown_Ret:
  assumes "km_tipc_shutdown P w = Ret u w'"
  shows "\<not> km_initialized w' \<and>
    (km_initialized w \<longrightarrow> (\<exists>ch. chans w' km_chan = Some ch \<and> ch_handle ch = INVALID_IPC_HANDLE))"
  using assms by (auto simp: km_tipc_shutdown_def outcome_simps dest!: trusty_ipc_close_Ret split: if_splits)

lemma km_tipc_init_success:
  assumes "km_tipc_init P I dev w = Ret 0 w'"
  obtains w1 rc ver where "km_get_version P I (-1) (w1\<lparr>km_initialized := True\<rparr>) = Ret (rc, ver) w'"
    "0 \<le> rc" "trusty_km_version \<le> ver"
  using assms
  by (auto simp: km_tipc_init_def outcome_simps Let_def trusty_err_defs not_less split: if_splits prod.splits)

lemma km_get_version_success:
  assumes "km_get_version P I (-1) w = Ret (rc, ver) w'" "0 \<le> rc" "trusty_km_version \<le> ver"
  obtains w1 n bs where "km_read_raw_response P I KM_GET_VERSION (Some (uninit P 7)) 7 w1 = Ret (n, Some bs) w'"
    "0 \<le> n" "ver = MessageVersion (bs ! 4) (bs ! 5) (bs ! 6)"
  using assms
  by (auto simp: km_get_version_def outcome_simps Let_def trusty_err_defs not_less trusty_km_version_def
      km_read_raw_response_def split: if_splits prod.splits)

text \<open>
  The keymaster connection. \<open>km_tipc_init\<close> returns 0 only when the service was connected and its
  reply to the version query named version 1.1 or 2; every other result is negative. Once the
  service is connected the client counts as initialised even when the version is refused, so that
  \<open>km_tipc_shutdown\<close> afterwards closes the channel and leaves the client uninitialised.
\<close>

theorem km_tipc_lifecycle:
  "on_ret (\<lambda>r w'.
      (r = 0 \<or> r < 0) \<and>
      (r = 0 \<longrightarrow> km_initialized w' \<and>
        (\<exists>w1 rc bs. km_read_raw_response P I KM_GET_VERSION (Some (uninit P 7)) 7 w1 = Ret (rc, Some bs) w' \<and>
          0 \<le> rc \<and> (bs ! 4 = 2 \<or> bs ! 4 = 1 \<and> bs ! 5 = 1))) \<and>
      on_ret (\<lambda>_ w''. \<not> km_initialized w'' \<and>
        (km_initialized w' \<longrightarrow> (\<exists>ch. chans w'' km_chan = Some ch \<and> ch_handle ch = INVALID_IPC_HANDLE)))
        (km_tipc_shutdown P w'))
    (km_tipc_init P I dev w)"
proof (rule on_retI, intro conjI impI, goal_cases)
  case (1 r w')
  then show ?case
    by (auto simp: km_tipc_init_def outcome_simps Let_def trusty_err_defs split: if_splits prod.splits)
next
  case (2 r w')
  then obtain w1 rc ver where "km_get_version P I (-1) (w1\<lparr>km_initialized := True\<rparr>) = Ret (rc, ver) w'"
    by (auto elim: km_tipc_init_success)
  then have "client_keeps (w1\<lparr>km_initialized := True\<rparr>) w'" by (rule keeps_Ret [OF client_service.km_get_version_frame])
  from client_keeps_fields [OF this] show ?case by simp
next
  case (3 r w')
  then obtain w1 rc ver where v: "km_get_version P I (-1) w1 = Ret (rc, ver) w'" "0 \<le> rc" "trusty_km_version \<le> ver"
    by (auto elim: km_tipc_init_success)
  from v obtain w2 n bs where "km_read_raw_response P I KM_GET_VERSION (Some (uninit P 7)) 7 w2 = Ret (n, Some bs) w'"
    "0 \<le> n" "ver = MessageVersion (bs ! 4) (bs ! 5) (bs ! 6)" by (rule km_get_version_success)
  with v(3) MessageVersion_new [of "bs ! 4" "bs ! 5" "bs ! 6"] show ?case by blast
next
  case (4 r w')
  show ?case by (rule on_retI) (rule km_tipc_shutdown_Ret)
qed

section \<open>Where the client trusts the service\<close>

text \<open>
  A data response of one frame on the scripted platform: the service announces \<open>len\<close> bytes of data
  and sends \<open>data\<close>.
\<close>

lemma script_km_data:
  assumes "script_world km_chan (script_exchange km_chan
      (le32 (cmd OR KEYMASTER_RESP_BIT OR KEYMASTER_STOP_BIT) @ le32 0 @ le32 len @ data) @ rest, a) w"
    and "length data \<le> 4000" "4096 \<le> length buf" "length buf < 2 ^ 31" "cmd \<in> {0x8000, 0x10000, 0x20000}"
    and "length bs \<le> 4000"
  shows "\<exists>w'. km_do_tipc script_platform I cmd (Some bs) (of_nat (length bs)) (Some buf) (of_nat (length buf)) w =
    Ret (0, Some (put_bytes 0 data buf), len) w'"
proof -
  let ?c = "cmd OR KEYMASTER_RESP_BIT OR KEYMASTER_STOP_BIT" and ?tab = "tipc_ops script_platform I"
  let ?m = "le32 ?c @ le32 0 @ le32 len @ data"
  let ?out = "[\<lparr>iov_base = le32 cmd, iov_len = 4\<rparr>, \<lparr>iov_base = bs, iov_len = ucast (of_nat (length bs) :: u32)\<rparr>]"
  let ?iovs = "[\<lparr>iov_base = le32 cmd, iov_len = 4\<rparr>, \<lparr>iov_base = uninit script_platform 4, iov_len = 4\<rparr>,
    \<lparr>iov_base = le32 (of_nat (length buf)), iov_len = 4\<rparr>,
    \<lparr>iov_base = buf, iov_len = min 4096 (ucast (of_nat (length buf) :: u32))\<rparr>]"
  have b: "unat (of_nat (length buf) :: u32) = length buf" "unat (of_nat (length bs) :: u32) = length bs"
    using assms(4,6) by (simp_all add: unat_of_nat)
  then have n: "min 4096 (ucast (of_nat (length buf) :: u32)) = (4096 :: u64)"
    using assms(3) by (simp add: min_def word_le_nat_alt)
  have ok: "list_all iov_ok ?out" "iov_total ?out \<le> 4080" "list_all iov_ok ?iovs"
    "length ?m \<le> iov_total ?iovs" "length ?m \<le> 4080"
    unfolding n using assms(2,3,6) b by (simp_all add: iov_ok_def uninit_def)
  have tab: "?tab Sync_ipc_ops = sync_ipc_ops" by (simp add: tipc_ops_def)
  obtain w1 w2 where x: "trusty_ipc_send script_platform ?tab km_chan ?out True w = Ret 0 w1"
    "trusty_ipc_recv script_platform ?tab km_chan ?iovs True w1 = Ret (int (length ?m), scatter ?iovs ?m) w2"
    using script_session [where tab = ?tab, OF assms(1) tab ok] by blast
  have s: "scatter ?iovs ?m = [\<lparr>iov_base = le32 ?c, iov_len = 4\<rparr>, \<lparr>iov_base = le32 0, iov_len = 4\<rparr>,
      \<lparr>iov_base = le32 len, iov_len = 4\<rparr>, \<lparr>iov_base = put_bytes 0 data buf, iov_len = 4096\<rparr>]"
    unfolding n using assms(2,3) by (simp add: put_bytes_def uninit_def del: le_bytes_zero)
  have c: "(?c AND NOT KEYMASTER_STOP_BIT) = cmd OR KEYMASTER_RESP_BIT" "?c AND KEYMASTER_STOP_BIT \<noteq> 0"
    using assms(5) by (auto simp: KEYMASTER_RESP_BIT_def KEYMASTER_STOP_BIT_def)
  show ?thesis
    using x(2) [unfolded s] c x(1)
    by (simp add: km_do_tipc_def km_send_request_def km_read_data_response_def Let_def check_response_error_def
        KM_ERROR_OK_def trusty_err_defs del: le_bytes_zero)
qed

text \<open>
  The announced length of a data response is not checked. A service that marks its first frame as
  the last one makes \<open>trusty_atap_get_ca_request\<close> return success with any length it likes: here an
  object of 10000 bytes is handed to the caller with a size of 4294967295.
\<close>

theorem trusty_atap_get_ca_request_unchecked_size:
  "\<exists>w w' :: script client_world.
     trusty_atap_get_ca_request script_platform demo_rpmb None 0 w =
       Ret (0, 0x9000, replicate 10000 0, 0xFFFFFFFF) w'"
proof -
  let ?cmd = "KM_ATAP_GET_CA_REQUEST"
  let ?s = "script_exchange km_chan (le32 (?cmd OR KEYMASTER_RESP_BIT OR KEYMASTER_STOP_BIT) @ le32 0 @ le32 0xFFFFFFFF @ [])"
  let ?w = "demo_client_world km_chan True ?s"
  let ?w1 = "?w\<lparr>calls := [C_calloc 1 10000 0x9000, C_calloc 4 1 0x9000]\<rparr>"
  have cmd: "?cmd \<in> {0x8000, 0x10000, 0x20000}"
    by (simp add: KM_ATAP_GET_CA_REQUEST_def KEYMASTER_REQ_SHIFT_def)
  have sw: "script_world km_chan (?s @ [], 0x8000) ?w1"
    using demo_client_script [of km_chan ?s True] by (simp add: script_chan_def)
  have len: "length (replicate 10000 0 :: bytes) = 10000" by simp
  obtain w' where d: "km_do_tipc script_platform demo_rpmb ?cmd (Some (le32 0)) 4 (Some (replicate 10000 0)) 10000 ?w1 =
      Ret (0, Some (replicate 10000 0), 0xFFFFFFFF) w'"
    using script_km_data [OF sw _ _ _ cmd, of "replicate 10000 0" "le32 0" demo_rpmb] by (auto simp del: le_bytes_zero)
  have "trusty_calloc script_platform 1 10000 ?w = Ret 0x9000 (?w\<lparr>calls := [C_calloc 1 10000 0x9000]\<rparr>)"
    by (simp add: trusty_calloc_def script_platform_def demo_client_world_def)
  moreover have "km_raw_buffer_serialize script_platform (Some \<lparr>kr_data_size = 0, kr_data = None\<rparr>) True
      (?w\<lparr>calls := [C_calloc 1 10000 0x9000]\<rparr>) = Ret (0, 0x9000, le32 0, 4) ?w1"
    by (subst km_raw_buffer_serialized)
       (simp_all add: data_ok_def serialized_def km_raw_buffer_bytes_def sized_bytes_def data_bytes_def
          trusty_calloc_def script_platform_def demo_client_world_def trusty_err_defs)
  ultimately have "\<exists>w'. trusty_atap_get_ca_request script_platform demo_rpmb None 0 ?w =
      Ret (0, 0x9000, replicate 10000 0, 0xFFFFFFFF) w'"
    using d
    by (simp add: trusty_atap_get_ca_request_def trusty_send_raw_buffer_def kMaxCaRequestSize_def ptr_bytes_def
        km_free_req_def sys_call_def trusty_err_defs del: le_bytes_zero)
  then show ?thesis by blast
qed

text \<open>
  Reading the UUID string with the address of a single pointer, as its interface asks for, is
  undefined: the code writes through the thirty-third pointer behind the caller's variable.
\<close>

theorem trusty_atap_read_uuid_str_undefined:
  assumes "length slots \<le> 32"
  shows "trusty_atap_read_uuid_str P I slots w = Fault"
  using assms by (simp add: trusty_atap_read_uuid_str_def trusty_calloc_def kUuidSize_def split: prod.splits)

lemma trusty_atap_read_uuid_str_undefined_witness:
  "trusty_atap_read_uuid_str script_platform demo_rpmb [0] (demo_client_world km_chan True []) = Fault"
  using trusty_atap_read_uuid_str_undefined [of "[0]"] by simp

section \<open>Starting the client on the scripted platform\<close>

text \<open>The service accepts the connection and answers the version query with version 2.\<close>

definition script_km_start :: "u32 \<Rightarrow> (smc_ret8 \<times> (u64 \<times> bytes) option) list" where
  "script_km_start h = script_connection km_chan h @ script_exchange km_chan (le32 31 @ le32 0 @ [2, 0, 0])"

lemma script_km_version:
  assumes "script_world km_chan (script_exchange km_chan (le32 31 @ le32 0 @ [2, 0, 0]) @ rest, a) w"
  shows "\<exists>w'. km_get_version script_platform I v w = Ret (0, MessageVersion 2 0 0) w' \<and>
    script_world km_chan (rest, a) w' \<and> world.more w' = world.more w"
proof -
  let ?tab = "tipc_ops script_platform I" and ?m = "le32 31 @ le32 0 @ [2, 0, 0]"
  let ?out = "[\<lparr>iov_base = le32 28, iov_len = 4\<rparr>]"
  let ?iovs = "[\<lparr>iov_base = le32 28, iov_len = 4\<rparr>, \<lparr>iov_base = uninit script_platform 7, iov_len = 7\<rparr>]"
  have ok: "list_all iov_ok ?out" "iov_total ?out \<le> 4080" "list_all iov_ok ?iovs"
    "length ?m \<le> iov_total ?iovs" "length ?m \<le> 4080"
    by (simp_all add: iov_ok_def uninit_def)
  have tab: "?tab Sync_ipc_ops = sync_ipc_ops" by (simp add: tipc_ops_def)
  obtain w1 w2 where x: "trusty_ipc_send script_platform ?tab km_chan ?out True w = Ret 0 w1"
    "trusty_ipc_recv script_platform ?tab km_chan ?iovs True w1 = Ret (int (length ?m), scatter ?iovs ?m) w2"
    "script_world km_chan (rest, a) w2" "world.more w2 = world.more w"
    using script_session [where tab = ?tab, OF assms tab ok] by blast
  have s: "scatter ?iovs ?m = [\<lparr>iov_base = le32 31, iov_len = 4\<rparr>, \<lparr>iov_base = le32 0 @ [2, 0, 0], iov_len = 7\<rparr>]"
    by (simp add: uninit_def put_bytes_def del: le_bytes_zero)
  have kv: "KM_GET_VERSION = 28" by (simp add: KM_GET_VERSION_def KEYMASTER_REQ_SHIFT_def)
  have "km_get_version script_platform I v w = Ret (0, MessageVersion 2 0 0) w2"
    using x(1) x(2) [unfolded s]
    by (simp add: km_get_version_def km_send_request_def km_read_raw_response_def km_raw_response_loop.simps
        check_response_error_def KEYMASTER_RESP_BIT_def KEYMASTER_STOP_BIT_def KEYMASTER_MAX_BUFFER_LENGTH_def
        c_int_def Let_def trusty_err_defs kv nth_append)
  with x(3,4) show ?thesis by blast
qed

lemma script_km_init:
  fixes w :: "(script, 'z) client_world_scheme"
  assumes "script_mem (script_km_start h @ rest, a) w" "0 \<le> c_int h"
  shows "\<exists>w'. km_tipc_init script_platform I demo_idev w = Ret 0 w' \<and> km_initialized w' \<and>
    script_world km_chan (rest, a) w' \<and> client_world.more w' = client_world.more w \<and>
    rp_initialized w' = rp_initialized w \<and> avb_initialized w' = avb_initialized w"
proof -
  let ?tab = "tipc_ops script_platform I :: (script, _) ops_table"
  let ?s = "script_exchange km_chan (le32 31 @ le32 0 @ [2, 0, 0]) @ rest"
  from script_chan_init [OF assms(1), of km_chan] obtain w1 where
    w1: "trusty_ipc_chan_init km_chan demo_idev w = Ret () w1" "world.more w1 = world.more w"
      "script_world km_chan (script_connection km_chan h @ ?s, a) w1" by (auto simp: script_km_start_def)
  have tab: "?tab Sync_ipc_ops = sync_ipc_ops" by (simp add: tipc_ops_def)
  have port: "length KEYMASTER_PORT \<le> 4063" by (simp add: KEYMASTER_PORT_def cstr_def)
  from script_connect [where tab = ?tab, OF w1(3) tab port assms(2)] obtain w2 where
    w2: "trusty_ipc_connect script_platform ?tab km_chan KEYMASTER_PORT True w1 = Ret 1 w2"
      "script_world km_chan (?s, a) w2" "world.more w2 = world.more w1" by blast
  let ?w = "w2\<lparr>km_initialized := True\<rparr>"
  have "script_world km_chan (?s, a) ?w" using w2(2) by (simp add: script_chan_def)
  from script_km_version [OF this, of I "-1"] obtain w3 where
    w3: "km_get_version script_platform I (-1) ?w = Ret (0, MessageVersion 2 0 0) w3"
      "script_world km_chan (rest, a) w3" "world.more w3 = world.more ?w" by blast
  have "trusty_km_version \<le> MessageVersion 2 0 0" by (simp add: MessageVersion_def trusty_km_version_def)
  then have "km_tipc_init script_platform I demo_idev w = Ret 0 w3"
    using w1(1) w2(1) w3(1) by (simp add: km_tipc_init_def Let_def trusty_err_defs)
  moreover have "client_world.more w3 = client_world.more w" "rp_initialized w3 = rp_initialized w"
    "avb_initialized w3 = avb_initialized w" "km_initialized w3"
    using w3(3) w2(3) w1(2) by (cases w, cases w1, cases w2, cases w3, simp)+
  ultimately show ?thesis using w3(2) by simp
qed

lemma km_tipc_lifecycle_witness:
  "\<exists>w'. km_tipc_init script_platform demo_rpmb demo_idev (demo_client_world km_chan False (script_km_start 3)) = Ret 0 w' \<and>
     km_initialized w' \<and> on_ret (\<lambda>_ w''. \<not> km_initialized w'') (km_tipc_shutdown script_platform w')"
proof -
  let ?w = "demo_client_world km_chan False (script_km_start 3)"
  have "script_mem (script_km_start 3 @ [], 0x8000) ?w"
    using demo_client_script [THEN script_chan_mem] by simp
  moreover have "0 \<le> c_int (3 :: u32)" by (simp add: c_int_def)
  ultimately obtain w' where r: "km_tipc_init script_platform demo_rpmb demo_idev ?w = Ret 0 w'"
    using script_km_init [of 3 "[]" "0x8000" ?w demo_rpmb] by blast
  from on_retD [OF km_tipc_lifecycle r] have "km_initialized w'"
    "on_ret (\<lambda>_ w''. \<not> km_initialized w'') (km_tipc_shutdown script_platform w')"
    by (auto elim: on_ret_mono)
  with r show ?thesis by blast
qed
end
