(* ===== verification/Hwbcc.thy ===== *)
theory Hwbcc
  imports Keymaster
begin

text \<open>
  The client of the boot certificate chain service, \<open>ql-tipc/hwbcc.c\<close>, with its protocol
  (\<open>interface/hwbcc/hwbcc.h\<close>). The status that stands for success, \<open>NO_ERROR\<close>, comes from a header
  outside of the repository and is the parameter \<open>no_error\<close>. The lemmas show that the client, unlike
  the keymaster client, accepts a payload only if its announced size is the size received.
\<close>

section \<open>The protocol\<close>

definition HWBCC_PORT :: cstring where "HWBCC_PORT = cstr ''com.android.trusty.hwbcc''"
definition HWBCC_CMD_REQ_SHIFT :: nat where "HWBCC_CMD_REQ_SHIFT = 1"
definition HWBCC_CMD_RESP_BIT :: u32 where "HWBCC_CMD_RESP_BIT = 1"
definition HWBCC_CMD_GET_DICE_ARTIFACTS :: u32 where
  "HWBCC_CMD_GET_DICE_ARTIFACTS = push_bit HWBCC_CMD_REQ_SHIFT 3"
definition HWBCC_CMD_NS_DEPRIVILEGE :: u32 where
  "HWBCC_CMD_NS_DEPRIVILEGE = push_bit HWBCC_CMD_REQ_SHIFT 4"

record hwbcc_req_hdr =
  hq_cmd :: u32
  hq_test_mode :: u32
  hq_context :: u64

definition hwbcc_req_hdr_bytes :: "hwbcc_req_hdr \<Rightarrow> bytes" where
  "hwbcc_req_hdr_bytes h = le32 (hq_cmd h) @ le32 (hq_test_mode h) @ le64 (hq_context h)"

record hwbcc_resp_hdr =
  hr_cmd :: u32
  hr_status :: u32
  hr_payload_size :: u32

definition hwbcc_resp_hdr_of_bytes :: "bytes \<Rightarrow> hwbcc_resp_hdr" where
  "hwbcc_resp_hdr_of_bytes bs =
     \<lparr>hr_cmd = le_word (get_bytes 0 4 bs), hr_status = le_word (get_bytes 4 4 bs),
      hr_payload_size = le_word (get_bytes 8 4 bs)\<rparr>"

section \<open>State\<close>

record 'e hwbcc_world = "'e client_world" +
  hwbcc_initialized :: bool

definition hwbcc_chan :: u64 where "hwbcc_chan = 0x400"

section \<open>Operations\<close>

definition hwbcc_tipc_init ::
  "'e platform \<Rightarrow> 'e rpmb_impl \<Rightarrow> trusty_ipc_dev \<Rightarrow> ('e, 'z) hwbcc_world_scheme \<Rightarrow>
   (int, ('e, 'z) hwbcc_world_scheme) outcome"
where
  "hwbcc_tipc_init P I dev w =
     obind (trusty_ipc_chan_init hwbcc_chan dev w) (\<lambda>_ w.
     obind (trusty_ipc_connect P (tipc_ops P I) hwbcc_chan HWBCC_PORT True w) (\<lambda>rc w.
     if rc < 0 then Ret rc w else Ret TRUSTY_ERR_NONE (w\<lparr>hwbcc_initialized := True\<rparr>)))"

definition hwbcc_tipc_shutdown ::
  "'e platform \<Rightarrow> ('e, 'z) hwbcc_world_scheme \<Rightarrow> (unit, ('e, 'z) hwbcc_world_scheme) outcome"
where
  "hwbcc_tipc_shutdown P w =
     (if \<not> hwbcc_initialized w then Ret () w
      else obind (trusty_ipc_close P hwbcc_chan w) (\<lambda>_ w. Ret () (w\<lparr>hwbcc_initialized := False\<rparr>)))"

definition send_header_only_request ::
  "'e platform \<Rightarrow> 'e rpmb_impl \<Rightarrow> hwbcc_req_hdr \<Rightarrow> u64 \<Rightarrow> ('e, 'z) hwbcc_world_scheme \<Rightarrow>
   (int, ('e, 'z) hwbcc_world_scheme) outcome"
where
  "send_header_only_request P I hdr hdr_size w =
     trusty_ipc_send P (tipc_ops P I) hwbcc_chan
       [\<lparr>iov_base = hwbcc_req_hdr_bytes hdr, iov_len = hdr_size\<rparr>] True w"

text \<open>The result is the return value, the buffer and \<open>*out_size\<close> afterwards.\<close>

definition read_response_with_data ::
  "'e platform \<Rightarrow> 'e rpmb_impl \<Rightarrow> u32 \<Rightarrow> hwbcc_req_hdr \<Rightarrow> bytes \<Rightarrow> u64 \<Rightarrow> u64 \<Rightarrow>
   ('e, 'z) hwbcc_world_scheme \<Rightarrow> (int \<times> bytes \<times> u64, ('e, 'z) hwbcc_world_scheme) outcome"
where
  "read_response_with_data P I no_error hdr buf buf_size out_size w =
     obind (trusty_ipc_recv P (tipc_ops P I) hwbcc_chan
         [\<lparr>iov_base = replicate 12 0, iov_len = 12\<rparr>, \<lparr>iov_base = buf, iov_len = buf_size\<rparr>] True w)
       (\<lambda>(rc, iovs) w.
       let resp_hdr = hwbcc_resp_hdr_of_bytes (iov_base (iovs ! 0)); buf = iov_base (iovs ! 1) in
       if rc < 0 then Ret (rc, buf, out_size) w
       else if rc < 12 then Ret (TRUSTY_ERR_GENERIC, buf, out_size) w
       else if hr_cmd resp_hdr \<noteq> hq_cmd hdr OR HWBCC_CMD_RESP_BIT then Ret (TRUSTY_ERR_GENERIC, buf, out_size) w
       else if hr_status resp_hdr \<noteq> no_error then Ret (TRUSTY_ERR_GENERIC, buf, out_size) w
       else if ucast (hr_payload_size resp_hdr) \<noteq> (word_of_int rc - 12 :: u64)
         then Ret (TRUSTY_ERR_GENERIC, buf, out_size) w
       else Ret (rc, buf, ucast (hr_payload_size resp_hdr)) w)"

definition read_header_only_response ::
  "'e platform \<Rightarrow> 'e rpmb_impl \<Rightarrow> u32 \<Rightarrow> hwbcc_req_hdr \<Rightarrow> ('e, 'z) hwbcc_world_scheme \<Rightarrow>
   (int, ('e, 'z) hwbcc_world_scheme) outcome"
where
  "read_header_only_response P I no_error hdr w =
     obind (trusty_ipc_recv P (tipc_ops P I) hwbcc_chan [\<lparr>iov_base = replicate 12 0, iov_len = 12\<rparr>] True w)
       (\<lambda>(rc, iovs) w.
       let resp_hdr = hwbcc_resp_hdr_of_bytes (iov_base (iovs ! 0)) in
       if rc < 0 then Ret rc w
       else if rc < 12 then Ret TRUSTY_ERR_GENERIC w
       else if hr_cmd resp_hdr \<noteq> hq_cmd hdr OR HWBCC_CMD_RESP_BIT then Ret TRUSTY_ERR_GENERIC w
       else if hr_status resp_hdr \<noteq> no_error then Ret TRUSTY_ERR_GENERIC w
       else Ret rc w)"

text \<open>The header on the stack is not initialised; its \<open>test_mode\<close> is never set.\<close>

definition hwbcc_get_dice_artifacts ::
  "'e platform \<Rightarrow> 'e rpmb_impl \<Rightarrow> u32 \<Rightarrow> u64 \<Rightarrow> bytes \<Rightarrow> u64 \<Rightarrow> u64 \<Rightarrow>
   ('e, 'z) hwbcc_world_scheme \<Rightarrow> (int \<times> bytes \<times> u64, ('e, 'z) hwbcc_world_scheme) outcome"
where
  "hwbcc_get_dice_artifacts P I no_error context dice_artifacts buf_size artifacts_size w =
     (let hdr = \<lparr>hq_cmd = HWBCC_CMD_GET_DICE_ARTIFACTS, hq_test_mode = le_word (uninit P 4),
                 hq_context = context\<rparr> in
      obind (send_header_only_request P I hdr 16 w) (\<lambda>rc w.
      if rc < 0 then Ret (rc, dice_artifacts, artifacts_size) w else
      obind (read_response_with_data P I no_error hdr dice_artifacts buf_size artifacts_size w)
        (\<lambda>(rc, buf, sz) w. if rc < 0 then Ret (rc, buf, sz) w else Ret (TRUSTY_ERR_NONE, buf, sz) w)))"

definition hwbcc_ns_deprivilege ::
  "'e platform \<Rightarrow> 'e rpmb_impl \<Rightarrow> u32 \<Rightarrow> ('e, 'z) hwbcc_world_scheme \<Rightarrow>
   (int, ('e, 'z) hwbcc_world_scheme) outcome"
where
  "hwbcc_ns_deprivilege P I no_error w =
     (let hdr = \<lparr>hq_cmd = HWBCC_CMD_NS_DEPRIVILEGE, hq_test_mode = 0, hq_context = 0\<rparr> in
      obind (send_header_only_request P I hdr 16 w) (\<lambda>rc w.
      if rc < 0 then Ret rc w else
      obind (read_header_only_response P I no_error hdr w) (\<lambda>rc w.
      if rc < 0 then Ret rc w else Ret TRUSTY_ERR_NONE w)))"

section \<open>Lemmas\<close>

lemma length_hwbcc_req_hdr_bytes [simp]: "length (hwbcc_req_hdr_bytes h) = 16"
  by (simp add: hwbcc_req_hdr_bytes_def)

lemma send_header_transmitted:
  assumes "send_header_only_request P I hdr 16 w = Ret r w'" "0 \<le> r" "chans_ok w"
  shows "transmitted P hwbcc_chan (hwbcc_req_hdr_bytes hdr) w w'"
  using trusty_ipc_send_transmitted [OF assms(1) [unfolded send_header_only_request_def] assms(2,3)]
  by (simp add: iov_ok_def)

lemma read_response_with_data_shape:
  assumes "read_response_with_data P I e hdr buf n sz w = Ret (rc, buf', sz') w'" "unat n < 2 ^ 31 - 12"
  shows "length buf' = length buf \<and> (rc < 0 \<longrightarrow> sz' = sz) \<and> (0 \<le> rc \<longrightarrow> rc = 12 + int (unat sz') \<and> unat sz' \<le> unat n)"
proof -
  let ?iovs = "[\<lparr>iov_base = replicate 12 0, iov_len = 12\<rparr>, \<lparr>iov_base = buf, iov_len = n\<rparr>]"
  from assms(1) obtain r js where v: "trusty_ipc_recv P (tipc_ops P I) hwbcc_chan ?iovs True w = Ret (r, js) w'"
    by (auto simp: read_response_with_data_def outcome_simps Let_def split: if_splits)
  from ipc_transport.recv_two [OF v] assms(2) obtain a b where
    js: "js = [a, b]" "length (iov_base b) = length buf" "r \<le> int (12 + unat n)" by auto
  from assms(1) v js have len: "buf' = iov_base b"
    by (auto simp: read_response_with_data_def Let_def split: if_splits)
  show ?thesis
  proof (cases "rc < 0")
    case True
    with assms(1) v js len show ?thesis
      by (auto simp: read_response_with_data_def Let_def split: if_splits)
  next
    case False
    with assms(1) v js have c: "rc = r" "12 \<le> r" "sz' = word_of_int r - 12"
      by (auto simp: read_response_with_data_def Let_def trusty_err_defs split: if_splits)
    obtain k where k: "r = 12 + int k" using c(2) nat_0_le [of "r - 12"] by (metis diff_ge_0_iff_ge diff_eq_eq add.commute)
    have "k \<le> unat n" using js(3) k by linarith
    moreover from this assms(2) k have "unat sz' = k"
      by (simp add: c(3) unat_of_nat)
    ultimately show ?thesis using k c len js(2) by simp
  qed
qed

text \<open>
  \<open>dice_accepted\<close>: the reply taken from the channel acknowledges the command with the status for
  success and the size of the payload received.
\<close>

definition dice_accepted ::
  "'e platform \<Rightarrow> 'e rpmb_impl \<Rightarrow> u32 \<Rightarrow> bytes \<Rightarrow> u64 \<Rightarrow> ('e, 'z) hwbcc_world_scheme \<Rightarrow> bytes \<Rightarrow> u64 \<Rightarrow>
   ('e, 'z) hwbcc_world_scheme \<Rightarrow> bool"
where
  "dice_accepted P I no_error buf n w1 buf' sz' w' \<longleftrightarrow>
     (\<exists>iovs.
        trusty_ipc_recv P (tipc_ops P I) hwbcc_chan
          [\<lparr>iov_base = replicate 12 0, iov_len = 12\<rparr>, \<lparr>iov_base = buf, iov_len = n\<rparr>] True w1 =
          Ret (12 + int (unat sz'), iovs) w' \<and>
        buf' = iov_base (iovs ! 1) \<and>
        hwbcc_resp_hdr_of_bytes (iov_base (iovs ! 0)) =
          \<lparr>hr_cmd = HWBCC_CMD_GET_DICE_ARTIFACTS OR HWBCC_CMD_RESP_BIT, hr_status = no_error,
           hr_payload_size = ucast sz'\<rparr>)"

lemma ucast_ucast_u32: "(ucast (ucast x :: u64) :: u32) = x"
  by transfer simp

lemma read_response_accepted:
  assumes "read_response_with_data P I e \<lparr>hq_cmd = HWBCC_CMD_GET_DICE_ARTIFACTS, hq_test_mode = tm, hq_context = c\<rparr>
      buf n sz w = Ret (rc, buf', sz') w'" "0 \<le> rc" "rc = 12 + int (unat sz')"
  shows "dice_accepted P I e buf n w buf' sz' w'"
proof -
  from assms obtain r iovs where
    v: "trusty_ipc_recv P (tipc_ops P I) hwbcc_chan
          [\<lparr>iov_base = replicate 12 0, iov_len = 12\<rparr>, \<lparr>iov_base = buf, iov_len = n\<rparr>] True w = Ret (r, iovs) w'"
    by (auto simp: read_response_with_data_def outcome_simps Let_def split: if_splits)
  let ?h = "hwbcc_resp_hdr_of_bytes (iov_base (iovs ! 0))"
  from assms(1,2) v have f: "r = rc" "buf' = iov_base (iovs ! 1)" "sz' = ucast (hr_payload_size ?h)"
    "hr_cmd ?h = HWBCC_CMD_GET_DICE_ARTIFACTS OR HWBCC_CMD_RESP_BIT" "hr_status ?h = e"
    by (auto simp: read_response_with_data_def Let_def trusty_err_defs split: if_splits)
  have "hr_payload_size ?h = ucast sz'" by (simp only: f(3) ucast_ucast_u32)
  with f(4,5) have h: "?h = \<lparr>hr_cmd = HWBCC_CMD_GET_DICE_ARTIFACTS OR HWBCC_CMD_RESP_BIT, hr_status = e,
      hr_payload_size = ucast sz'\<rparr>" by (cases ?h) simp
  from v have "trusty_ipc_recv P (tipc_ops P I) hwbcc_chan
      [\<lparr>iov_base = replicate 12 0, iov_len = 12\<rparr>, \<lparr>iov_base = buf, iov_len = n\<rparr>] True w =
      Ret (12 + int (unat sz'), iovs) w'" unfolding f(1) assms(3) .
  with f(2) h show ?thesis unfolding dice_accepted_def by blast
qed

section \<open>Properties\<close>

text \<open>
  C22: DICE artifacts are accepted only with a consistent size. When \<open>hwbcc_get_dice_artifacts\<close>
  returns 0, the one message transmitted was the request header with the caller's context, and the
  reply acknowledged the command with the status for success and a payload of exactly the announced
  size, which is what the caller gets and at most the size of its buffer. Every other result is
  negative and leaves the reported size as it was; the buffer never changes its size.
\<close>

theorem hwbcc_get_dice_artifacts_checked:
  assumes "chans_ok w" "unat n < 2 ^ 31 - 12"
  shows "on_ret (\<lambda>(rc, buf', sz') w'.
      rc \<le> 0 \<and> length buf' = length buf \<and> (rc < 0 \<longrightarrow> sz' = sz) \<and>
      (rc = 0 \<longrightarrow> unat sz' \<le> unat n \<and>
        (\<exists>w1. transmitted P hwbcc_chan (le32 6 @ le32 (le_word (uninit P 4)) @ le64 context) w w1 \<and>
          dice_accepted P I no_error buf n w1 buf' sz' w')))
    (hwbcc_get_dice_artifacts P I no_error context buf n sz w)"
proof (rule on_retI)
  fix p w' assume r: "hwbcc_get_dice_artifacts P I no_error context buf n sz w = Ret p w'"
  let ?hdr = "\<lparr>hq_cmd = HWBCC_CMD_GET_DICE_ARTIFACTS, hq_test_mode = le_word (uninit P 4), hq_context = context\<rparr>"
  obtain rc buf' sz' where p: "p = (rc, buf', sz')" by (cases p)
  from r obtain r0 w1 where s: "send_header_only_request P I ?hdr 16 w = Ret r0 w1"
    by (auto simp: hwbcc_get_dice_artifacts_def Let_def outcome_simps)
  show "(case p of (rc, buf', sz') \<Rightarrow> \<lambda>w'.
      rc \<le> 0 \<and> length buf' = length buf \<and> (rc < 0 \<longrightarrow> sz' = sz) \<and>
      (rc = 0 \<longrightarrow> unat sz' \<le> unat n \<and>
        (\<exists>w1. transmitted P hwbcc_chan (le32 6 @ le32 (le_word (uninit P 4)) @ le64 context) w w1 \<and>
          dice_accepted P I no_error buf n w1 buf' sz' w'))) w'"
  proof (cases "r0 < 0")
    case True
    with r s p show ?thesis by (simp add: hwbcc_get_dice_artifacts_def Let_def)
  next
    case False
    with send_header_transmitted [OF s _ assms(1)]
    have t: "transmitted P hwbcc_chan (le32 6 @ le32 (le_word (uninit P 4)) @ le64 context) w w1"
      by (simp add: hwbcc_req_hdr_bytes_def HWBCC_CMD_GET_DICE_ARTIFACTS_def HWBCC_CMD_REQ_SHIFT_def)
    from r s p False obtain r1 where
      v: "read_response_with_data P I no_error ?hdr buf n sz w1 = Ret (r1, buf', sz') w'"
        "rc = (if r1 < 0 then r1 else 0)"
      by (auto simp: hwbcc_get_dice_artifacts_def Let_def outcome_simps trusty_err_defs split: if_splits)
    note shape = read_response_with_data_shape [OF v(1) assms(2)]
    have "dice_accepted P I no_error buf n w1 buf' sz' w'" if "0 \<le> r1"
      using read_response_accepted [OF v(1) that] shape that
      by (simp add: HWBCC_CMD_GET_DICE_ARTIFACTS_def HWBCC_CMD_REQ_SHIFT_def)
    with t v(2) p shape show ?thesis by auto
  qed
qed

definition demo_hwbcc_world ::
  "(smc_ret8 \<times> (u64 \<times> bytes) option) list \<Rightarrow> script hwbcc_world"
where
  "demo_hwbcc_world replies =
     client_world.extend (demo_client_world hwbcc_chan False replies) (hwbcc_world.fields True)"

lemma demo_hwbcc_script: "script_world hwbcc_chan (replies, 0x8000) (demo_hwbcc_world replies)"
  by (simp add: script_chan_def demo_hwbcc_world_def client_world.extend_def hwbcc_world.fields_def
      demo_client_world_def demo_chan_def)

lemma demo_hwbcc_ok: "chans_ok (demo_hwbcc_world replies)"
  by (auto simp: chans_ok_def demo_hwbcc_world_def client_world.extend_def hwbcc_world.fields_def
      demo_client_world_def demo_chan_def idev_ok_def dev_ready_def demo_idev_def demo_dev_def PAGE_SIZE_def
      split: if_splits)

lemma hwbcc_get_dice_artifacts_checked_witness:
  "\<exists>w1 w'. transmitted script_platform hwbcc_chan (le32 6 @ le32 0xAAAAAAAA @ le64 5)
      (demo_hwbcc_world (script_exchange hwbcc_chan (le32 7 @ le32 0 @ le32 2 @ [8, 9]))) w1 \<and>
    dice_accepted script_platform demo_rpmb 0 [1, 2, 3] 3 w1 [8, 9, 3] 2 w'"
proof -
  let ?m = "le32 7 @ le32 0 @ le32 2 @ [8, 9]" and ?tab = "tipc_ops script_platform demo_rpmb"
  let ?w = "demo_hwbcc_world (script_exchange hwbcc_chan ?m)"
  let ?hdr = "\<lparr>hq_cmd = HWBCC_CMD_GET_DICE_ARTIFACTS, hq_test_mode = le_word (uninit script_platform 4), hq_context = 5\<rparr>"
  let ?out = "[\<lparr>iov_base = hwbcc_req_hdr_bytes ?hdr, iov_len = 16\<rparr>]"
  let ?iovs = "[\<lparr>iov_base = replicate 12 0, iov_len = 12\<rparr>, \<lparr>iov_base = [1, 2, 3], iov_len = 3\<rparr>]"
  have sw: "script_world hwbcc_chan (script_exchange hwbcc_chan ?m @ [], 0x8000) ?w"
    using demo_hwbcc_script by simp
  have tab: "?tab Sync_ipc_ops = sync_ipc_ops" by (simp add: tipc_ops_def)
  have ok: "list_all iov_ok ?out" "iov_total ?out \<le> 4080" "list_all iov_ok ?iovs"
    "length ?m \<le> iov_total ?iovs" "length ?m \<le> 4080" by (simp_all add: iov_ok_def)
  obtain w1 w2 where x: "trusty_ipc_send script_platform ?tab hwbcc_chan ?out True ?w = Ret 0 w1"
    "trusty_ipc_recv script_platform ?tab hwbcc_chan ?iovs True w1 = Ret (int (length ?m), scatter ?iovs ?m) w2"
    using script_session [where tab = ?tab, OF sw tab ok] by blast
  have j: "le_word (uninit script_platform 4) = (0xAAAAAAAA :: u32)"
    by (simp add: uninit_def script_platform_def upt_rec push_bit_eq_mult)
  have s: "scatter ?iovs ?m = [\<lparr>iov_base = le32 7 @ le32 0 @ le32 2, iov_len = 12\<rparr>,
      \<lparr>iov_base = [8, 9, 3], iov_len = 3\<rparr>]"
    by (simp add: put_bytes_def del: le_bytes_zero)
  have h: "hwbcc_resp_hdr_of_bytes (le32 7 @ le32 0 @ le32 2) = \<lparr>hr_cmd = 7, hr_status = 0, hr_payload_size = 2\<rparr>"
    by (simp add: hwbcc_resp_hdr_of_bytes_def get_bytes_def del: le_bytes_zero)
  have "hwbcc_get_dice_artifacts script_platform demo_rpmb 0 5 [1, 2, 3] 3 0 ?w = Ret (0, [8, 9, 3], 2) w2"
    using x(1) x(2) [unfolded s] h
    by (simp add: hwbcc_get_dice_artifacts_def send_header_only_request_def read_response_with_data_def Let_def
        trusty_err_defs HWBCC_CMD_GET_DICE_ARTIFACTS_def HWBCC_CMD_REQ_SHIFT_def HWBCC_CMD_RESP_BIT_def
        del: le_bytes_zero)
  with hwbcc_get_dice_artifacts_checked [OF demo_hwbcc_ok, of 3 "[1, 2, 3]" 0 script_platform 5
      "script_exchange hwbcc_chan ?m" demo_rpmb 0] j
  show ?thesis by auto
qed

end
