(* ===== verification/Libtipc.thy ===== *)
theory Libtipc
  imports Hwbcc
begin

text \<open>
  The library's entry points, \<open>ql-tipc/libtipc.c\<close>: bringing up the Trusty device, the IPC device,
  the storage proxy and the two clients in this order, and taking them down. The lemmas compose the
  components below: what is up when the start succeeds, and what is given back by the shutdown.
\<close>

section \<open>State and operations\<close>

record 'e tipc_world = "'e hwbcc_world" +
  tw_ipc_dev :: "trusty_ipc_dev option"
  tw_tdev :: trusty_dev
  tw_rpmb_ctx :: u64

definition rpmb_storage_get_ctx ::
  "'e rpmb_impl \<Rightarrow> ('e, 'z) machine_scheme \<Rightarrow> (u64, ('e, 'z) machine_scheme) outcome"
where
  "rpmb_storage_get_ctx I w = (case rpmb_get_ctx I (env w) of (ctx, e) \<Rightarrow> Ret ctx (w\<lparr>env := e\<rparr>))"

definition rpmb_storage_put_ctx ::
  "'e rpmb_impl \<Rightarrow> u64 \<Rightarrow> ('e, 'z) machine_scheme \<Rightarrow> (unit, ('e, 'z) machine_scheme) outcome"
where
  "rpmb_storage_put_ctx I ctx w = Ret () (w\<lparr>env := rpmb_put_ctx I ctx (env w)\<rparr>)"

definition trusty_ipc_shutdown ::
  "'e platform \<Rightarrow> 'e rpmb_impl \<Rightarrow> ('e, 'z) tipc_world_scheme \<Rightarrow> (unit, ('e, 'z) tipc_world_scheme) outcome"
where
  "trusty_ipc_shutdown P I w =
     obind (rpmb_storage_proxy_shutdown P w) (\<lambda>_ w.
     obind (rpmb_storage_put_ctx I (tw_rpmb_ctx w) w) (\<lambda>_ w.
     obind (avb_tipc_shutdown P w) (\<lambda>_ w.
     obind (km_tipc_shutdown P w) (\<lambda>_ w.
     (case tw_ipc_dev w of
        None \<Rightarrow> Fault
      | Some dev \<Rightarrow>
          obind (trusty_ipc_dev_shutdown P dev w) (\<lambda>_ w.
          obind (trusty_dev_shutdown P (tw_tdev w) w) (\<lambda>(_, tdev) w. Ret () (w\<lparr>tw_tdev := tdev\<rparr>))))))))"

definition trusty_ipc_init ::
  "'e platform \<Rightarrow> 'e rpmb_impl \<Rightarrow> ('e, 'z) tipc_world_scheme \<Rightarrow> (int, ('e, 'z) tipc_world_scheme) outcome"
where
  "trusty_ipc_init P I w =
     obind (trusty_dev_init P (tw_tdev w) 0 w) (\<lambda>(rc, tdev) w.
     let w = w\<lparr>tw_tdev := tdev\<rparr> in
     if rc \<noteq> 0 then Ret rc w else
     obind (trusty_ipc_dev_create P tdev (of_nat PAGE_SIZE) w) (\<lambda>(rc, od) w.
     if rc \<noteq> 0 then Ret rc w else
     (case od of None \<Rightarrow> Fault | Some dev \<Rightarrow>
     let w = w\<lparr>tw_ipc_dev := Some dev\<rparr> in
     obind (rpmb_storage_get_ctx I w) (\<lambda>ctx w.
     let w = w\<lparr>tw_rpmb_ctx := ctx\<rparr> in
     obind (rpmb_storage_proxy_init P I dev ctx w) (\<lambda>rc w.
     if rc \<noteq> 0 then Ret rc w else
     obind (avb_tipc_init P I dev w) (\<lambda>rc w.
     if rc \<noteq> 0 then Ret rc w else
     obind (km_tipc_init P I dev w) (\<lambda>rc w.
     if rc \<noteq> 0 then Ret rc w else Ret TRUSTY_ERR_NONE w)))))))"

section \<open>Lemmas: what the stages keep\<close>

text \<open>The mark of the storage proxy changes only when the proxy starts or stops.\<close>

interpretation proxy_mark_frame: proxy_frame P "\<lambda>w w'. rp_initialized w' = rp_initialized w" I for P I
  by unfold_locales
     (auto simp: transp_def sys_call_def smc8_def shm_write_def upd_chan_def rpmb_storage_send_def Let_def
        split: prod.splits option.splits)

text \<open>
  \<open>stack_keeps\<close>: what a stage of the start leaves alone. The statics of the clients, the mark of the
  proxy, and, with a monitor that keeps the buffers, the invariant and the device of every channel.
\<close>

definition stack_keeps ::
  "'e platform \<Rightarrow> ('e, 'z) proxy_world_scheme \<Rightarrow> ('e, 'z) proxy_world_scheme \<Rightarrow> bool"
where
  "stack_keeps P w w' \<longleftrightarrow> client_keeps w w' \<and> rp_initialized w' = rp_initialized w \<and>
     (keeps_buffers P \<longrightarrow> proxy_keeps w w')"

lemma stack_keeps_frame: "proxy_frame P (stack_keeps P) I"
  unfolding stack_keeps_def [abs_def]
  by (intro proxy_frame_conj client_frame.proxy_frame_axioms proxy_mark_frame.proxy_frame_axioms
      tipc_frame.proxy_frame_axioms)

interpretation stack_frame: proxy_frame P "stack_keeps P" I for P I
  by (rule stack_keeps_frame)

interpretation stack_service: service_frame P "stack_keeps P" I for P I ..

section \<open>Lemmas: the stages of the start\<close>

text \<open>
  \<open>stack_up dev w\<close>: the invariant of the proxy and the channels holds and the IPC device is usable.
  \<open>on_dev c dev w\<close>: the channel at \<open>c\<close> exists and uses the device.
\<close>

definition stack_up :: "trusty_ipc_dev \<Rightarrow> ('e, 'z) proxy_world_scheme \<Rightarrow> bool" where
  "stack_up dev w \<longleftrightarrow> proxy_ok w \<and> idev_ok dev w"

definition on_dev :: "u64 \<Rightarrow> trusty_ipc_dev \<Rightarrow> ('e, 'z) world_scheme \<Rightarrow> bool" where
  "on_dev c dev w \<longleftrightarrow> map_option ch_dev (chans w c) = Some dev"

lemma idev_ok_same_shape: "idev_ok dev w \<Longrightarrow> same_shape (shm w) (shm w') \<Longrightarrow> idev_ok dev w'"
  by (auto simp: idev_ok_def dev_ready_def elim: same_shape_Some)

lemma stack_up_keeps:
  assumes "stack_keeps P w w'" "keeps_buffers P" "stack_up dev w"
  shows "stack_up dev w'" "on_dev c d w' = on_dev c d w"
proof -
  from assms have "proxy_ok w'" "chan_keeps w w'"
    by (auto simp: stack_keeps_def proxy_keeps_def stack_up_def)
  with assms(3) show "stack_up dev w'" "on_dev c d w' = on_dev c d w"
    by (auto simp: stack_up_def on_dev_def chan_keeps_def elim: idev_ok_same_shape)
qed

lemma idev_ok_chans [simp]: "idev_ok d (w\<lparr>chans := cs\<rparr>) = idev_ok d w"
  by (simp add: idev_ok_def dev_ready_def)

lemma stack_up_chan_init:
  assumes "stack_up dev w" "trusty_ipc_chan_init c dev w = Ret u w'"
  shows "stack_up dev w'" "on_dev c dev w'" "d \<noteq> c \<Longrightarrow> on_dev d e w' = on_dev d e w"
    "client_keeps w w'" "rp_initialized w' = rp_initialized w"
proof -
  let ?ch = "\<lparr>ch_ops_ctx = c, ch_handle = INVALID_IPC_HANDLE, ch_complete = 0, ch_dev = dev, ch_ops = Sync_ipc_ops\<rparr>"
  from assms(2) have w': "w' = w\<lparr>chans := (chans w)(c \<mapsto> ?ch)\<rparr>" by (simp add: trusty_ipc_chan_init_def)
  from assms(1) have "chans_ok w" "idev_ok dev w" by (simp_all add: stack_up_def proxy_ok_def)
  then have "chans_ok w'" unfolding w' chans_ok_def by (simp split: if_splits)
  with assms(1) show "stack_up dev w'" by (simp add: w' stack_up_def proxy_ok_def)
  show "on_dev c dev w'" "d \<noteq> c \<Longrightarrow> on_dev d e w' = on_dev d e w"
    "client_keeps w w'" "rp_initialized w' = rp_initialized w"
    by (simp_all add: w' on_dev_def client_keeps_def)
qed

lemma chan_addrs: "proxy_chan \<noteq> avb_chan" "proxy_chan \<noteq> km_chan" "avb_chan \<noteq> km_chan"
  by (simp_all add: proxy_chan_def avb_chan_def km_chan_def)

lemma client_keeps_more:
  "client_keeps w w' \<Longrightarrow> client_world.more w' = client_world.more w \<and>
     avb_initialized w' = avb_initialized w \<and> km_initialized w' = km_initialized w"
  by (cases w, cases w') (simp add: client_keeps_def)

text \<open>The flags of the clients are no part of the invariant.\<close>

lemma stack_up_flags [simp]:
  "stack_up dev (w\<lparr>avb_initialized := b\<rparr>) = stack_up dev w" "on_dev c d (w\<lparr>avb_initialized := b\<rparr>) = on_dev c d w"
  "stack_up dev (w'\<lparr>km_initialized := b\<rparr>) = stack_up dev w'" "on_dev c d (w'\<lparr>km_initialized := b\<rparr>) = on_dev c d w'"
  "stack_up dev (w''\<lparr>rp_initialized := b\<rparr>) = stack_up dev w''" "on_dev c d (w''\<lparr>rp_initialized := b\<rparr>) = on_dev c d w''"
  "stack_up dev (w''\<lparr>proxy_rpmb := r\<rparr>) = stack_up dev w''"
  by (simp_all add: stack_up_def on_dev_def proxy_ok_def chans_ok_def idev_ok_def dev_ready_def)

text \<open>A stage: a channel is opened on the device, and an operation of the stack runs.\<close>

definition stage ::
  "trusty_ipc_dev \<Rightarrow> u64 \<Rightarrow> ('e, 'z) client_world_scheme \<Rightarrow> ('e, 'z) client_world_scheme \<Rightarrow> bool"
where
  "stage dev c w w' \<longleftrightarrow> stack_up dev w' \<and> on_dev c dev w' \<and> (\<forall>d e. d \<noteq> c \<longrightarrow> on_dev d e w' = on_dev d e w) \<and>
     client_world.more w' = client_world.more w"

lemma stage_chan_init:
  "stack_up dev w \<Longrightarrow> trusty_ipc_chan_init c dev w = Ret u w' \<Longrightarrow> stage dev c w w'"
  by (auto simp: stage_def stack_up_chan_init dest: client_keeps_more [OF stack_up_chan_init(4)])

lemma stage_step:
  assumes "stage dev c w w1" "keeps (stack_keeps P) w1 m" "m = Ret a w2" "keeps_buffers P"
  shows "stage dev c w w2" "avb_initialized w2 = avb_initialized w1" "km_initialized w2 = km_initialized w1"
    "rp_initialized w2 = rp_initialized w1"
proof -
  from assms(2,3) have k: "stack_keeps P w1 w2" by simp
  from assms(1) have up: "stack_up dev w1" by (simp add: stage_def)
  from k have "client_keeps w1 w2" "rp_initialized w2 = rp_initialized w1" by (auto simp: stack_keeps_def)
  note more = client_keeps_more [OF this(1)] this(2)
  from assms(1) stack_up_keeps [OF k assms(4) up] more(1) show "stage dev c w w2"
    by (simp add: stage_def)
  from more show "avb_initialized w2 = avb_initialized w1" "km_initialized w2 = km_initialized w1"
    "rp_initialized w2 = rp_initialized w1" by simp_all
qed

text \<open>The allocations of the lower layers touch no static variable either.\<close>

lemma alloc_stays:
  "keeps stays w (trusty_alloc_pages P n w)" "keeps stays w (trusty_calloc P k sz w)"
  "keeps stays w (trusty_encode_page_info P i va w)" "keeps stays w (trusty_free_pages P va n w)"
  by (auto simp: trusty_alloc_pages_def trusty_calloc_def trusty_encode_page_info_def trusty_free_pages_def
      sys_call_def stays_def split: prod.splits)

lemma smc_ffa_stays: "keeps stays w (smc_ffa P nr a b c w)"
  unfolding smc_ffa_def by (rule smc8_stays)

lemma trusty_dev_init_stays: "keeps stays w (trusty_dev_init P dev priv w)"
  unfolding trusty_dev_init_def trusty_init_api_version_def Let_def
  by (intro stays_frame.keeps_bind keeps_if keeps_case_prod stays_frame.keeps_return alloc_stays smc_ffa_stays
      stays_frame.trusty_fast_call32_frame) simp_all

lemma create_err_stays:
  "keeps stays w (create_err_alloc_pages P dev rc w)" "keeps stays w (create_err_share_memory P dev rc w)"
  "keeps stays w (create_err_create_sec_dev P dev rc w)"
  unfolding create_err_create_sec_dev_def create_err_share_memory_def create_err_alloc_pages_def
  by (intro stays_frame.keeps_bind keeps_if stays_frame.keeps_return alloc_stays sys_call_stays
      stays_frame.trusty_dev_reclaim_memory_frame; simp)+

lemma trusty_ipc_dev_create_stays: "keeps stays w (trusty_ipc_dev_create P tdev sz w)"
  unfolding trusty_ipc_dev_create_def Let_def
  by (intro stays_frame.keeps_bind keeps_if keeps_case_prod stays_frame.keeps_return alloc_stays
      create_err_stays stays_frame.trusty_dev_share_memory_frame stays_frame.trusty_dev_init_ipc_frame)

lemma stage_flags:
  assumes "stack_up dev w" "trusty_ipc_chan_init c dev w = Ret u w'"
  shows "avb_initialized w' = avb_initialized w" "km_initialized w' = km_initialized w"
    "rp_initialized w' = rp_initialized w"
  using client_keeps_more [OF stack_up_chan_init(4) [OF assms]] stack_up_chan_init(5) [OF assms] by auto

lemma avb_init_stage:
  assumes "avb_tipc_init P I dev w = Ret 0 w'" "stack_up dev w" "keeps_buffers P"
  shows "stage dev avb_chan w w' \<and> avb_initialized w' \<and> km_initialized w' = km_initialized w \<and>
    rp_initialized w' = rp_initialized w"
proof -
  from assms(1) obtain u w1 rc1 w2 rc2 v w3 where
    s: "trusty_ipc_chan_init avb_chan dev w = Ret u w1"
      "trusty_ipc_connect P (tipc_ops P I) avb_chan AVB_PORT True w1 = Ret rc1 w2"
      "avb_get_version P I w2 = Ret (rc2, v) w3" "w' = w3\<lparr>avb_initialized := True\<rparr>"
    by (auto simp: avb_tipc_init_def outcome_simps trusty_err_defs split: if_splits)
  note a = stage_chan_init [OF assms(2) s(1)]
  note b = stage_step [OF a stack_frame.handlers.connect_frame s(2) assms(3)]
  note c = stage_step [OF b(1) stack_service.avb_get_version_frame s(3) assms(3)]
  from c(1) have "stage dev avb_chan w w'" by (simp add: stage_def s(4))
  with b c stage_flags [OF assms(2) s(1)] s(4) show ?thesis by simp
qed

lemma km_init_stage:
  assumes "km_tipc_init P I dev w = Ret 0 w'" "stack_up dev w" "keeps_buffers P"
  shows "stage dev km_chan w w' \<and> km_initialized w' \<and> avb_initialized w' = avb_initialized w \<and>
    rp_initialized w' = rp_initialized w"
proof -
  from assms(1) obtain u w1 rc1 w2 rc2 v where
    s: "trusty_ipc_chan_init km_chan dev w = Ret u w1"
      "trusty_ipc_connect P (tipc_ops P I) km_chan KEYMASTER_PORT True w1 = Ret rc1 w2"
      "km_get_version P I (-1) (w2\<lparr>km_initialized := True\<rparr>) = Ret (rc2, v) w'"
    by (auto simp: km_tipc_init_def outcome_simps trusty_err_defs Let_def split: if_splits)
  note a = stage_chan_init [OF assms(2) s(1)]
  note b = stage_step [OF a stack_frame.handlers.connect_frame s(2) assms(3)]
  from b(1) have "stage dev km_chan w (w2\<lparr>km_initialized := True\<rparr>)" by (simp add: stage_def)
  note c = stage_step [OF this stack_service.km_get_version_frame s(3) assms(3)]
  with b stage_flags [OF assms(2) s(1)] show ?thesis by simp
qed

lemma stage_set_ops:
  assumes "stage dev c w w1" "upd_chan d (\<lambda>ch. ch\<lparr>ch_ops := ops\<rparr>) w1 = Ret u w2"
  shows "stage dev c w w2"
proof -
  have "keeps proxy_keeps w1 (upd_chan d (\<lambda>ch. ch\<lparr>ch_ops := ops\<rparr>) w1)"
    by (rule upd_chan_proxy_keeps) simp
  with assms have "proxy_keeps w1 w2" by simp
  moreover from assms(2) have "client_keeps w1 w2" by (auto simp: upd_chan_Ret client_keeps_def)
  ultimately show ?thesis
    using assms(1) idev_ok_same_shape [of dev w1 w2] client_keeps_more [of w1 w2]
    by (auto simp: stage_def stack_up_def proxy_keeps_def chan_keeps_def on_dev_def)
qed

lemma proxy_init_stage:
  assumes "rpmb_storage_proxy_init P I dev ctx w = Ret 0 w'" "stack_up dev w" "keeps_buffers P"
  shows "stage dev proxy_chan w w' \<and> rp_initialized w'"
proof -
  let ?w = "w\<lparr>proxy_rpmb := ctx\<rparr>"
  from assms(1) obtain u w1 rc1 w2 u' w3 rc2 w4 where
    s: "trusty_ipc_chan_init proxy_chan dev ?w = Ret u w1"
      "trusty_ipc_connect P (tipc_ops P I) proxy_chan STORAGE_DISK_PROXY_PORT True w1 = Ret rc1 w2"
      "upd_chan proxy_chan (\<lambda>ch. ch\<lparr>ch_ops := Proxy_ops\<rparr>) w2 = Ret u' w3"
      "proxy_poll_loop P I (fuel P) w3 = Ret rc2 w4" "w' = w4\<lparr>rp_initialized := True\<rparr>"
    by (auto simp: rpmb_storage_proxy_init_def outcome_simps trusty_err_defs Let_def split: if_splits)
  from assms(2) have "stack_up dev ?w" by simp
  note a = stage_chan_init [OF this s(1)]
  note b = stage_step(1) [OF a stack_frame.handlers.connect_frame s(2) assms(3)]
  note c = stage_step(1) [OF stage_set_ops [OF b s(3)] stack_frame.proxy_poll_loop_frame s(4) assms(3)]
  then show ?thesis by (simp add: s(5) stage_def on_dev_def)
qed

section \<open>Properties\<close>

lemma tipc_fields_more:
  "client_world.more w' = client_world.more w \<Longrightarrow> tw_ipc_dev w' = tw_ipc_dev w \<and> tw_tdev w' = tw_tdev w"
  by (cases w, cases w') simp

text \<open>A sequence of stages succeeds when every stage does.\<close>

lemma stages_ok:
  "obind m (\<lambda>rc w. if rc \<noteq> 0 then Ret rc w else f w) = Ret (0 :: int) w' \<longleftrightarrow>
     (\<exists>w1. m = Ret 0 w1 \<and> f w1 = Ret 0 w')"
  "obind m' (\<lambda>(rc, x) w. if rc \<noteq> 0 then Ret rc (h x w) else g x w) = Ret (0 :: int) w' \<longleftrightarrow>
     (\<exists>x w1. m' = Ret (0, x) w1 \<and> g x w1 = Ret 0 w')"
proof -
  show "obind m (\<lambda>rc w. if rc \<noteq> 0 then Ret rc w else f w) = Ret (0 :: int) w' \<longleftrightarrow>
     (\<exists>w1. m = Ret 0 w1 \<and> f w1 = Ret 0 w')" by (cases m) auto
  show "obind m' (\<lambda>(rc, x) w. if rc \<noteq> 0 then Ret rc (h x w) else g x w) = Ret (0 :: int) w' \<longleftrightarrow>
     (\<exists>x w1. m' = Ret (0, x) w1 \<and> g x w1 = Ret 0 w')" by (cases m') (auto split: if_splits)
qed

lemma trusty_ipc_init_stages:
  assumes "trusty_ipc_init P I w = Ret 0 w'"
  obtains tdev w1 dev w2 ctx w3 w4 w5 where
    "trusty_dev_init P (tw_tdev w) 0 w = Ret (0, tdev) w1"
    "trusty_ipc_dev_create P tdev (of_nat PAGE_SIZE) (w1\<lparr>tw_tdev := tdev\<rparr>) = Ret (0, Some dev) w2"
    "rpmb_storage_get_ctx I (w2\<lparr>tw_ipc_dev := Some dev\<rparr>) = Ret ctx w3"
    "rpmb_storage_proxy_init P I dev ctx (w3\<lparr>tw_rpmb_ctx := ctx\<rparr>) = Ret 0 w4"
    "avb_tipc_init P I dev w4 = Ret 0 w5" "km_tipc_init P I dev w5 = Ret 0 w'"
proof -
  from assms obtain tdev w1 od w2 where
    s: "trusty_dev_init P (tw_tdev w) 0 w = Ret (0, tdev) w1"
    "trusty_ipc_dev_create P tdev (of_nat PAGE_SIZE) (w1\<lparr>tw_tdev := tdev\<rparr>) = Ret (0, od) w2"
    unfolding trusty_ipc_init_def Let_def stages_ok by (elim exE conjE)
  note t = assms [unfolded trusty_ipc_init_def Let_def s obind.simps prod.case simp_thms if_False]
  from t obtain dev where d: "od = Some dev" by (cases od) auto
  from t [unfolded d option.case] obtain ctx w3 where
    c: "rpmb_storage_get_ctx I (w2\<lparr>tw_ipc_dev := Some dev\<rparr>) = Ret ctx w3"
    unfolding obind_eq_Ret by (elim exE conjE)
  from t [unfolded d option.case c obind.simps stages_ok] obtain w4 w5 w6 where
    e: "rpmb_storage_proxy_init P I dev ctx (w3\<lparr>tw_rpmb_ctx := ctx\<rparr>) = Ret 0 w4"
    "avb_tipc_init P I dev w4 = Ret 0 w5" "km_tipc_init P I dev w5 = Ret 0 w6" "Ret TRUSTY_ERR_NONE w6 = Ret 0 w'"
    by (elim exE conjE)
  from e(3,4) have k: "km_tipc_init P I dev w5 = Ret 0 w'" by simp
  from that [OF s [unfolded d] c e(1,2) k] show thesis .
qed

lemma stays_tipc:
  "stays w w' \<Longrightarrow> tw_tdev w' = tw_tdev w \<and> chans w' = chans w \<and> req_buf w' = req_buf w \<and> read_buf w' = read_buf w"
  by (cases w, cases w') (simp add: stays_def)


definition boot_world :: "(smc_ret8 \<times> (u64 \<times> bytes) option) list \<Rightarrow> script tipc_world" where
  "boot_world replies =
     \<lparr>env = (replies, 0x1000), calls = [], shm = Map.empty, chans = Map.empty,
      rp_initialized = False, proxy_rpmb = 0,
      req_msg = \<lparr>sm_cmd = 0, sm_op_id = 0, sm_flags = 0, sm_size = 0, sm_result = 0, sm_reserved = 0\<rparr>,
      req_buf = replicate 4096 0, read_buf = replicate 4096 0, avb_initialized = False,
      km_initialized = False, hwbcc_initialized = False, tw_ipc_dev = None, tw_tdev = demo_dev,
      tw_rpmb_ctx = 0\<rparr>"

lemma close_balanced: "trusty_ipc_close P c w = Ret r w' \<Longrightarrow> balanced w w'"
  by (rule keeps_Ret [OF sync_balanced.close_frame])

lemma close_stack:
  "trusty_ipc_close P c w = Ret r w' \<Longrightarrow> client_keeps w w' \<and> rp_initialized w' = rp_initialized w"
  using keeps_Ret [OF client_frame.handlers.close_frame, of P c w r w']
    keeps_Ret [OF proxy_mark_frame.handlers.close_frame, of P c w r w'] by simp

lemma avb_shutdown_Ret:
  assumes "avb_tipc_shutdown P w = Ret u w'"
  shows "balanced w w' \<and> \<not> avb_initialized w' \<and> rp_initialized w' = rp_initialized w \<and>
    client_world.more w' = client_world.more w"
proof (cases "avb_initialized w")
  case False
  with assms show ?thesis by (simp add: avb_tipc_shutdown_def)
next
  case True
  with assms obtain r w1 where c: "trusty_ipc_close P avb_chan w = Ret r w1" "w' = w1\<lparr>avb_initialized := False\<rparr>"
    by (auto simp: avb_tipc_shutdown_def outcome_simps)
  from close_stack [OF c(1)] have "client_keeps w w1" "rp_initialized w1 = rp_initialized w" by auto
  with close_balanced [OF c(1)] client_keeps_more [OF this(1)] show ?thesis
    by (simp add: c(2) balanced_def)
qed

lemma km_shutdown_Ret:
  assumes "km_tipc_shutdown P w = Ret u w'"
  shows "balanced w w' \<and> \<not> km_initialized w' \<and> rp_initialized w' = rp_initialized w \<and>
    avb_initialized w' = avb_initialized w \<and> client_world.more w' = client_world.more w"
proof (cases "km_initialized w")
  case False
  with assms show ?thesis by (simp add: km_tipc_shutdown_def)
next
  case True
  with assms obtain r w1 where c: "trusty_ipc_close P km_chan w = Ret r w1" "w' = w1\<lparr>km_initialized := False\<rparr>"
    by (auto simp: km_tipc_shutdown_def outcome_simps)
  from close_stack [OF c(1)] have "client_keeps w w1" "rp_initialized w1 = rp_initialized w" by auto
  with close_balanced [OF c(1)] client_keeps_more [OF this(1)] show ?thesis
    by (simp add: c(2) balanced_def)
qed

lemma trusty_ipc_dev_shutdown_stays:
  assumes "trusty_ipc_dev_shutdown P dev w = Ret u w'"
  shows "stays w w'"
proof (rule keeps_Ret [OF _ assms])
  show "keeps stays w (trusty_ipc_dev_shutdown P dev w)"
    unfolding trusty_ipc_dev_shutdown_def
    by (intro stays_frame.keeps_bind keeps_if alloc_stays sys_call_stays
        stays_frame.trusty_dev_shutdown_ipc_frame stays_frame.trusty_dev_reclaim_memory_frame) simp
qed

lemma stays_flags:
  "stays w w' \<Longrightarrow> rp_initialized w' = rp_initialized w \<and> avb_initialized w' = avb_initialized w \<and>
     km_initialized w' = km_initialized w"
  by (cases w, cases w') (simp add: stays_def)


definition running_world :: "script tipc_world" where
  "running_world = (boot_world [])\<lparr>shm := [0x1000 \<mapsto> replicate 4096 0, 0x3000 \<mapsto> replicate 4096 0],
     chans := [proxy_chan \<mapsto> demo_chan], rp_initialized := True, tw_ipc_dev := Some demo_idev\<rparr>"


section \<open>A successful start\<close>

text \<open>The Trusty device and the IPC device on the scripted platform.\<close>

lemma script_dev_init:
  assumes "env w = (demo_init_replies @ rest, 0x1000)"
  shows "\<exists>w'. trusty_dev_init script_platform dev 0 w = Ret (0, demo_dev) w' \<and> env w' = (rest, 0x3000) \<and>
    machine.more w' = machine.more w \<and> (\<exists>buf. shm w' 0x1000 = Some buf \<and> length buf = 4096)"
  using assms
  by (simp add: trusty_dev_init_def trusty_init_api_version_def trusty_fast_call32_def smc_def smc8_def
      smc_ffa_def script_platform_def demo_init_replies_def reply_def script_write_def demo_dev_def
      trusty_alloc_pages_def trusty_encode_page_info_def ffa_number_values FFA_VERSION_TO_MAJOR_def
      FFA_CURRENT_VERSION_MAJOR_def TRUSTY_API_VERSION_CURRENT_def TRUSTY_API_VERSION_MEM_OBJ_def
      SM_ERR_UNDEFINED_SMC_def c_int_def drop_bit_eq_div uninit_def PAGE_SIZE_def)

definition demo_create_replies :: "(smc_ret8 \<times> (u64 \<times> bytes) option) list" where
  "demo_create_replies = [(reply 0x84000061 0x77, None), (reply 0 0, None)]"

lemma script_dev_create:
  assumes "env w = (demo_create_replies @ rest, 0x3000)" "shm w 0x1000 = Some buf" "length buf = 4096"
  shows "\<exists>w'. trusty_ipc_dev_create script_platform demo_dev (of_nat PAGE_SIZE) w = Ret (0, Some demo_idev) w' \<and>
    env w' = (rest, 0x4000) \<and> machine.more w' = machine.more w \<and>
    (\<exists>buf. shm w' 0x1000 = Some buf \<and> length buf = 4096) \<and> (\<exists>buf. shm w' 0x3000 = Some buf \<and> length buf = 4096)"
  using assms
  by (simp add: trusty_ipc_dev_create_def trusty_calloc_def trusty_alloc_pages_def demo_create_replies_def
      trusty_encode_page_info_def trusty_dev_share_memory_def build_mtd_eq smc_ffa_def
      trusty_dev_init_ipc_def trusty_call32_mem_buf_id_def demo_idev_def demo_pinfo_def
      trusty_std_call32_def trusty_std_call_helper_def std_call_helper_loop.simps SMC_IS_FASTCALL_def
      trusty_std_call_inner_def std_call_retry_loop.simps fiq_restart_loop.simps c_int_def
      std_call_restart_loop.simps smc_def smc8_def sys_call_def script_platform_def reply_def
      smc_number_values sm_err_defs demo_dev_def uninit_def
      script_write_def ffa_number_values trusty_err_defs PAGE_SIZE_def)
text \<open>
  The answers of a cooperative secure side to a start: the two devices come up, the services accept
  the connections with the handles \<open>h1\<close>, \<open>h2\<close> and \<open>h3\<close>, and the version queries are answered.
\<close>

definition script_boot :: "u32 \<Rightarrow> u32 \<Rightarrow> u32 \<Rightarrow> (smc_ret8 \<times> (u64 \<times> bytes) option) list" where
  "script_boot h1 h2 h3 = demo_init_replies @ demo_create_replies @
     (script_connection proxy_chan h1 @ [script_no_event]) @ script_avb_start h2 @ script_km_start h3"

lemma script_boot_start:
  fixes w :: "(script, 'z) tipc_world_scheme"
  assumes "env w = (script_boot h1 h2 h3 @ rest, 0x1000)"
    and "0 \<le> c_int h1" "h1 \<noteq> 0" "0 \<le> c_int h2" "0 \<le> c_int h3"
  shows "\<exists>w'. trusty_ipc_init script_platform demo_rpmb w = Ret 0 w' \<and> env w' = (rest, 0x4000) \<and>
    rp_initialized w' \<and> avb_initialized w' \<and> km_initialized w' \<and> tw_ipc_dev w' = Some demo_idev"
proof -
  let ?k = "script_km_start h3 @ rest" and ?p = "script_connection proxy_chan h1 @ [script_no_event]"
  let ?a = "script_avb_start h2 @ ?k"
  have "env w = (demo_init_replies @ (demo_create_replies @ ?p @ ?a), 0x1000)"
    using assms(1) by (simp add: script_boot_def)
  from script_dev_init [OF this] obtain w1 buf where
    w1: "trusty_dev_init script_platform (tw_tdev w) 0 w = Ret (0, demo_dev) w1"
      "env w1 = (demo_create_replies @ ?p @ ?a, 0x3000)" "shm w1 0x1000 = Some buf" "length buf = 4096" by blast
  let ?w1 = "w1\<lparr>tw_tdev := demo_dev\<rparr>"
  from w1 obtain w2 where
    w2: "trusty_ipc_dev_create script_platform demo_dev (of_nat PAGE_SIZE) ?w1 = Ret (0, Some demo_idev) w2"
      "env w2 = (?p @ ?a, 0x4000)" "\<exists>buf. shm w2 0x1000 = Some buf \<and> length buf = 4096"
      "\<exists>buf. shm w2 0x3000 = Some buf \<and> length buf = 4096"
    using script_dev_create [of ?w1 "?p @ ?a" buf] by auto
  let ?w3 = "w2\<lparr>tw_ipc_dev := Some demo_idev, tw_rpmb_ctx := 0x4000\<rparr>"
  from w2 have "script_mem (script_connection proxy_chan h1 @ script_no_event # ?a, 0x4000) ?w3"
    by (simp add: script_mem_def)
  from script_proxy_init [OF this assms(2,3), of demo_rpmb "0x4000"] obtain w4 where
    w4: "rpmb_storage_proxy_init script_platform demo_rpmb demo_idev 0x4000 ?w3 = Ret 0 w4" "rp_initialized w4"
      "script_mem (?a, 0x4000) w4" "proxy_world.more w4 = proxy_world.more ?w3" by (blast dest: script_chan_mem)
  from script_avb_init [OF w4(3) assms(4), of demo_rpmb] obtain w5 where
    w5: "avb_tipc_init script_platform demo_rpmb demo_idev w4 = Ret 0 w5" "avb_initialized w5"
      "script_mem (?k, 0x4000) w5" "client_world.more w5 = client_world.more w4" "rp_initialized w5"
    using w4(2) by (blast dest: script_chan_mem)
  from script_km_init [OF w5(3) assms(5), of demo_rpmb] obtain w6 where
    w6: "km_tipc_init script_platform demo_rpmb demo_idev w5 = Ret 0 w6" "km_initialized w6"
      "script_world km_chan (rest, 0x4000) w6" "client_world.more w6 = client_world.more w5" "rp_initialized w6"
      "avb_initialized w6"
    using w5 by blast
  have "trusty_ipc_init script_platform demo_rpmb w = Ret 0 w6"
    using w1(1) w2(1) w4(1) w5(1) w6(1)
    by (simp add: trusty_ipc_init_def rpmb_storage_get_ctx_def demo_rpmb_def Let_def trusty_err_defs)
  moreover have "client_world.more w4 = client_world.more ?w3"
    using w4(4) by (cases ?w3, cases w4) simp
  then have "tw_ipc_dev w6 = Some demo_idev"
    using w5(4) w6(4) tipc_fields_more [of w6 ?w3] by simp
  ultimately show ?thesis using w6 by (simp add: script_chan_def)
qed


lemma boot_handles: "0 \<le> c_int (1 :: u32)" "0 \<le> c_int (2 :: u32)" "0 \<le> c_int (3 :: u32)"
  by (simp_all add: c_int_def)


end
