(* ===== verification/Util.thy ===== *)
theory Util
  imports Tipc_Prelude
begin

text \<open>
  The file name helper of the log macros, \<open>ql-tipc/util.c\<close>. A string is the list of its characters
  without the terminating zero; the result is the suffix the returned pointer refers to.
\<close>

definition slash :: u8 where "slash = 0x2f"

text \<open>The loop over \<open>n\<close>, downwards from its start to 0.\<close>

fun basename_loop :: "bytes \<Rightarrow> nat \<Rightarrow> bytes" where
  "basename_loop str n =
     (if str ! n = slash then drop (n + 1) str
      else (case n of 0 \<Rightarrow> str | Suc n' \<Rightarrow> basename_loop str n'))"

declare basename_loop.simps [simp del]

definition trusty_basename :: "bytes \<Rightarrow> bytes" where
  "trusty_basename str = (if 2 \<le> length str then basename_loop str (length str - 2) else str)"

lemma basename_loop_result:
  assumes "n < length str" "\<forall>i. n < i \<and> i < length str - 1 \<longrightarrow> str ! i \<noteq> slash"
  shows "\<exists>k. basename_loop str n = drop k str \<and> k \<le> Suc n \<and> (0 < k \<longrightarrow> str ! (k - 1) = slash) \<and>
    (\<forall>i. k \<le> i \<and> i < length str - 1 \<longrightarrow> str ! i \<noteq> slash)"
  using assms
proof (induction n)
  case 0
  have all: "str ! i \<noteq> slash" if "str ! 0 \<noteq> slash" "i < length str - 1" for i
    using 0(2) that by (cases i) auto
  show ?case
  proof (cases "str ! 0 = slash")
    case True
    with 0 show ?thesis by (intro exI [of _ 1]) (simp add: basename_loop.simps)
  next
    case False
    with all show ?thesis by (intro exI [of _ 0]) (simp add: basename_loop.simps)
  qed
next
  case (Suc n)
  show ?case
  proof (cases "str ! Suc n = slash")
    case True
    with Suc.prems show ?thesis by (intro exI [of _ "Suc (Suc n)"]) (simp add: basename_loop.simps)
  next
    case False
    have "\<forall>i. n < i \<and> i < length str - 1 \<longrightarrow> str ! i \<noteq> slash"
      using Suc.prems(2) False Suc_lessI by metis
    with Suc.IH Suc.prems(1) obtain k where "basename_loop str n = drop k str" "k \<le> Suc n"
      "0 < k \<longrightarrow> str ! (k - 1) = slash" "\<forall>i. k \<le> i \<and> i < length str - 1 \<longrightarrow> str ! i \<noteq> slash" by auto
    moreover have "basename_loop str (Suc n) = basename_loop str n"
      using False by (simp add: basename_loop.simps [of str "Suc n"])
    ultimately show ?thesis by (intro exI [of _ k]) simp
  qed
qed

text \<open>
  The base name is the last component of the path. The result is a suffix of the path that has no
  slash except perhaps as its last character; what is cut off is empty or ends with a slash, and
  nothing is left over only of the empty path.
\<close>

theorem trusty_basename_last_component:
  "\<exists>dir. str = dir @ trusty_basename str \<and> slash \<notin> set (butlast (trusty_basename str)) \<and>
     (dir = [] \<or> last dir = slash) \<and> (trusty_basename str = [] \<longleftrightarrow> str = [])"
proof (cases "2 \<le> length str")
  case False
  then have "slash \<notin> set (butlast str)" by (cases str rule: rev_cases) (auto simp: not_le)
  with False show ?thesis by (simp add: trusty_basename_def)
next
  case True
  then have "length str - 2 < length str" "\<forall>i. length str - 2 < i \<and> i < length str - 1 \<longrightarrow> str ! i \<noteq> slash"
    by auto
  from basename_loop_result [OF this] obtain k where
    k: "basename_loop str (length str - 2) = drop k str" "k \<le> Suc (length str - 2)"
      "0 < k \<longrightarrow> str ! (k - 1) = slash" "\<forall>i. k \<le> i \<and> i < length str - 1 \<longrightarrow> str ! i \<noteq> slash" by blast
  have "slash \<notin> set (butlast (drop k str))"
    using k(4) by (auto simp: in_set_conv_nth butlast_drop nth_butlast)
  moreover have "take k str = [] \<or> last (take k str) = slash"
    using k(2,3) True by (cases k) (auto simp: take_Suc_conv_app_nth)
  moreover have "drop k str \<noteq> []" using k(2) True by simp
  ultimately show ?thesis
    using True k(1) by (intro exI [of _ "take k str"]) (auto simp: trusty_basename_def)
qed

end
