(* ===== verification/Trusty_Mem.thy ===== *)
theory Trusty_Mem
  imports Smc
begin

text \<open>
  The two providers of \<open>trusty_encode_page_info\<close> in the repository: the one for ARM cores with the
  MMU enabled, \<open>ql-tipc/arch/arm/trusty_mem.c\<close> in its 64 and its 32 bit variant, and the one of the
  test runner, \<open>test-runner/arm64/trusty_mem.c\<close>. The address translation instructions and the
  system registers are the parameter \<open>mmu\<close>; the interrupt functions are those of the platform.
\<close>

section \<open>Page attributes (trusty\_mem.c)\<close>

definition NS_PTE_PHYSADDR :: "u64 \<Rightarrow> u64" where
  "NS_PTE_PHYSADDR pte = pte AND 0xFFFFFFFFF000"
definition NS_PTE_AP_SHIFT :: nat where "NS_PTE_AP_SHIFT = 6"
definition NS_PTE_MAIR_SHIFT :: nat where "NS_PTE_MAIR_SHIFT = 48"
definition NS_PTE_MAIR_INNER_SHIFT :: nat where "NS_PTE_MAIR_INNER_SHIFT = 48"
definition NS_PTE_MAIR_OUTER_SHIFT :: nat where "NS_PTE_MAIR_OUTER_SHIFT = 52"
definition NS_MAIR_NORMAL_UNCACHED :: u64 where "NS_MAIR_NORMAL_UNCACHED = 0x44"
definition NS_MAIR_DEVICE_STRONGLY_ORDERED :: u64 where "NS_MAIR_DEVICE_STRONGLY_ORDERED = 0x00"
definition NS_MAIR_DEVICE :: u64 where "NS_MAIR_DEVICE = 0x04"
definition NS_PTE_SHAREABLE_SHIFT :: nat where "NS_PTE_SHAREABLE_SHIFT = 8"
definition NS_NON_SHAREABLE :: u64 where "NS_NON_SHAREABLE = 0x0"
definition NS_INNER_SHAREABLE :: u64 where "NS_INNER_SHAREABLE = 0x3"

definition PAR_F :: u64 where "PAR_F = 1"
definition PAR_SH :: u64 where "PAR_SH = push_bit 7 1"
definition PAR_LPAE :: u64 where "PAR_LPAE = push_bit 11 1"

definition FFA_MEM_ATTR_NORMAL_MEMORY_UNCACHED :: u8 where
  "FFA_MEM_ATTR_NORMAL_MEMORY_UNCACHED = push_bit 4 2 OR push_bit 2 1"
definition FFA_MEM_PERM_RW :: u8 where "FFA_MEM_PERM_RW = push_bit 1 1"

text \<open>
  The processor as these functions use it: the registers \<open>CurrentEL\<close> and \<open>CPSR\<close>, the address
  translation instructions, which leave their result in the register \<open>PAR\<close> (the number selects the
  EL1 or the EL2 translation regime), and the reads of this register: \<open>par_el1\<close> on 64 bit cores;
  on 32 bit cores \<open>par_mrc\<close>, the low half alone, and \<open>par_mrrc\<close>, the low and the high half.
\<close>

record 'e mmu =
  current_el :: "'e \<Rightarrow> u64"
  cpsr :: "'e \<Rightarrow> u32"
  translate :: "nat \<Rightarrow> u64 \<Rightarrow> 'e \<Rightarrow> 'e"
  par_el1 :: "'e \<Rightarrow> u64"
  par_mrc :: "'e \<Rightarrow> u32"
  par_mrrc :: "'e \<Rightarrow> u32 \<times> u32"

section \<open>64 bit ARM\<close>

definition arm64_write_ATS1ExW ::
  "'e mmu \<Rightarrow> u64 \<Rightarrow> ('e, 'z) machine_scheme \<Rightarrow> (unit, ('e, 'z) machine_scheme) outcome"
where
  "arm64_write_ATS1ExW M vaddr w =
     (let el = drop_bit 2 (current_el M (env w)) AND 0x3 in
      if el = 1 then Ret () (w\<lparr>env := translate M 1 vaddr (env w)\<rparr>)
      else if el = 2 then Ret () (w\<lparr>env := translate M 2 vaddr (env w)\<rparr>)
      else Abort w)"

definition arm64_read_par64 ::
  "'e mmu \<Rightarrow> ('e, 'z) machine_scheme \<Rightarrow> (u64, ('e, 'z) machine_scheme) outcome"
where
  "arm64_read_par64 M w = Ret (par_el1 M (env w)) w"

definition arm64_va2par ::
  "'e platform \<Rightarrow> 'e mmu \<Rightarrow> u64 \<Rightarrow> ('e, 'z) machine_scheme \<Rightarrow> (u64, ('e, 'z) machine_scheme) outcome"
where
  "arm64_va2par P M va w =
     obind (sys_call P C_irq_disable w) (\<lambda>_ w.
     obind (arm64_write_ATS1ExW M va w) (\<lambda>_ w.
     obind (arm64_read_par64 M w) (\<lambda>par w.
     obind (sys_call P C_irq_restore w) (\<lambda>_ w. Ret par w))))"

definition arm64_par2attr :: "u64 \<Rightarrow> u64" where
  "arm64_par2attr par =
     (let attr = NS_PTE_PHYSADDR par;
          attr = attr OR push_bit NS_PTE_MAIR_SHIFT (drop_bit 56 par AND 0xFF);
          attr = attr OR push_bit NS_PTE_SHAREABLE_SHIFT (drop_bit 7 par AND 0x03);
          attr = attr OR push_bit NS_PTE_AP_SHIFT 0
      in attr)"

definition arm64_encode_page_info ::
  "'e platform \<Rightarrow> 'e mmu \<Rightarrow> ns_mem_page_info \<Rightarrow> u64 \<Rightarrow> ('e, 'z) machine_scheme \<Rightarrow>
   (int \<times> ns_mem_page_info, ('e, 'z) machine_scheme) outcome"
where
  "arm64_encode_page_info P M pinfo va w =
     obind (arm64_va2par P M va w) (\<lambda>par w.
       if par AND PAR_F \<noteq> 0 then Ret (-1, pinfo) w
       else Ret (0, pinfo\<lparr>pi_attr := arm64_par2attr par\<rparr>) w)"

section \<open>32 bit ARM\<close>

definition arm_write_ATS1xW ::
  "'e mmu \<Rightarrow> u64 \<Rightarrow> ('e, 'z) machine_scheme \<Rightarrow> (unit, ('e, 'z) machine_scheme) outcome"
where
  "arm_write_ATS1xW M vaddr w =
     (if cpsr M (env w) AND 0xF = 0xa then Ret () (w\<lparr>env := translate M 2 vaddr (env w)\<rparr>)
      else Ret () (w\<lparr>env := translate M 1 vaddr (env w)\<rparr>))"

definition arm_read_par64 ::
  "'e mmu \<Rightarrow> ('e, 'z) machine_scheme \<Rightarrow> (u64, ('e, 'z) machine_scheme) outcome"
where
  "arm_read_par64 M w =
     (let lower = par_mrc M (env w);
          (lower, higher) = if lower AND push_bit 11 1 = 0 then (lower, 0) else par_mrrc M (env w)
      in Ret (push_bit 32 (ucast higher) OR ucast lower) w)"

definition ish_to_mair :: "u8 list" where
  "ish_to_mair = [0x04, 0x00, 0xF0, 0x04, 0xF0, 0x0F, 0x0A, 0x0E]"

definition osh_to_mair :: "u8 list" where
  "osh_to_mair = [0x00, 0x0F, 0x0A, 0x0E]"

definition arm_par2attr :: "u64 \<Rightarrow> u64" where
  "arm_par2attr par =
     (let attr =
        (if par AND PAR_LPAE \<noteq> 0 then
           (let attr = NS_PTE_PHYSADDR par;
                attr = attr OR push_bit NS_PTE_MAIR_SHIFT (drop_bit 56 par AND 0xFF)
            in attr OR push_bit NS_PTE_SHAREABLE_SHIFT (drop_bit 7 par AND 0x03))
         else
           (let attr = NS_PTE_PHYSADDR par;
                inner = push_bit NS_PTE_MAIR_INNER_SHIFT
                  (ucast (ish_to_mair ! unat (drop_bit 4 par AND 0x7)));
                outer = push_bit NS_PTE_MAIR_OUTER_SHIFT
                  (ucast (osh_to_mair ! unat (drop_bit 2 par AND 0x3)));
                cache_attributes = push_bit 4 outer OR inner;
                attr = (if cache_attributes = NS_MAIR_DEVICE_STRONGLY_ORDERED
                        then attr OR push_bit NS_PTE_MAIR_SHIFT NS_MAIR_NORMAL_UNCACHED
                        else (attr OR inner) OR outer)
            in if par AND PAR_SH \<noteq> 0
               then attr OR push_bit NS_PTE_SHAREABLE_SHIFT NS_INNER_SHAREABLE
               else attr OR push_bit NS_PTE_SHAREABLE_SHIFT NS_NON_SHAREABLE))
      in attr OR push_bit NS_PTE_AP_SHIFT 0)"

definition arm_va2par ::
  "'e platform \<Rightarrow> 'e mmu \<Rightarrow> u64 \<Rightarrow> ('e, 'z) machine_scheme \<Rightarrow> (u64, ('e, 'z) machine_scheme) outcome"
where
  "arm_va2par P M va w =
     obind (sys_call P C_irq_disable w) (\<lambda>_ w.
     obind (arm_write_ATS1xW M va w) (\<lambda>_ w.
     obind (arm_read_par64 M w) (\<lambda>par w.
     obind (sys_call P C_irq_restore w) (\<lambda>_ w. Ret par w))))"

definition arm_encode_page_info ::
  "'e platform \<Rightarrow> 'e mmu \<Rightarrow> ns_mem_page_info \<Rightarrow> u64 \<Rightarrow> ('e, 'z) machine_scheme \<Rightarrow>
   (int \<times> ns_mem_page_info, ('e, 'z) machine_scheme) outcome"
where
  "arm_encode_page_info P M pinfo va w =
     obind (arm_va2par P M va w) (\<lambda>par w.
       if par AND PAR_F \<noteq> 0 then Ret (-1, pinfo) w
       else Ret (0, pinfo\<lparr>pi_attr := arm_par2attr par\<rparr>) w)"

section \<open>The test runner\<close>

definition runner_encode_page_info :: "ns_mem_page_info \<Rightarrow> u64 \<Rightarrow> int \<times> ns_mem_page_info" where
  "runner_encode_page_info pinfo va =
     (let pinfo = pinfo\<lparr>pi_paddr := va\<rparr>;
          pinfo = pinfo\<lparr>pi_ffa_mem_attr := FFA_MEM_ATTR_NORMAL_MEMORY_UNCACHED\<rparr>;
          pinfo = pinfo\<lparr>pi_ffa_mem_perm := FFA_MEM_PERM_RW\<rparr>;
          pinfo = pinfo\<lparr>pi_attr := va OR push_bit NS_PTE_MAIR_SHIFT NS_MAIR_NORMAL_UNCACHED\<rparr>
      in (0, pinfo))"

section \<open>The fields of a page attribute\<close>

text \<open>
  A page attribute is a word with four fields: the physical page in bits 12 to 47, the memory type
  in bits 48 to 55, the shareability in bits 8 and 9 and the access permission in bits 6 and 7.
  \<open>field\<close> reads a field, \<open>attr_of\<close> builds the attribute from the values of its fields.
\<close>

definition field :: "nat \<Rightarrow> nat \<Rightarrow> u64 \<Rightarrow> u64" where
  "field pos width x = take_bit width (drop_bit pos x)"

definition attr_of :: "u64 \<Rightarrow> u64 \<Rightarrow> u64 \<Rightarrow> u64 \<Rightarrow> u64" where
  "attr_of page mair sh ap =
     push_bit 12 (take_bit 36 page) OR push_bit 48 (take_bit 8 mair) OR
     push_bit 8 (take_bit 2 sh) OR push_bit 6 (take_bit 2 ap)"

abbreviation page_of :: "u64 \<Rightarrow> u64" where "page_of \<equiv> field 12 36"
abbreviation mair_of :: "u64 \<Rightarrow> u64" where "mair_of \<equiv> field 48 8"
abbreviation sh_of :: "u64 \<Rightarrow> u64" where "sh_of \<equiv> field 8 2"
abbreviation ap_of :: "u64 \<Rightarrow> u64" where "ap_of \<equiv> field 6 2"

lemma bit_field: "bit (field pos width x) i \<longleftrightarrow> i < width \<and> bit x (pos + i)"
  by (simp add: field_def bit_take_bit_iff bit_drop_bit_eq)

lemma field_mask: "drop_bit pos x AND mask width = field pos width x"
  by (simp add: field_def take_bit_eq_mask)

lemma low_masks: "(0xFF :: u64) = mask 8" "(3 :: u64) = mask 2" "(7 :: u64) = mask 3"
    "(0xFFFFFFFFF000 :: u64) = push_bit 12 (mask 36)"
  by (simp_all add: mask_eq_exp_minus_1 push_bit_eq_mult)

lemma NS_PTE_PHYSADDR_page: "NS_PTE_PHYSADDR x = push_bit 12 (page_of x)"
  by (rule bit_word_eqI)
     (auto simp: NS_PTE_PHYSADDR_def low_masks bit_and_iff bit_push_bit_iff bit_mask_iff bit_field)

text \<open>An attribute is determined by its fields, and the fields are read back from it.\<close>

lemma attr_of_fields [simp]:
  "page_of (attr_of p m s a) = take_bit 36 p" "mair_of (attr_of p m s a) = take_bit 8 m"
  "sh_of (attr_of p m s a) = take_bit 2 s" "ap_of (attr_of p m s a) = take_bit 2 a"
  by (rule bit_word_eqI, auto simp: attr_of_def bit_field bit_or_iff bit_push_bit_iff bit_take_bit_iff
      dest: bit_imp_le_length)+

lemma take_bit_field [simp]: "w \<le> w' \<Longrightarrow> take_bit w' (field p w x) = field p w x"
  by (simp add: field_def take_bit_take_bit min_def)

lemma arm64_par2attr_attr_of:
  "arm64_par2attr par = attr_of (page_of par) (field 56 8 par) (field 7 2 par) 0"
  by (simp add: arm64_par2attr_def attr_of_def NS_PTE_PHYSADDR_page low_masks field_mask
      NS_PTE_MAIR_SHIFT_def NS_PTE_SHAREABLE_SHIFT_def or.assoc)

lemma and_PAR_F: "par AND PAR_F \<noteq> 0 \<longleftrightarrow> bit par 0"
  using bit_iff_and_push_bit_not_eq_0 [of par 0] by (simp add: PAR_F_def)

lemma and_PAR_LPAE: "par AND PAR_LPAE \<noteq> 0 \<longleftrightarrow> bit par 11"
  by (simp add: PAR_LPAE_def bit_iff_and_push_bit_not_eq_0)

lemma and_PAR_SH: "par AND PAR_SH \<noteq> 0 \<longleftrightarrow> bit par 7"
  by (simp add: PAR_SH_def bit_iff_and_push_bit_not_eq_0)

section \<open>Properties\<close>

text \<open>
  C23: page information on 64 bit ARM. Exactly at EL1 and EL2 the function returns: it disables
  interrupts, translates the address in the regime of this level and restores them. A failed
  translation gives -1 and leaves the page information alone; otherwise the attribute is the one
  whose physical page, memory type and shareability are those of the PAR register and whose access
  permission is 0. No other field of the page information is set. At any other level the function
  aborts, with interrupts disabled and nothing translated.
\<close>

theorem arm64_encode_page_info_par:
  "let e = sysdep P C_irq_disable (env w); el = drop_bit 2 (current_el M e) AND 3 in
    if el = 1 \<or> el = 2
    then let e' = translate M (unat el) va e; par = par_el1 M e' in
      arm64_encode_page_info P M pinfo va w =
        Ret (if bit par 0 then (-1, pinfo)
             else (0, pinfo\<lparr>pi_attr := attr_of (page_of par) (field 56 8 par) (field 7 2 par) 0\<rparr>))
          (w\<lparr>env := sysdep P C_irq_restore e', calls := calls w @ [C_irq_disable, C_irq_restore]\<rparr>)
    else arm64_encode_page_info P M pinfo va w =
      Abort (w\<lparr>env := e, calls := calls w @ [C_irq_disable]\<rparr>)"
  by (auto simp: arm64_encode_page_info_def arm64_va2par_def arm64_write_ATS1ExW_def arm64_read_par64_def
      sys_call_def Let_def and_PAR_F arm64_par2attr_attr_of)

text \<open>
  The memory type a short format PAR stands for: the inner attribute gives the low half, the outer
  attribute the high half, and strongly ordered memory becomes uncached normal memory.
\<close>

definition short_mair :: "u64 \<Rightarrow> u64 \<Rightarrow> u64" where
  "short_mair inner outer =
     (if inner = 1 \<and> outer = 0 then 0x44
      else ucast (ish_to_mair ! unat inner) OR push_bit 4 (ucast (osh_to_mair ! unat outer)))"

lemma field_of_nat:
  obtains n where "field p k x = of_nat n" "n < 2 ^ k"
proof
  show "field p k x = of_nat (unat (field p k x))" by simp
  show "unat (field p k x) < 2 ^ k" by (simp add: field_def unsigned_take_bit_eq take_bit_nat_less_exp)
qed

lemma field_3_cases: "field p 3 x \<in> {0, 1, 2, 3, 4, 5, 6, 7}"
proof -
  obtain n where n: "field p 3 x = of_nat n" "n < 2 ^ 3" by (rule field_of_nat)
  then have "n \<in> {0, 1, 2, 3, 4, 5, 6, 7}" by auto
  with n(1) show ?thesis by auto
qed

lemma field_2_cases: "field p 2 x \<in> {0, 1, 2, 3}"
proof -
  obtain n where n: "field p 2 x = of_nat n" "n < 2 ^ 2" by (rule field_of_nat)
  then have "n \<in> {0, 1, 2, 3}" by auto
  with n(1) show ?thesis by auto
qed

text \<open>The bit patterns the tables are shifted to, for each of the 32 combinations of attributes.\<close>

lemma short_mair_pattern:
  fixes par :: u64
  defines "i \<equiv> field 4 3 par" and "j \<equiv> field 2 2 par"
  defines "inner \<equiv> push_bit 48 (ucast (ish_to_mair ! unat i)) :: u64"
    and "outer \<equiv> push_bit 52 (ucast (osh_to_mair ! unat j)) :: u64"
  shows "(if push_bit 4 outer OR inner = 0 then push_bit 48 0x44 else inner OR outer) =
    push_bit 48 (take_bit 8 (short_mair i j))"
  using field_3_cases [of 4 par] field_2_cases [of 2 par]
  unfolding i_def [symmetric] j_def [symmetric]
  by (elim insertE emptyE)
     (simp_all add: inner_def outer_def short_mair_def ish_to_mair_def osh_to_mair_def push_bit_eq_mult
       take_bit_eq_mod)

lemma arm_par2attr_short:
  assumes "\<not> bit par 11"
  shows "arm_par2attr par =
    attr_of (page_of par) (short_mair (field 4 3 par) (field 2 2 par)) (if bit par 7 then 3 else 0) 0"
proof -
  define X where "X = push_bit 48 (take_bit 8 (short_mair (field 4 3 par) (field 2 2 par)))"
  define inner :: u64 where "inner = push_bit 48 (ucast (ish_to_mair ! unat (field 4 3 par)))"
  define outer :: u64 where "outer = push_bit 52 (ucast (osh_to_mair ! unat (field 2 2 par)))"
  have "(if push_bit 4 outer OR inner = 0 then a OR push_bit 48 0x44 else (a OR inner) OR outer) = a OR X" for a
    using short_mair_pattern [of par] by (simp add: X_def inner_def outer_def or.assoc split: if_splits)
  note pattern = this [of "push_bit 12 (page_of par)"]
  have "drop_bit 4 par AND 7 = field 4 3 par" "drop_bit 2 par AND 3 = field 2 2 par"
    by (simp_all add: low_masks field_mask)
  with assms have "arm_par2attr par =
      (if push_bit 4 outer OR inner = 0 then push_bit 12 (page_of par) OR push_bit 48 0x44
       else (push_bit 12 (page_of par) OR inner) OR outer) OR push_bit 8 (if bit par 7 then 3 else 0)"
    by (simp add: arm_par2attr_def and_PAR_LPAE and_PAR_SH Let_def NS_PTE_PHYSADDR_page
        NS_PTE_MAIR_SHIFT_def NS_PTE_MAIR_INNER_SHIFT_def NS_PTE_MAIR_OUTER_SHIFT_def
        NS_PTE_SHAREABLE_SHIFT_def NS_MAIR_DEVICE_STRONGLY_ORDERED_def NS_MAIR_NORMAL_UNCACHED_def
        NS_INNER_SHAREABLE_def NS_NON_SHAREABLE_def inner_def outer_def)
  with assms show ?thesis
    unfolding pattern by (simp add: attr_of_def X_def or.assoc)
qed

text \<open>
  Page attributes on 32 bit ARM. A long format PAR gives the same attribute as on 64 bit ARM. A
  short format PAR gives the attribute with its physical page, the memory type of its inner and outer
  attributes, inner shareability exactly for shareable memory and access permission 0.
\<close>

theorem arm_par2attr_fields:
  "arm_par2attr par =
     (if bit par 11 then arm64_par2attr par
      else attr_of (page_of par) (short_mair (field 4 3 par) (field 2 2 par)) (if bit par 7 then 3 else 0) 0)"
  by (cases "bit par 11")
     (simp_all add: arm_par2attr_short, simp add: arm_par2attr_def arm64_par2attr_def and_PAR_LPAE Let_def)

text \<open>
  Device memory on 32 bit ARM. A short format PAR with inner attribute 0 (non-cacheable) or 3
  (device) and outer attribute 0 is passed on with the memory type of a device; only strongly
  ordered memory is replaced by uncached normal memory.
\<close>

theorem arm_par2attr_device:
  assumes "\<not> bit par 11" "field 2 2 par = 0"
  shows "mair_of (arm_par2attr par) =
     (if field 4 3 par = 0 \<or> field 4 3 par = 3 then NS_MAIR_DEVICE
      else if field 4 3 par = 1 then NS_MAIR_NORMAL_UNCACHED
      else ucast (ish_to_mair ! unat (field 4 3 par)))"
proof -
  have "mair_of (arm_par2attr par) = take_bit 8 (short_mair (field 4 3 par) 0)"
    using assms by (simp add: arm_par2attr_short)
  with field_3_cases [of 4 par] show ?thesis
    by (elim insertE emptyE)
       (simp_all add: short_mair_def ish_to_mair_def osh_to_mair_def NS_MAIR_DEVICE_def
         NS_MAIR_NORMAL_UNCACHED_def take_bit_eq_mod)
qed

lemma arm_par2attr_device_witness: "mair_of (arm_par2attr 0x80000030) = NS_MAIR_DEVICE"
  using arm_par2attr_device [of "0x80000030"] by (simp add: field_def drop_bit_eq_div take_bit_eq_mod)

text \<open>
  Page information of the test runner. For a page aligned address below 2 to the 48 the
  information names this address as the physical one, in the field for FF-A and in the attribute, as
  uncached normal memory that is writable and not shareable; this holds whatever was there before.
\<close>

theorem runner_encode_page_info_identity:
  assumes "va AND 0xfff = 0" "va < 2 ^ 48"
  shows "runner_encode_page_info pinfo va =
    (0, \<lparr>pi_attr = attr_of (page_of va) NS_MAIR_NORMAL_UNCACHED 0 0, pi_paddr = va,
         pi_ffa_mem_attr = 0x24, pi_ffa_mem_perm = 2\<rparr>)"
proof -
  have "take_bit 12 va = 0" using assms(1) by (simp add: take_bit_eq_mask mask_eq_exp_minus_1)
  moreover have "uint (take_bit 48 va) = uint va"
    using assms(2) by (simp add: unsigned_take_bit_eq take_bit_int_eq_self_iff word_less_def)
  then have "take_bit 48 va = va" by (simp only: word_uint_eq_iff)
  ultimately have bits: "12 \<le> i \<and> i < 48" if "bit va i" for i
    using that bit_take_bit_iff [of 12 va i] bit_take_bit_iff [of 48 va i] by auto
  have "push_bit 12 (page_of va) = va"
    by (intro bit_word_eqI) (use bits in \<open>force simp: bit_push_bit_iff bit_field\<close>)
  then have "attr_of (page_of va) NS_MAIR_NORMAL_UNCACHED 0 0 = va OR push_bit 48 NS_MAIR_NORMAL_UNCACHED"
    by (simp add: attr_of_def NS_MAIR_NORMAL_UNCACHED_def)
  then show ?thesis
    by (cases pinfo) (simp add: runner_encode_page_info_def Let_def NS_PTE_MAIR_SHIFT_def
        FFA_MEM_ATTR_NORMAL_MEMORY_UNCACHED_def FFA_MEM_PERM_RW_def push_bit_eq_mult)
qed

lemma runner_encode_page_info_identity_witness:
  "runner_encode_page_info
     \<lparr>pi_attr = 0, pi_paddr = 0, pi_ffa_mem_attr = 0, pi_ffa_mem_perm = 0\<rparr> 0x40001000 =
    (0, \<lparr>pi_attr = attr_of (page_of 0x40001000) NS_MAIR_NORMAL_UNCACHED 0 0, pi_paddr = 0x40001000,
         pi_ffa_mem_attr = 0x24, pi_ffa_mem_perm = 2\<rparr>)"
  by (rule runner_encode_page_info_identity) simp_all

end
