(* ===== verification/Virtio.thy ===== *)
theory Virtio
  imports Tipc_Prelude
begin

text \<open>
  The virtual queues of the test runner, \<open>test-runner/virtio.c\<close> with \<open>include/virtio.h\<close>. The host, that
  is the virtual device on the other side of a queue, is a parameter: it acts when the guest accesses
  a device register and when the guest reads the index of the used ring, and in between the memory
  that both share is left alone. A failed \<open>assert\<close> calls \<open>abort_msg\<close>, which is documented to terminate
  abnormally, and is an \<open>Abort\<close>.
\<close>

section \<open>Data (virtio.h)\<close>

definition VQ_SIZE :: nat where "VQ_SIZE = 32"
definition VIRTQ_DESC_F_WRITE :: u16 where "VIRTQ_DESC_F_WRITE = push_bit 1 1"

record virtq_desc =
  vd_addr :: u64
  vd_len :: u32
  vd_flags :: u16
  vd_next :: u16

record virtq_avail =
  va_flags :: u16
  va_idx :: u16
  va_ring :: "u16 list"
  va_used_event :: u16

record virtq_used_elem =
  ue_id :: u32
  ue_len :: u32

record virtq_used =
  vu_flags :: u16
  vu_idx :: u16
  vu_ring :: "virtq_used_elem list"
  vu_avail_event :: u16

record virtq_raw =
  vr_desc :: "virtq_desc list"
  vr_avail :: virtq_avail
  vr_used :: virtq_used

record virtq =
  vq_num_bufs :: u64
  vq_queue_id :: u64
  vq_raw :: u64
  vq_old_used_idx :: u16
  vq_vio :: u64

text \<open>
  An access to a device register: its width in bits, its address and the value written or read.
\<close>

datatype io = Io_write nat u64 u64 | Io_read nat u64 u64

text \<open>
  The state: that of the host, the register accesses so far, the \<open>virtq\<close> objects by their addresses
  (static, so zero before their initialisation), the \<open>virtq_raw\<close> objects, which the host shares,
  the data buffers, which the host reaches through the descriptors, and the two variables of the PCI
  transport.
\<close>

type_synonym raw_mem = "u64 \<rightharpoonup> virtq_raw"
type_synonym data_mem = "u64 \<rightharpoonup> bytes"

record 'e vio_world =
  vw_host :: 'e
  vw_io :: "io list"
  vqs :: "u64 \<Rightarrow> virtq"
  raws :: raw_mem
  dmem :: data_mem
  notify_base :: u64
  notify_multiplier :: u32

text \<open>
  The host: \<open>reg_write\<close> and \<open>reg_read\<close> are the effects of register accesses, \<open>host_poll\<close> is what the
  host has done when the guest looks at the used ring, \<open>host_fuel\<close> the number of times a waiting loop
  may look in vain.
\<close>

record 'e host =
  reg_write :: "nat \<Rightarrow> u64 \<Rightarrow> u64 \<Rightarrow> 'e \<times> raw_mem \<times> data_mem \<Rightarrow> 'e \<times> raw_mem \<times> data_mem"
  reg_read :: "nat \<Rightarrow> u64 \<Rightarrow> 'e \<times> raw_mem \<times> data_mem \<Rightarrow> u64 \<times> 'e \<times> raw_mem \<times> data_mem"
  host_poll :: "'e \<times> raw_mem \<times> data_mem \<Rightarrow> 'e \<times> raw_mem \<times> data_mem"
  host_fuel :: nat

type_synonym ('a, 'e, 'z) vio = "('a, ('e, 'z) vio_world_scheme) outcome"

definition set_host :: "'e \<times> raw_mem \<times> data_mem \<Rightarrow> ('e, 'z) vio_world_scheme \<Rightarrow> ('e, 'z) vio_world_scheme" where
  "set_host s w = (case s of (e, r, d) \<Rightarrow> w\<lparr>vw_host := e, raws := r, dmem := d\<rparr>)"

abbreviation host_of :: "('e, 'z) vio_world_scheme \<Rightarrow> 'e \<times> raw_mem \<times> data_mem" where
  "host_of w \<equiv> (vw_host w, raws w, dmem w)"

section \<open>Register accesses (io-mem.h)\<close>

definition io_write :: "nat \<Rightarrow> 'e host \<Rightarrow> u64 \<Rightarrow> u64 \<Rightarrow> ('e, 'z) vio_world_scheme \<Rightarrow> (unit, 'e, 'z) vio" where
  "io_write width H addr val w =
     Ret () (set_host (reg_write H width addr val (host_of w)) (w\<lparr>vw_io := vw_io w @ [Io_write width addr val]\<rparr>))"

definition io_read :: "nat \<Rightarrow> 'e host \<Rightarrow> u64 \<Rightarrow> ('e, 'z) vio_world_scheme \<Rightarrow> (u64, 'e, 'z) vio" where
  "io_read width H addr w =
     (case reg_read H width addr (host_of w) of
        (val, s) \<Rightarrow> let val = take_bit width val in
          Ret val (set_host s (w\<lparr>vw_io := vw_io w @ [Io_read width addr val]\<rparr>)))"

definition io_write_8 :: "'e host \<Rightarrow> u64 \<Rightarrow> u8 \<Rightarrow> ('e, 'z) vio_world_scheme \<Rightarrow> (unit, 'e, 'z) vio" where
  "io_write_8 H addr val = io_write 8 H addr (ucast val)"
definition io_write_16 :: "'e host \<Rightarrow> u64 \<Rightarrow> u16 \<Rightarrow> ('e, 'z) vio_world_scheme \<Rightarrow> (unit, 'e, 'z) vio" where
  "io_write_16 H addr val = io_write 16 H addr (ucast val)"
definition io_write_32 :: "'e host \<Rightarrow> u64 \<Rightarrow> u32 \<Rightarrow> ('e, 'z) vio_world_scheme \<Rightarrow> (unit, 'e, 'z) vio" where
  "io_write_32 H addr val = io_write 32 H addr (ucast val)"
definition io_write_64 :: "'e host \<Rightarrow> u64 \<Rightarrow> u64 \<Rightarrow> ('e, 'z) vio_world_scheme \<Rightarrow> (unit, 'e, 'z) vio" where
  "io_write_64 H addr val = io_write 64 H addr val"

definition io_read_8 :: "'e host \<Rightarrow> u64 \<Rightarrow> ('e, 'z) vio_world_scheme \<Rightarrow> (u8, 'e, 'z) vio" where
  "io_read_8 H addr w = obind (io_read 8 H addr w) (\<lambda>v w. Ret (ucast v) w)"
definition io_read_16 :: "'e host \<Rightarrow> u64 \<Rightarrow> ('e, 'z) vio_world_scheme \<Rightarrow> (u16, 'e, 'z) vio" where
  "io_read_16 H addr w = obind (io_read 16 H addr w) (\<lambda>v w. Ret (ucast v) w)"
definition io_read_32 :: "'e host \<Rightarrow> u64 \<Rightarrow> ('e, 'z) vio_world_scheme \<Rightarrow> (u32, 'e, 'z) vio" where
  "io_read_32 H addr w = obind (io_read 32 H addr w) (\<lambda>v w. Ret (ucast v) w)"

section \<open>Queues (virtio.c)\<close>

text \<open>
  The raw queue behind a pointer; a pointer to no object (as the null pointer of a queue that was
  never initialised) is a \<open>Fault\<close>. \<open>vq_slot\<close> is a ring index modulo the size of the queue, for
  which a size of zero is undefined.
\<close>

definition get_raw :: "u64 \<Rightarrow> ('e, 'z) vio_world_scheme \<Rightarrow> (virtq_raw, 'e, 'z) vio" where
  "get_raw q w = (case raws w (vq_raw (vqs w q)) of None \<Rightarrow> Fault | Some r \<Rightarrow> Ret r w)"

definition put_raw :: "u64 \<Rightarrow> virtq_raw \<Rightarrow> ('e, 'z) vio_world_scheme \<Rightarrow> ('e, 'z) vio_world_scheme" where
  "put_raw q r w = w\<lparr>raws := (raws w)(vq_raw (vqs w q) \<mapsto> r)\<rparr>"

definition vq_slot :: "u64 \<Rightarrow> u16 \<Rightarrow> ('e, 'z) vio_world_scheme \<Rightarrow> (u64, 'e, 'z) vio" where
  "vq_slot q idx w =
     (if vq_num_bufs (vqs w q) = 0 then Fault else Ret (ucast idx mod vq_num_bufs (vqs w q)) w)"

fun vq_init_loop :: "nat \<Rightarrow> u64 \<Rightarrow> u16 \<Rightarrow> nat \<Rightarrow> ('e, 'z) vio_world_scheme \<Rightarrow> (unit, 'e, 'z) vio" where
  "vq_init_loop 0 q flags i w = Ret () w"
| "vq_init_loop (Suc n) q flags i w =
     obind (get_raw q w) (\<lambda>r w.
       if length (vr_desc r) \<le> i then Fault
       else vq_init_loop n q flags (Suc i)
         (put_raw q (r\<lparr>vr_desc := (vr_desc r)[i := (vr_desc r ! i)\<lparr>vd_flags := flags\<rparr>]\<rparr>) w))"

definition vq_init :: "u64 \<Rightarrow> u64 \<Rightarrow> u64 \<Rightarrow> bool \<Rightarrow> ('e, 'z) vio_world_scheme \<Rightarrow> (unit, 'e, 'z) vio" where
  "vq_init q raw vio is_input w =
     (let flags = (if is_input then VIRTQ_DESC_F_WRITE else 0);
          w = w\<lparr>vqs := (vqs w)(q := (vqs w q)\<lparr>vq_raw := raw, vq_num_bufs := of_nat VQ_SIZE\<rparr>)\<rparr> in
      obind (vq_init_loop (unat (vq_num_bufs (vqs w q))) q flags 0 w) (\<lambda>_ w.
        Ret () (w\<lparr>vqs := (vqs w)(q := (vqs w q)\<lparr>vq_vio := vio\<rparr>)\<rparr>)))"

definition vq_make_avail :: "u64 \<Rightarrow> u16 \<Rightarrow> ('e, 'z) vio_world_scheme \<Rightarrow> (unit, 'e, 'z) vio" where
  "vq_make_avail q desc_id w =
     obind (get_raw q w) (\<lambda>r w.
     obind (vq_slot q (va_idx (vr_avail r)) w) (\<lambda>slot w.
     let av = vr_avail r in
     if length (va_ring av) \<le> unat slot then Fault
     else
       let av = av\<lparr>va_ring := (va_ring av)[unat slot := desc_id]\<rparr>;
           av = av\<lparr>va_idx := va_idx av + 1\<rparr>
       in Ret () (put_raw q (r\<lparr>vr_avail := av\<rparr>) w)))"

definition vq_ready :: "'e host \<Rightarrow> u64 \<Rightarrow> ('e, 'z) vio_world_scheme \<Rightarrow> (bool, 'e, 'z) vio" where
  "vq_ready H q w =
     (let w = set_host (host_poll H (host_of w)) w in
      obind (get_raw q w) (\<lambda>r w. Ret (vu_idx (vr_used r) \<noteq> vq_old_used_idx (vqs w q)) w))"

fun vq_wait_loop :: "nat \<Rightarrow> 'e host \<Rightarrow> u64 \<Rightarrow> ('e, 'z) vio_world_scheme \<Rightarrow> (unit, 'e, 'z) vio" where
  "vq_wait_loop n H q w =
     obind (vq_ready H q w) (\<lambda>ready w.
       if ready then Ret () w else (case n of 0 \<Rightarrow> NoFuel | Suc n' \<Rightarrow> vq_wait_loop n' H q w))"

definition vq_wait :: "'e host \<Rightarrow> u64 \<Rightarrow> ('e, 'z) vio_world_scheme \<Rightarrow> (unit, 'e, 'z) vio" where
  "vq_wait H q w = vq_wait_loop (host_fuel H) H q w"

definition vq_adv :: "u64 \<Rightarrow> ('e, 'z) vio_world_scheme \<Rightarrow> (u32, 'e, 'z) vio" where
  "vq_adv q w =
     obind (get_raw q w) (\<lambda>r w.
     obind (vq_slot q (vq_old_used_idx (vqs w q)) w) (\<lambda>slot w.
     if length (vu_ring (vr_used r)) \<le> unat slot then Fault
     else Ret (ue_len (vu_ring (vr_used r) ! unat slot))
       (w\<lparr>vqs := (vqs w)(q := (vqs w q)\<lparr>vq_old_used_idx := vq_old_used_idx (vqs w q) + 1\<rparr>)\<rparr>)))"

definition vq_set_buf ::
  "u16 \<Rightarrow> u64 \<Rightarrow> u16 \<Rightarrow> u64 \<Rightarrow> u64 \<Rightarrow> ('e, 'z) vio_world_scheme \<Rightarrow> (unit, 'e, 'z) vio"
where
  "vq_set_buf flags q desc_id data len w =
     obind (get_raw q w) (\<lambda>r w.
       let i = unat desc_id in
       if length (vr_desc r) \<le> i then Fault
       else
         let d = (vr_desc r ! i)\<lparr>vd_addr := data, vd_len := ucast len\<rparr>;
             w = put_raw q (r\<lparr>vr_desc := (vr_desc r)[i := d]\<rparr>) w
         in if vd_flags d = flags then Ret () w else Abort w)"

definition vq_set_buf_w :: "u64 \<Rightarrow> u16 \<Rightarrow> u64 \<Rightarrow> u64 \<Rightarrow> ('e, 'z) vio_world_scheme \<Rightarrow> (unit, 'e, 'z) vio" where
  "vq_set_buf_w = vq_set_buf VIRTQ_DESC_F_WRITE"

definition vq_set_buf_r :: "u64 \<Rightarrow> u16 \<Rightarrow> u64 \<Rightarrow> u64 \<Rightarrow> ('e, 'z) vio_world_scheme \<Rightarrow> (unit, 'e, 'z) vio" where
  "vq_set_buf_r = vq_set_buf 0"

text \<open>
  \<open>kick\<close> is the transport's \<open>vq_kick\<close>. The \<open>data\<close> is the address of the buffer; the result is the
  number of bytes.
\<close>

definition send_vq ::
  "'e host \<Rightarrow> (u64 \<Rightarrow> ('e, 'z) vio_world_scheme \<Rightarrow> (unit, 'e, 'z) vio) \<Rightarrow> u64 \<Rightarrow> u64 \<Rightarrow> u64 \<Rightarrow> ('e, 'z) vio_world_scheme \<Rightarrow> (int, 'e, 'z) vio"
where
  "send_vq H kick q data len w =
     (let idx = vq_old_used_idx (vqs w q) in
      if len = 0 then Ret 0 w else
      obind (vq_slot q idx w) (\<lambda>slot w.
      obind (vq_set_buf_r q (ucast slot) data len w) (\<lambda>_ w.
      obind (vq_make_avail q (ucast slot) w) (\<lambda>_ w.
      obind (kick q w) (\<lambda>_ w.
      obind (vq_wait H q w) (\<lambda>_ w.
      obind (vq_set_buf_r q (ucast slot) 0 0 w) (\<lambda>_ w.
      obind (vq_adv q w) (\<lambda>_ w. Ret (sint len) w))))))))"

definition recv_vq ::
  "'e host \<Rightarrow> (u64 \<Rightarrow> ('e, 'z) vio_world_scheme \<Rightarrow> (unit, 'e, 'z) vio) \<Rightarrow> u64 \<Rightarrow> u64 \<Rightarrow> u64 \<Rightarrow> ('e, 'z) vio_world_scheme \<Rightarrow> (int, 'e, 'z) vio"
where
  "recv_vq H kick q data len w =
     (let idx = vq_old_used_idx (vqs w q) in
      if len = 0 then Ret 0 w else
      obind (vq_slot q idx w) (\<lambda>slot w.
      obind (vq_set_buf_w q (ucast slot) data len w) (\<lambda>_ w.
      obind (vq_make_avail q (ucast slot) w) (\<lambda>_ w.
      obind (kick q w) (\<lambda>_ w.
      obind (vq_wait H q w) (\<lambda>_ w.
      obind (vq_set_buf_w q (ucast slot) 0 0 w) (\<lambda>_ w.
      obind (vq_adv q w) (\<lambda>n w. Ret (uint n) w))))))))"

declare vq_wait_loop.simps [simp del]

section \<open>The invariant of a queue\<close>

text \<open>
  \<open>vq_ok flags q w\<close>: the queue has its 32 buffers, and all descriptors have the given flags.
  \<open>idle q w\<close>: every buffer that was made available has been taken back. \<open>slot_of idx\<close> is the slot of
  a ring index.
\<close>

definition raw_ok :: "u16 \<Rightarrow> virtq_raw \<Rightarrow> bool" where
  "raw_ok flags r \<longleftrightarrow> length (vr_desc r) = 32 \<and> length (va_ring (vr_avail r)) = 32 \<and>
     length (vu_ring (vr_used r)) = 32 \<and> list_all (\<lambda>d. vd_flags d = flags) (vr_desc r)"

definition vq_ok :: "u16 \<Rightarrow> u64 \<Rightarrow> ('e, 'z) vio_world_scheme \<Rightarrow> bool" where
  "vq_ok flags q w \<longleftrightarrow> vq_num_bufs (vqs w q) = 32 \<and> pred_option (raw_ok flags) (raws w (vq_raw (vqs w q))) \<and>
     raws w (vq_raw (vqs w q)) \<noteq> None"

definition idle :: "u64 \<Rightarrow> ('e, 'z) vio_world_scheme \<Rightarrow> bool" where
  "idle q w \<longleftrightarrow> map_option (va_idx \<circ> vr_avail) (raws w (vq_raw (vqs w q))) = Some (vq_old_used_idx (vqs w q))"

definition slot_of :: "u16 \<Rightarrow> nat" where
  "slot_of idx = unat idx mod 32"

text \<open>
  What the host may do: change the used rings, without resizing them, and the data, but neither
  descriptors nor available rings. \<open>guest w w'\<close>: the guest's part of the state is the same.
\<close>

definition polite :: "raw_mem \<Rightarrow> raw_mem \<Rightarrow> bool" where
  "polite m m' \<longleftrightarrow> (\<forall>a. map_option (\<lambda>r. (vr_desc r, vr_avail r, length (vu_ring (vr_used r)))) (m' a) =
     map_option (\<lambda>r. (vr_desc r, vr_avail r, length (vu_ring (vr_used r)))) (m a))"

definition host_ok :: "'e host \<Rightarrow> bool" where
  "host_ok H \<longleftrightarrow> (\<forall>e r d. polite r (fst (snd (host_poll H (e, r, d)))) \<and>
     (\<forall>n a v. polite r (fst (snd (reg_write H n a v (e, r, d)))) \<and>
       polite r (fst (snd (snd (reg_read H n a (e, r, d)))))))"

definition guest :: "('e, 'z) vio_world_scheme \<Rightarrow> ('e, 'z) vio_world_scheme \<Rightarrow> bool" where
  "guest w w' \<longleftrightarrow> vqs w' = vqs w \<and> polite (raws w) (raws w')"

lemma polite_refl [simp]: "polite m m"
  by (simp add: polite_def)

lemma guest_refl [simp]: "guest w w"
  by (simp add: guest_def)

lemma guest_trans: "guest a b \<Longrightarrow> guest b c \<Longrightarrow> guest a c"
  by (simp add: guest_def polite_def)

lemma transp_guest [simp]: "transp guest"
  by (rule transpI) (rule guest_trans)

lemma polite_raw:
  assumes "polite m m'" "m a = Some r"
  obtains r' where "m' a = Some r'" "vr_desc r' = vr_desc r" "vr_avail r' = vr_avail r"
    "length (vu_ring (vr_used r')) = length (vu_ring (vr_used r))"
proof -
  from assms have "map_option (\<lambda>r. (vr_desc r, vr_avail r, length (vu_ring (vr_used r)))) (m' a) =
      Some (vr_desc r, vr_avail r, length (vu_ring (vr_used r)))" by (simp add: polite_def)
  with that show thesis by auto
qed

lemma guest_vq:
  assumes "guest w w'"
  shows "vq_ok flags q w \<Longrightarrow> vq_ok flags q w'" and "idle q w \<Longrightarrow> idle q w'"
  using assms
  by (auto simp: guest_def vq_ok_def idle_def raw_ok_def elim!: polite_raw)

lemma set_host_simps [simp]:
  "vqs (set_host s w) = vqs w" "raws (set_host s w) = fst (snd s)" "dmem (set_host s w) = snd (snd s)"
  "vw_host (set_host s w) = fst s" "vw_io (set_host s w) = vw_io w"
  by (simp_all add: set_host_def split: prod.splits)

lemma host_okD:
  assumes "host_ok H"
  shows "polite (raws w) (fst (snd (host_poll H (host_of w))))"
    "polite (raws w) (fst (snd (reg_write H n a v (host_of w))))"
    "polite (raws w) (fst (snd (snd (reg_read H n a (host_of w)))))"
  using assms by (auto simp: host_ok_def)

lemma io_write_guest: "host_ok H \<Longrightarrow> keeps guest w (io_write n H a v w)"
  by (simp add: io_write_def guest_def host_okD)

lemma io_read_guest: "host_ok H \<Longrightarrow> keeps guest w (io_read n H a w)"
  using host_okD(3) [of H w n a] by (simp add: io_read_def guest_def Let_def split_def)

lemma get_raw_guest: "keeps guest w (get_raw q w)"
  by (simp add: get_raw_def split: option.splits)

lemma vq_ready_guest: "host_ok H \<Longrightarrow> keeps guest w (vq_ready H q w)"
  by (simp add: vq_ready_def get_raw_def guest_def host_okD Let_def split: option.splits)

lemma vq_wait_loop_guest: "host_ok H \<Longrightarrow> keeps guest w (vq_wait_loop n H q w)"
proof (induction n arbitrary: w)
  case 0
  then show ?case
    by (subst vq_wait_loop.simps) (auto intro!: keeps_obind vq_ready_guest)
next
  case (Suc n)
  then show ?case
    by (subst vq_wait_loop.simps) (auto intro!: keeps_obind vq_ready_guest)
qed

lemma vq_wait_guest: "host_ok H \<Longrightarrow> keeps guest w (vq_wait H q w)"
  by (simp add: vq_wait_def vq_wait_loop_guest)

lemma vq_ready_no_fault: "host_ok H \<Longrightarrow> vq_ok flags q w \<Longrightarrow> no_fault (vq_ready H q w)"
  using guest_vq(1) [of w "set_host (host_poll H (host_of w)) w" flags q]
  by (auto simp: vq_ready_def get_raw_def guest_def host_okD vq_ok_def Let_def split: option.splits)

lemma vq_wait_loop_no_fault: "host_ok H \<Longrightarrow> vq_ok flags q w \<Longrightarrow> no_fault (vq_wait_loop n H q w)"
proof (induction n arbitrary: w)
  case 0
  then show ?case
    by (subst vq_wait_loop.simps) (auto intro!: no_fault_obindI vq_ready_no_fault)
next
  case (Suc n)
  have "no_fault (vq_wait_loop n H q w')" if "vq_ready H q w = Ret b w'" for b w'
    using Suc keeps_Ret [OF vq_ready_guest that] by (blast intro: guest_vq)
  with Suc.prems show ?case
    by (subst vq_wait_loop.simps) (auto intro!: no_fault_obindI vq_ready_no_fault)
qed

lemma vq_wait_no_fault: "host_ok H \<Longrightarrow> vq_ok flags q w \<Longrightarrow> no_fault (vq_wait H q w)"
  unfolding vq_wait_def by (rule vq_wait_loop_no_fault)

section \<open>One buffer through a queue\<close>

text \<open>
  \<open>offer q data len w\<close> is the state in which the buffer is in the slot of the next used index and
  this slot has been appended to the available ring; \<open>withdraw q idx w\<close> the one in which the slot is
  empty again and the used index has been advanced.
\<close>

definition the_raw :: "u64 \<Rightarrow> ('e, 'z) vio_world_scheme \<Rightarrow> virtq_raw" where
  "the_raw q w = (case raws w (vq_raw (vqs w q)) of Some r \<Rightarrow> r | None \<Rightarrow> undefined)"

definition set_slot :: "nat \<Rightarrow> u64 \<Rightarrow> u32 \<Rightarrow> virtq_raw \<Rightarrow> virtq_raw" where
  "set_slot i data len r = r\<lparr>vr_desc := (vr_desc r)[i := (vr_desc r ! i)\<lparr>vd_addr := data, vd_len := len\<rparr>]\<rparr>"

definition append_avail :: "nat \<Rightarrow> virtq_raw \<Rightarrow> virtq_raw" where
  "append_avail i r = (let av = vr_avail r in
     r\<lparr>vr_avail := av\<lparr>va_ring := (va_ring av)[slot_of (va_idx av) := of_nat i], va_idx := va_idx av + 1\<rparr>\<rparr>)"

definition offer :: "u64 \<Rightarrow> u64 \<Rightarrow> u64 \<Rightarrow> ('e, 'z) vio_world_scheme \<Rightarrow> ('e, 'z) vio_world_scheme" where
  "offer q data len w =
     (let i = slot_of (vq_old_used_idx (vqs w q)) in
      put_raw q (append_avail i (set_slot i data (ucast len) (the_raw q w))) w)"

definition withdraw :: "u64 \<Rightarrow> u16 \<Rightarrow> ('e, 'z) vio_world_scheme \<Rightarrow> ('e, 'z) vio_world_scheme" where
  "withdraw q idx w =
     (let w = put_raw q (set_slot (slot_of idx) 0 0 (the_raw q w)) w in
      w\<lparr>vqs := (vqs w)(q := (vqs w q)\<lparr>vq_old_used_idx := vq_old_used_idx (vqs w q) + 1\<rparr>)\<rparr>)"

definition used_len :: "u64 \<Rightarrow> u16 \<Rightarrow> ('e, 'z) vio_world_scheme \<Rightarrow> u32" where
  "used_len q idx w = ue_len (vu_ring (vr_used (the_raw q w)) ! slot_of idx)"

lemma slot_of_less [simp]: "slot_of idx < 32"
  by (simp add: slot_of_def)

lemma unat_slot: "unat ((ucast (idx :: u16) :: u64) mod 32) = slot_of idx"
  by (simp add: slot_of_def unat_mod_distrib unsigned_ucast_eq take_bit_eq_mod mod_mod_cancel)

lemma ucast_slot:
  "(ucast ((ucast (idx :: u16) :: u64) mod 32) :: u16) = of_nat (slot_of idx)"
  "unat (of_nat (slot_of idx) :: u16) = slot_of idx"
proof -
  show "unat (of_nat (slot_of idx) :: u16) = slot_of idx"
    using slot_of_less [of idx] by (simp add: unat_of_nat mod_less order.strict_trans [of _ 32])
  have "(ucast ((ucast idx :: u64) mod 32) :: u16) = of_nat (unat ((ucast idx :: u64) mod 32))"
    by simp
  then show "(ucast ((ucast idx :: u64) mod 32) :: u16) = of_nat (slot_of idx)" by (simp only: unat_slot)
qed

lemma vq_okE:
  assumes "vq_ok flags q w"
  obtains r where "raws w (vq_raw (vqs w q)) = Some r" "the_raw q w = r" "raw_ok flags r"
    "vq_num_bufs (vqs w q) = 32"
  using assms by (auto simp: vq_ok_def the_raw_def)

lemma put_raw_simps [simp]:
  "vqs (put_raw q r w) = vqs w" "raws (put_raw q r w) (vq_raw (vqs w q)) = Some r"
  "the_raw q (put_raw q r w) = r" "put_raw q r' (put_raw q r w) = put_raw q r' w"
  "dmem (put_raw q r w) = dmem w" "vw_host (put_raw q r w) = vw_host w" "vw_io (put_raw q r w) = vw_io w"
  by (simp_all add: put_raw_def the_raw_def)

lemma raw_ok_set_slot [simp]: "raw_ok flags r \<Longrightarrow> i < 32 \<Longrightarrow> raw_ok flags (set_slot i data len r)"
  by (auto simp: raw_ok_def set_slot_def list_all_length nth_list_update)

lemma raw_ok_append [simp]: "raw_ok flags (append_avail i r) = raw_ok flags r"
  by (simp add: raw_ok_def append_avail_def Let_def)

lemma vq_set_buf_ok:
  assumes "vq_ok flags q w" "unat i < 32"
  shows "vq_set_buf flags q i data len w = Ret () (put_raw q (set_slot (unat i) data (ucast len) (the_raw q w)) w)"
  using assms(1)
proof (rule vq_okE)
  fix r assume r: "raws w (vq_raw (vqs w q)) = Some r" "the_raw q w = r" "raw_ok flags r"
  then have "vd_flags (vr_desc r ! unat i) = flags" "length (vr_desc r) = 32"
    using assms(2) by (simp_all add: raw_ok_def list_all_length)
  with r assms(2) show ?thesis by (simp add: vq_set_buf_def get_raw_def set_slot_def Let_def)
qed

lemma vq_make_avail_ok:
  assumes "vq_ok flags q w" "unat i < 32"
  shows "vq_make_avail q i w = Ret () (put_raw q (append_avail (unat i) (the_raw q w)) w)"
  using assms(1)
proof (rule vq_okE)
  fix r assume r: "raws w (vq_raw (vqs w q)) = Some r" "the_raw q w = r" "raw_ok flags r"
    "vq_num_bufs (vqs w q) = 32"
  then have "length (va_ring (vr_avail r)) = 32" by (simp add: raw_ok_def)
  with r show ?thesis
    by (simp add: vq_make_avail_def get_raw_def vq_slot_def unat_slot append_avail_def Let_def not_le)
qed

lemma vq_adv_ok:
  assumes "vq_ok flags q w"
  shows "vq_adv q w = Ret (used_len q (vq_old_used_idx (vqs w q)) w)
    (w\<lparr>vqs := (vqs w)(q := (vqs w q)\<lparr>vq_old_used_idx := vq_old_used_idx (vqs w q) + 1\<rparr>)\<rparr>)"
  using assms
proof (rule vq_okE)
  fix r assume r: "raws w (vq_raw (vqs w q)) = Some r" "the_raw q w = r" "raw_ok flags r"
    "vq_num_bufs (vqs w q) = 32"
  then have "length (vu_ring (vr_used r)) = 32" by (simp add: raw_ok_def)
  with r show ?thesis
    by (simp add: vq_adv_def get_raw_def vq_slot_def unat_slot used_len_def not_le)
qed

lemma vq_ok_put_raw [simp]:
  "vq_num_bufs (vqs w q) = 32 \<Longrightarrow> vq_ok flags q (put_raw q r w) = raw_ok flags r"
  by (simp add: vq_ok_def)

lemma vq_ok_offer: "vq_ok flags q w \<Longrightarrow> vq_ok flags q (offer q data len w)"
  by (elim vq_okE) (simp add: offer_def Let_def)

lemma vq_ok_withdraw: "vq_ok flags q w \<Longrightarrow> vq_ok flags q (withdraw q idx w)"
  by (elim vq_okE) (simp add: withdraw_def Let_def vq_ok_def put_raw_def)

lemma idle_exchange:
  assumes "vq_ok flags q w" "idle q w" "guest (offer q data len w) w2"
  shows "idle q (withdraw q idx w2)"
proof -
  from assms(1) obtain r where r: "raws w (vq_raw (vqs w q)) = Some r" "the_raw q w = r" by (rule vq_okE)
  let ?i = "slot_of (vq_old_used_idx (vqs w q))"
  have "raws (offer q data len w) (vq_raw (vqs w q)) = Some (append_avail ?i (set_slot ?i data (ucast len) r))"
    by (simp add: offer_def r Let_def)
  with assms(3) obtain r2 where r2: "raws w2 (vq_raw (vqs w q)) = Some r2"
    "vr_avail r2 = vr_avail (append_avail ?i (set_slot ?i data (ucast len) r))"
    by (auto simp: guest_def elim: polite_raw)
  have "vqs w2 = vqs w" using assms(3) by (simp add: guest_def offer_def Let_def)
  with r r2 assms(2) show ?thesis
    by (simp add: idle_def withdraw_def put_raw_def the_raw_def set_slot_def append_avail_def Let_def)
qed

text \<open>
  The host makes progress on the queue whose raw queue is at an address: while a buffer is outstanding
  there, a poll in vain decreases a measure of the host's state.
\<close>

definition outstanding :: "u64 \<Rightarrow> ('e, 'z) vio_world_scheme \<Rightarrow> bool" where
  "outstanding q w \<longleftrightarrow>
     (\<exists>r. raws w (vq_raw (vqs w q)) = Some r \<and> va_idx (vr_avail r) \<noteq> vq_old_used_idx (vqs w q))"

definition host_progress :: "'e host \<Rightarrow> ('e \<Rightarrow> nat) \<Rightarrow> u64 \<Rightarrow> bool" where
  "host_progress H \<mu> a \<longleftrightarrow> (\<forall>e m d r old. m a = Some r \<and> va_idx (vr_avail r) \<noteq> old \<longrightarrow>
     (case host_poll H (e, m, d) of (e', m', _) \<Rightarrow>
        (\<exists>r'. m' a = Some r' \<and> vu_idx (vr_used r') \<noteq> old) \<or> \<mu> e' < \<mu> e))"

lemma host_progressD:
  assumes "host_progress H \<mu> (vq_raw (vqs w q))" "outstanding q w"
  shows "vu_idx (vr_used (the_raw q (set_host (host_poll H (host_of w)) w))) \<noteq> vq_old_used_idx (vqs w q) \<or>
    \<mu> (vw_host (set_host (host_poll H (host_of w)) w)) < \<mu> (vw_host w)"
proof -
  from assms(2) obtain r where "raws w (vq_raw (vqs w q)) = Some r" "va_idx (vr_avail r) \<noteq> vq_old_used_idx (vqs w q)"
    by (auto simp: outstanding_def)
  then have "case host_poll H (host_of w) of (e', m', _) \<Rightarrow>
      (\<exists>r'. m' (vq_raw (vqs w q)) = Some r' \<and> vu_idx (vr_used r') \<noteq> vq_old_used_idx (vqs w q)) \<or> \<mu> e' < \<mu> (vw_host w)"
    by (intro assms(1) [unfolded host_progress_def, rule_format]) simp
  then show ?thesis by (auto simp: the_raw_def split_def)
qed

lemma outstanding_guest: "guest w w' \<Longrightarrow> outstanding q w \<Longrightarrow> outstanding q w'"
  by (auto simp: guest_def outstanding_def elim!: polite_raw)

lemma outstanding_offer:
  assumes "vq_ok flags q w" "idle q w"
  shows "outstanding q (offer q data len w)"
  using assms(1)
proof (rule vq_okE)
  fix r assume "raws w (vq_raw (vqs w q)) = Some r" "the_raw q w = r"
  with assms(2) show ?thesis
    by (simp add: idle_def outstanding_def offer_def append_avail_def set_slot_def Let_def)
qed

lemma vq_wait_loop_returns:
  assumes "host_ok H" "host_progress H \<mu> a" "outstanding q w" "\<mu> (vw_host w) \<le> n" "vq_raw (vqs w q) = a"
  shows "returns (\<lambda>_ _. True) (vq_wait_loop n H q w)"
  using assms(3-5)
proof (induction n arbitrary: w)
  case (0 w)
  let ?w = "set_host (host_poll H (host_of w)) w"
  have "outstanding q ?w"
    using 0 assms(1) by (intro outstanding_guest [OF _ 0(1)]) (simp add: guest_def host_okD)
  then obtain r where r: "raws ?w (vq_raw (vqs w q)) = Some r" by (auto simp: outstanding_def)
  have "vu_idx (vr_used (the_raw q ?w)) \<noteq> vq_old_used_idx (vqs w q) \<or> \<mu> (vw_host ?w) < \<mu> (vw_host w)"
    by (rule host_progressD [OF _ 0(1)]) (simp add: 0(3) assms(2))
  with 0(2) r show ?case
    by (subst vq_wait_loop.simps) (auto simp: vq_ready_def get_raw_def the_raw_def Let_def)
next
  case (Suc n w)
  let ?w = "set_host (host_poll H (host_of w)) w"
  have ok: "outstanding q ?w"
    using assms(1) by (intro outstanding_guest [OF _ Suc.prems(1)]) (simp add: guest_def host_okD)
  then obtain r where "raws ?w (vq_raw (vqs w q)) = Some r" by (auto simp: outstanding_def)
  moreover have "vu_idx (vr_used (the_raw q ?w)) \<noteq> vq_old_used_idx (vqs w q) \<or> \<mu> (vw_host ?w) < \<mu> (vw_host w)"
    by (rule host_progressD [OF _ Suc.prems(1)]) (simp add: Suc.prems(3) assms(2))
  ultimately show ?case
    using Suc.IH [OF ok] Suc.prems(2,3)
    by (subst vq_wait_loop.simps) (auto simp: vq_ready_def get_raw_def the_raw_def Let_def)
qed

text \<open>
  The interface of a transport: notifying the host about a queue returns and leaves the guest's part of
  the state alone. It is all that sending and receiving rely on.
\<close>

locale transport =
  fixes kick :: "'e host \<Rightarrow> u64 \<Rightarrow> ('e, 'z) vio_world_scheme \<Rightarrow> (unit, 'e, 'z) vio"
  assumes kick_guest: "host_ok H \<Longrightarrow> returns (\<lambda>_ w'. guest w w') (kick H q w)"
begin

lemma kick_Ret:
  assumes "host_ok H"
  obtains w1 where "kick H q w = Ret () w1" "guest w w1"
  using kick_guest [OF assms, of w q] that by (auto simp: returns_iff)

lemma waits_guest:
  assumes "host_ok H" "vq_ok flags q w" "kick H q (offer q data len w) = Ret () w1" "vq_wait H q w1 = Ret () w2"
  shows "guest (offer q data len w) w2" "vq_ok flags q w2" "vqs w2 = vqs w"
proof -
  have "guest (offer q data len w) w1" using kick_Ret [OF assms(1), of q "offer q data len w"] assms(3) by auto
  moreover have "guest w1 w2" by (rule keeps_Ret [OF vq_wait_guest [OF assms(1)] assms(4)])
  ultimately show g: "guest (offer q data len w) w2" by (rule guest_trans)
  then show "vq_ok flags q w2" by (rule guest_vq) (rule vq_ok_offer [OF assms(2)])
  from g show "vqs w2 = vqs w" by (simp add: guest_def offer_def Let_def)
qed

lemma finish:
  assumes "host_ok H" "vq_ok flags q w" "kick H q (offer q data len w) = Ret () w1" "vq_wait H q w1 = Ret () w2"
    and "i = of_nat (slot_of (vq_old_used_idx (vqs w q)))"
  shows "obind (vq_set_buf flags q i 0 0 w2) (\<lambda>_ w. obind (vq_adv q w) f) =
    f (used_len q (vq_old_used_idx (vqs w q)) w2) (withdraw q (vq_old_used_idx (vqs w q)) w2)"
proof -
  note w2 = waits_guest [OF assms(1-4)]
  have i: "unat i = slot_of (vq_old_used_idx (vqs w q))" using assms(5) by (simp add: ucast_slot)
  let ?w = "put_raw q (set_slot (unat i) 0 (ucast (0 :: u64)) (the_raw q w2)) w2"
  have "vq_ok flags q ?w" using w2(2) i by (elim vq_okE) simp
  moreover have "used_len q idx ?w = used_len q idx w2" for idx by (simp add: used_len_def set_slot_def)
  ultimately show ?thesis
    using vq_set_buf_ok [OF w2(2), of i 0 0] i w2(3)
    by (simp add: vq_adv_ok withdraw_def Let_def)
qed

lemma start:
  assumes "vq_ok flags q w" "i = of_nat (slot_of (vq_old_used_idx (vqs w q)))"
  shows "obind (vq_set_buf flags q i data len w) (\<lambda>_ w. obind (vq_make_avail q i w) f) = f () (offer q data len w)"
proof -
  have i: "unat i = slot_of (vq_old_used_idx (vqs w q))" using assms(2) by (simp add: ucast_slot)
  let ?w = "put_raw q (set_slot (unat i) data (ucast len) (the_raw q w)) w"
  have "vq_ok flags q ?w" using assms(1) i by (elim vq_okE) simp
  then show ?thesis
    using vq_set_buf_ok [OF assms(1), of i data len] vq_make_avail_ok [of flags q ?w i] i
    by (simp add: offer_def Let_def)
qed

lemma send_vq_exchange:
  assumes "host_ok H" "vq_ok 0 q w" "len \<noteq> 0"
  shows "send_vq H (kick H) q data len w =
    obind (kick H q (offer q data len w)) (\<lambda>_ w1.
    obind (vq_wait H q w1) (\<lambda>_ w2.
      Ret (sint len) (withdraw q (vq_old_used_idx (vqs w q)) w2)))" (is "_ = ?r")
proof -
  define i :: u16 where "i = of_nat (slot_of (vq_old_used_idx (vqs w q)))"
  have "vq_num_bufs (vqs w q) = 32" using assms(2) by (simp add: vq_ok_def)
  then have "send_vq H (kick H) q data len w =
      obind (kick H q (offer q data len w)) (\<lambda>_ w. obind (vq_wait H q w) (\<lambda>_ w.
      obind (vq_set_buf 0 q i 0 0 w) (\<lambda>_ w.
      obind (vq_adv q w) (\<lambda>_. Ret (sint len)))))"
    using assms(3) start [OF assms(2) i_def]
    by (simp add: send_vq_def vq_slot_def ucast_slot(1) vq_set_buf_r_def Let_def flip: i_def)
  also have "\<dots> = ?r"
    using finish [OF assms(1,2) _ _ i_def] by (intro obind_cong refl) simp
  finally show ?thesis .
qed

lemma recv_vq_exchange:
  assumes "host_ok H" "vq_ok VIRTQ_DESC_F_WRITE q w" "len \<noteq> 0"
  shows "recv_vq H (kick H) q data len w =
    obind (kick H q (offer q data len w)) (\<lambda>_ w1.
    obind (vq_wait H q w1) (\<lambda>_ w2.
      Ret (uint (used_len q (vq_old_used_idx (vqs w q)) w2)) (withdraw q (vq_old_used_idx (vqs w q)) w2)))" (is "_ = ?r")
proof -
  define i :: u16 where "i = of_nat (slot_of (vq_old_used_idx (vqs w q)))"
  have "vq_num_bufs (vqs w q) = 32" using assms(2) by (simp add: vq_ok_def)
  then have "recv_vq H (kick H) q data len w =
      obind (kick H q (offer q data len w)) (\<lambda>_ w. obind (vq_wait H q w) (\<lambda>_ w.
      obind (vq_set_buf VIRTQ_DESC_F_WRITE q i 0 0 w) (\<lambda>_ w.
      obind (vq_adv q w) (\<lambda>n. Ret (uint n)))))"
    using assms(3) start [OF assms(2) i_def]
    by (simp add: recv_vq_def vq_slot_def ucast_slot(1) vq_set_buf_w_def Let_def flip: i_def)
  also have "\<dots> = ?r"
    using finish [OF assms(1,2) _ _ i_def] by (intro obind_cong refl) simp
  finally show ?thesis .
qed

text \<open>Both directions at once: what an exchange leaves behind.\<close>

lemma exchange_invariant:
  assumes "host_ok H" "vq_ok flags q w" "idle q w"
    and "kick H q (offer q data len w) = Ret () w1" "vq_wait H q w1 = Ret () w2"
  defines "w' \<equiv> withdraw q (vq_old_used_idx (vqs w q)) w2"
  shows "vq_ok flags q w'" "idle q w'" "vq_old_used_idx (vqs w' q) = vq_old_used_idx (vqs w q) + 1"
proof -
  note g = waits_guest [OF assms(1,2,4,5)]
  show "vq_ok flags q w'" unfolding w'_def by (rule vq_ok_withdraw [OF g(2)])
  show "idle q w'" unfolding w'_def by (rule idle_exchange [OF assms(2,3) g(1)])
  show "vq_old_used_idx (vqs w' q) = vq_old_used_idx (vqs w q) + 1"
    by (simp add: w'_def withdraw_def g(3) Let_def)
qed

lemma send_vq_invariant:
  assumes "host_ok H" "vq_ok 0 q w" "idle q w"
  shows "on_ret (\<lambda>n w'. n = sint len \<and> vq_ok 0 q w' \<and> idle q w' \<and>
      vq_old_used_idx (vqs w' q) = vq_old_used_idx (vqs w q) + (if len = 0 then 0 else 1))
    (send_vq H (kick H) q data len w)"
proof (cases "len = 0")
  case True
  with assms show ?thesis by (simp add: send_vq_def)
next
  case False
  show ?thesis
    unfolding send_vq_exchange [OF assms(1,2) False]
    using exchange_invariant [OF assms, of data len] False by (auto intro!: on_retI simp: obind_eq_Ret)
qed

lemma recv_vq_invariant:
  assumes "host_ok H" "vq_ok VIRTQ_DESC_F_WRITE q w" "idle q w"
  shows "on_ret (\<lambda>n w'. 0 \<le> n \<and> vq_ok VIRTQ_DESC_F_WRITE q w' \<and> idle q w' \<and>
      vq_old_used_idx (vqs w' q) = vq_old_used_idx (vqs w q) + (if len = 0 then 0 else 1))
    (recv_vq H (kick H) q data len w)"
proof (cases "len = 0")
  case True
  with assms show ?thesis by (simp add: recv_vq_def)
next
  case False
  show ?thesis
    unfolding recv_vq_exchange [OF assms(1,2) False]
    using exchange_invariant [OF assms, of data len] False by (auto intro!: on_retI simp: obind_eq_Ret)
qed

lemma exchange_returns:
  assumes "host_ok H" "vq_ok flags q w" "idle q w" "host_progress H \<mu> (vq_raw (vqs w q))" "\<And>e. \<mu> e \<le> host_fuel H"
  shows "\<exists>w1 w2. kick H q (offer q data len w) = Ret () w1 \<and> vq_wait H q w1 = Ret () w2"
proof -
  obtain w1 where w1: "kick H q (offer q data len w) = Ret () w1" "guest (offer q data len w) w1"
    by (rule kick_Ret [OF assms(1)])
  have "outstanding q w1" by (rule outstanding_guest [OF w1(2) outstanding_offer [OF assms(2,3)]])
  moreover have "vq_raw (vqs w1 q) = vq_raw (vqs w q)" using w1(2) by (simp add: guest_def offer_def Let_def)
  ultimately show ?thesis using vq_wait_loop_returns [OF assms(1,4) _ assms(5)] w1(1)
    by (auto simp: returns_iff vq_wait_def)
qed

lemma vq_returns:
  assumes "host_ok H" "host_progress H \<mu> (vq_raw (vqs w q))" "\<And>e. \<mu> e \<le> host_fuel H" "idle q w"
  shows "vq_ok 0 q w \<Longrightarrow> returns (\<lambda>_ _. True) (send_vq H (kick H) q data len w)"
    and "vq_ok VIRTQ_DESC_F_WRITE q w \<Longrightarrow> returns (\<lambda>_ _. True) (recv_vq H (kick H) q data len w)"
proof -
  assume "vq_ok 0 q w"
  from exchange_returns [OF assms(1) this assms(4,2,3), of data len] send_vq_exchange [OF assms(1) this, of len data]
  show "returns (\<lambda>_ _. True) (send_vq H (kick H) q data len w)"
    by (cases "len = 0") (auto simp: send_vq_def)
next
  assume "vq_ok VIRTQ_DESC_F_WRITE q w"
  from exchange_returns [OF assms(1) this assms(4,2,3), of data len] recv_vq_exchange [OF assms(1) this, of len data]
  show "returns (\<lambda>_ _. True) (recv_vq H (kick H) q data len w)"
    by (cases "len = 0") (auto simp: recv_vq_def)
qed

end

end
