(* ===== verification/Virtio_Transport.thy ===== *)
theory Virtio_Transport
  imports Virtio
begin

text \<open>
  The two transports of the test runner, \<open>test-runner/virtio-mmio.c\<close> and \<open>test-runner/virtio-pci.c\<close>:
  feature negotiation, device status, attaching and notifying a queue, and the search for the console
  device. Both are instances of the interface \<open>transport\<close>. Fields of the register structures are
  written as their offsets, and plain reads of them are register reads.
\<close>

section \<open>The MMIO transport (virtio-mmio.c)\<close>

definition VIRTIO_MMIO_BASE :: u64 where "VIRTIO_MMIO_BASE = 0xa000000"
definition VIRTIO_MMIO_MAGIC :: u32 where "VIRTIO_MMIO_MAGIC = 0x74726976"
definition VIRTIO_DEVICE_ID_CONSOLE :: u32 where "VIRTIO_DEVICE_ID_CONSOLE = 3"

abbreviation (input) MMIO_magic :: u64 where "MMIO_magic \<equiv> 0x00"
abbreviation (input) MMIO_device_id :: u64 where "MMIO_device_id \<equiv> 0x08"
abbreviation (input) MMIO_host_features :: u64 where "MMIO_host_features \<equiv> 0x10"
abbreviation (input) MMIO_host_features_sel :: u64 where "MMIO_host_features_sel \<equiv> 0x14"
abbreviation (input) MMIO_guest_features :: u64 where "MMIO_guest_features \<equiv> 0x20"
abbreviation (input) MMIO_guest_features_sel :: u64 where "MMIO_guest_features_sel \<equiv> 0x24"
abbreviation (input) MMIO_guest_page_size :: u64 where "MMIO_guest_page_size \<equiv> 0x28"
abbreviation (input) MMIO_queue_sel :: u64 where "MMIO_queue_sel \<equiv> 0x30"
abbreviation (input) MMIO_queue_num :: u64 where "MMIO_queue_num \<equiv> 0x38"
abbreviation (input) MMIO_queue_align :: u64 where "MMIO_queue_align \<equiv> 0x3c"
abbreviation (input) MMIO_queue_pfn :: u64 where "MMIO_queue_pfn \<equiv> 0x40"
abbreviation (input) MMIO_queue_notify :: u64 where "MMIO_queue_notify \<equiv> 0x50"
abbreviation (input) MMIO_status :: u64 where "MMIO_status \<equiv> 0x70"
abbreviation (input) SIZEOF_mmio_config :: u64 where "SIZEOF_mmio_config \<equiv> 0x200"

definition mmio_set_features :: "'e host \<Rightarrow> u64 \<Rightarrow> u64 \<Rightarrow> ('e, 'z) vio_world_scheme \<Rightarrow> (unit, 'e, 'z) vio" where
  "mmio_set_features H vio features w =
     obind (io_write_32 H (vio + MMIO_guest_features_sel) 0 w) (\<lambda>_ w.
     obind (io_write_32 H (vio + MMIO_guest_features) (ucast (features AND 0xFFFF)) w) (\<lambda>_ w.
     obind (io_write_32 H (vio + MMIO_guest_features_sel) 1 w) (\<lambda>_ w.
     io_write_32 H (vio + MMIO_guest_features) (ucast (drop_bit 32 features)) w)))"

definition mmio_get_features :: "'e host \<Rightarrow> u64 \<Rightarrow> ('e, 'z) vio_world_scheme \<Rightarrow> (u64, 'e, 'z) vio" where
  "mmio_get_features H vio w =
     obind (io_write_32 H (vio + MMIO_host_features_sel) 1 w) (\<lambda>_ w.
     obind (io_read_32 H (vio + MMIO_host_features) w) (\<lambda>hi w.
     let features = push_bit 32 (ucast hi) in
     obind (io_write_32 H (vio + MMIO_host_features_sel) 0 w) (\<lambda>_ w.
     obind (io_read_32 H (vio + MMIO_host_features) w) (\<lambda>lo w. Ret (features OR ucast lo) w))))"

definition set_queue_id :: "u64 \<Rightarrow> u16 \<Rightarrow> ('e, 'z) vio_world_scheme \<Rightarrow> ('e, 'z) vio_world_scheme" where
  "set_queue_id q idx w = w\<lparr>vqs := (vqs w)(q := (vqs w q)\<lparr>vq_queue_id := ucast idx\<rparr>)\<rparr>"

definition mmio_vq_attach :: "'e host \<Rightarrow> u64 \<Rightarrow> u16 \<Rightarrow> ('e, 'z) vio_world_scheme \<Rightarrow> (unit, 'e, 'z) vio" where
  "mmio_vq_attach H q idx w =
     (let vio = vq_vio (vqs w q); w = set_queue_id q idx w in
      obind (io_write_32 H (vio + MMIO_queue_sel) (ucast idx) w) (\<lambda>_ w.
      obind (io_write_32 H (vio + MMIO_queue_num) (ucast (vq_num_bufs (vqs w q))) w) (\<lambda>_ w.
      obind (io_write_32 H (vio + MMIO_queue_align) 4096 w) (\<lambda>_ w.
      io_write_32 H (vio + MMIO_queue_pfn) (ucast (drop_bit 12 (vq_raw (vqs w q)))) w))))"

definition mmio_vq_kick :: "'e host \<Rightarrow> u64 \<Rightarrow> ('e, 'z) vio_world_scheme \<Rightarrow> (unit, 'e, 'z) vio" where
  "mmio_vq_kick H q w =
     io_write_32 H (vq_vio (vqs w q) + MMIO_queue_notify) (ucast (vq_queue_id (vqs w q))) w"

definition mmio_or_status :: "'e host \<Rightarrow> u64 \<Rightarrow> u32 \<Rightarrow> ('e, 'z) vio_world_scheme \<Rightarrow> (unit, 'e, 'z) vio" where
  "mmio_or_status H vio flags w =
     obind (io_read_32 H (vio + MMIO_status) w) (\<lambda>old_status w.
     io_write_32 H (vio + MMIO_status) (old_status OR flags) w)"

definition mmio_get_status :: "'e host \<Rightarrow> u64 \<Rightarrow> ('e, 'z) vio_world_scheme \<Rightarrow> (u32, 'e, 'z) vio" where
  "mmio_get_status H vio w = io_read_32 H (vio + MMIO_status) w"

definition mmio_reset_device :: "'e host \<Rightarrow> u64 \<Rightarrow> ('e, 'z) vio_world_scheme \<Rightarrow> (unit, 'e, 'z) vio" where
  "mmio_reset_device H vio w = io_write_32 H (vio + MMIO_status) 0 w"

definition mmio_set_guest_page_size :: "'e host \<Rightarrow> u64 \<Rightarrow> u32 \<Rightarrow> ('e, 'z) vio_world_scheme \<Rightarrow> (unit, 'e, 'z) vio" where
  "mmio_set_guest_page_size H vio sz w = io_write_32 H (vio + MMIO_guest_page_size) sz w"

text \<open>The loop of \<open>virtio_probe_console\<close> over the consecutive register blocks; 0 is \<open>NULL\<close>.\<close>

fun mmio_probe_loop :: "nat \<Rightarrow> 'e host \<Rightarrow> u64 \<Rightarrow> ('e, 'z) vio_world_scheme \<Rightarrow> (u64, 'e, 'z) vio" where
  "mmio_probe_loop n H cfg w =
     obind (io_read_32 H (cfg + MMIO_magic) w) (\<lambda>magic w.
     if magic \<noteq> VIRTIO_MMIO_MAGIC then Ret 0 w else
     obind (io_read_32 H (cfg + MMIO_device_id) w) (\<lambda>device_id w.
     if device_id = VIRTIO_DEVICE_ID_CONSOLE then Ret cfg w
     else (case n of 0 \<Rightarrow> NoFuel | Suc n' \<Rightarrow> mmio_probe_loop n' H (cfg + SIZEOF_mmio_config) w)))"

definition mmio_probe_console :: "'e host \<Rightarrow> ('e, 'z) vio_world_scheme \<Rightarrow> (u64, 'e, 'z) vio" where
  "mmio_probe_console H w = mmio_probe_loop (host_fuel H) H VIRTIO_MMIO_BASE w"

section \<open>The PCI transport (virtio-pci.c)\<close>

abbreviation (input) PCI_host_features_sel :: u64 where "PCI_host_features_sel \<equiv> 0x00"
abbreviation (input) PCI_host_features :: u64 where "PCI_host_features \<equiv> 0x04"
abbreviation (input) PCI_guest_features_sel :: u64 where "PCI_guest_features_sel \<equiv> 0x08"
abbreviation (input) PCI_guest_features :: u64 where "PCI_guest_features \<equiv> 0x0c"
abbreviation (input) PCI_device_status :: u64 where "PCI_device_status \<equiv> 0x14"
abbreviation (input) PCI_queue_sel :: u64 where "PCI_queue_sel \<equiv> 0x16"
abbreviation (input) PCI_queue_size :: u64 where "PCI_queue_size \<equiv> 0x18"
abbreviation (input) PCI_queue_enable :: u64 where "PCI_queue_enable \<equiv> 0x1c"
abbreviation (input) PCI_queue_notify_off :: u64 where "PCI_queue_notify_off \<equiv> 0x1e"
abbreviation (input) PCI_queue_desc :: u64 where "PCI_queue_desc \<equiv> 0x20"
abbreviation (input) PCI_queue_avail :: u64 where "PCI_queue_avail \<equiv> 0x28"
abbreviation (input) PCI_queue_used :: u64 where "PCI_queue_used \<equiv> 0x30"

definition pci_set_features :: "'e host \<Rightarrow> u64 \<Rightarrow> u64 \<Rightarrow> ('e, 'z) vio_world_scheme \<Rightarrow> (unit, 'e, 'z) vio" where
  "pci_set_features H vio features w =
     obind (io_write_32 H (vio + PCI_guest_features_sel) 0 w) (\<lambda>_ w.
     obind (io_write_32 H (vio + PCI_guest_features) (ucast (features AND 0xFFFF)) w) (\<lambda>_ w.
     obind (io_write_32 H (vio + PCI_guest_features_sel) 1 w) (\<lambda>_ w.
     io_write_32 H (vio + PCI_guest_features) (ucast (drop_bit 32 features)) w)))"

definition pci_get_features :: "'e host \<Rightarrow> u64 \<Rightarrow> ('e, 'z) vio_world_scheme \<Rightarrow> (u64, 'e, 'z) vio" where
  "pci_get_features H vio w =
     obind (io_write_32 H (vio + PCI_host_features_sel) 1 w) (\<lambda>_ w.
     obind (io_read_32 H (vio + PCI_host_features) w) (\<lambda>hi w.
     let features = push_bit 32 (ucast hi) in
     obind (io_write_32 H (vio + PCI_host_features_sel) 0 w) (\<lambda>_ w.
     obind (io_read_32 H (vio + PCI_host_features) w) (\<lambda>lo w. Ret (features OR ucast lo) w))))"

text \<open>
  In \<open>virtq_raw\<close> the descriptors come first, the available ring follows the 32 descriptors of 16 bytes,
  and the used ring is at the next page boundary.
\<close>

definition pci_vq_attach :: "'e host \<Rightarrow> u64 \<Rightarrow> u16 \<Rightarrow> ('e, 'z) vio_world_scheme \<Rightarrow> (unit, 'e, 'z) vio" where
  "pci_vq_attach H q idx w =
     (let vio = vq_vio (vqs w q); w = set_queue_id q idx w in
      obind (io_write_16 H (vio + PCI_queue_sel) idx w) (\<lambda>_ w.
      obind (io_write_16 H (vio + PCI_queue_size) (ucast (vq_num_bufs (vqs w q))) w) (\<lambda>_ w.
      obind (io_write_64 H (vio + PCI_queue_desc) (vq_raw (vqs w q)) w) (\<lambda>_ w.
      obind (io_write_64 H (vio + PCI_queue_avail) (vq_raw (vqs w q) + 512) w) (\<lambda>_ w.
      obind (io_write_64 H (vio + PCI_queue_used) (vq_raw (vqs w q) + 4096) w) (\<lambda>_ w.
      io_write_16 H (vio + PCI_queue_enable) 1 w))))))"

definition pci_vq_kick :: "'e host \<Rightarrow> u64 \<Rightarrow> ('e, 'z) vio_world_scheme \<Rightarrow> (unit, 'e, 'z) vio" where
  "pci_vq_kick H q w =
     (let vio = vq_vio (vqs w q) in
      obind (io_write_16 H (vio + PCI_queue_sel) (ucast (vq_queue_id (vqs w q))) w) (\<lambda>_ w.
      obind (io_read_16 H (vio + PCI_queue_notify_off) w) (\<lambda>notify_off w.
      let notify_addr = notify_base w + ucast (ucast notify_off * notify_multiplier w) in
      io_write_32 H notify_addr (ucast (vq_queue_id (vqs w q))) w)))"

definition pci_or_status :: "'e host \<Rightarrow> u64 \<Rightarrow> u32 \<Rightarrow> ('e, 'z) vio_world_scheme \<Rightarrow> (unit, 'e, 'z) vio" where
  "pci_or_status H vio flags w =
     obind (io_read_8 H (vio + PCI_device_status) w) (\<lambda>old_status w.
     io_write_8 H (vio + PCI_device_status) (ucast (ucast old_status OR flags)) w)"

definition pci_get_status :: "'e host \<Rightarrow> u64 \<Rightarrow> ('e, 'z) vio_world_scheme \<Rightarrow> (u32, 'e, 'z) vio" where
  "pci_get_status H vio w = obind (io_read_8 H (vio + PCI_device_status) w) (\<lambda>s w. Ret (ucast s) w)"

definition pci_reset_device :: "'e host \<Rightarrow> u64 \<Rightarrow> ('e, 'z) vio_world_scheme \<Rightarrow> (unit, 'e, 'z) vio" where
  "pci_reset_device H vio w = io_write_8 H (vio + PCI_device_status) 0 w"

definition pci_set_guest_page_size :: "'e host \<Rightarrow> u64 \<Rightarrow> u32 \<Rightarrow> ('e, 'z) vio_world_scheme \<Rightarrow> (unit, 'e, 'z) vio" where
  "pci_set_guest_page_size H vio sz w = Ret () w"

definition VIRTIO_DEVICE_VENDOR_ID :: u16 where "VIRTIO_DEVICE_VENDOR_ID = 0x1AF4"
definition VIRTIO_PCI_DEVICE_CONSOLE_ID :: u16 where "VIRTIO_PCI_DEVICE_CONSOLE_ID = 0x1003"
definition VIRTIO_PCI_CAP_COMMON_CFG :: u8 where "VIRTIO_PCI_CAP_COMMON_CFG = 1"
definition VIRTIO_PCI_CAP_NOTIFY_CFG :: u8 where "VIRTIO_PCI_CAP_NOTIFY_CFG = 2"
definition VIRT_PCIE_ECAM_HIGH_BASE :: u64 where "VIRT_PCIE_ECAM_HIGH_BASE = 0x4010000000"
definition VIRT_PCIE_ECAM_HIGH_SIZE :: u64 where "VIRT_PCIE_ECAM_HIGH_SIZE = 0x10000000"
definition VIRT_CONSOLE_BAR_ADDR :: u64 where "VIRT_CONSOLE_BAR_ADDR = 0x8000000000 + 0x40000000"
definition CMD_MEM_SPACE_BIT_POSITION :: nat where "CMD_MEM_SPACE_BIT_POSITION = 1"
definition STATUS_CAP_LIST_BIT_POSITION :: nat where "STATUS_CAP_LIST_BIT_POSITION = 4"

text \<open>The search for the configuration space, page by page; without a hit it ends behind the last page.\<close>

fun pci_scan_loop :: "nat \<Rightarrow> 'e host \<Rightarrow> u64 \<Rightarrow> ('e, 'z) vio_world_scheme \<Rightarrow> (u64, 'e, 'z) vio" where
  "pci_scan_loop 0 H base_addr w = Ret base_addr w"
| "pci_scan_loop (Suc n) H base_addr w =
     obind (io_read_16 H (base_addr + 0) w) (\<lambda>vendor_id w.
     obind (if vendor_id = VIRTIO_DEVICE_VENDOR_ID
            then obind (io_read_16 H (base_addr + 2) w) (\<lambda>device_id w.
              Ret (device_id = VIRTIO_PCI_DEVICE_CONSOLE_ID) w)
            else Ret False w) (\<lambda>found w.
     if found then Ret base_addr w else pci_scan_loop n H (base_addr + 4096) w))"

text \<open>
  The walk over the capabilities; \<open>common_bar\<close>, \<open>notify_bar\<close> and \<open>virtio_cfg\<close> are the local variables,
  which are uninitialised until the capability that sets them is found.
\<close>

fun pci_cap_loop ::
  "nat \<Rightarrow> 'e host \<Rightarrow> u64 \<Rightarrow> u8 \<Rightarrow> u8 \<times> u8 \<times> u64 \<Rightarrow> ('e, 'z) vio_world_scheme \<Rightarrow> (u8 \<times> u8 \<times> u64, 'e, 'z) vio"
where
  "pci_cap_loop n H base_addr cap_offset (common_bar, notify_bar, virtio_cfg) w =
     (let cap = base_addr + ucast cap_offset in
      obind (io_read_8 H (cap + 3) w) (\<lambda>type w.
      obind (if type = VIRTIO_PCI_CAP_COMMON_CFG then
               obind (io_read_8 H (cap + 4) w) (\<lambda>bar w.
               obind (io_read_32 H (cap + 8) w) (\<lambda>offset w.
                 Ret (bar, ucast offset + VIRT_CONSOLE_BAR_ADDR) w))
             else Ret (common_bar, virtio_cfg) w) (\<lambda>(common_bar, virtio_cfg) w.
      obind (if type = VIRTIO_PCI_CAP_NOTIFY_CFG then
               obind (io_read_8 H (cap + 4) w) (\<lambda>bar w.
               obind (io_read_32 H (cap + 16) w) (\<lambda>mult w.
               let w = w\<lparr>notify_multiplier := mult\<rparr> in
               obind (io_read_32 H (cap + 8) w) (\<lambda>offset w.
                 Ret bar (w\<lparr>notify_base := ucast offset + VIRT_CONSOLE_BAR_ADDR\<rparr>))))
             else Ret notify_bar w) (\<lambda>notify_bar w.
      obind (io_read_8 H (cap + 1) w) (\<lambda>cap_offset w.
      if cap_offset = 0 then Ret (common_bar, notify_bar, virtio_cfg) w
      else (case n of 0 \<Rightarrow> NoFuel
            | Suc n' \<Rightarrow> pci_cap_loop n' H base_addr cap_offset (common_bar, notify_bar, virtio_cfg) w))))))"

text \<open>\<open>log_msg\<close> is the log function; \<open>junk\<close> the uninitialised local variables.\<close>

definition pci_probe_console ::
  "'e host \<Rightarrow> (string \<Rightarrow> ('e, 'z) vio_world_scheme \<Rightarrow> (unit, 'e, 'z) vio) \<Rightarrow> u8 \<times> u8 \<times> u64 \<Rightarrow> ('e, 'z) vio_world_scheme \<Rightarrow> (u64, 'e, 'z) vio"
where
  "pci_probe_console H log_msg junk w =
     obind (pci_scan_loop (unat (VIRT_PCIE_ECAM_HIGH_SIZE div 4096)) H VIRT_PCIE_ECAM_HIGH_BASE w) (\<lambda>base_addr w.
     if base_addr = VIRT_PCIE_ECAM_HIGH_BASE + VIRT_PCIE_ECAM_HIGH_SIZE then
       obind (log_msg ''Error: No virtio console device found!'' w) (\<lambda>_ w. Ret 0 w)
     else
     obind (io_read_16 H (base_addr + 6) w) (\<lambda>status w.
     if \<not> bit status STATUS_CAP_LIST_BIT_POSITION then
       obind (log_msg ''Error: Virtio console capabilities list unsupport!'' w) (\<lambda>_ w. Ret 0 w)
     else
     obind (io_read_16 H (base_addr + 4) w) (\<lambda>cmd_val w.
     obind (io_write_16 H (base_addr + 4) (cmd_val OR push_bit CMD_MEM_SPACE_BIT_POSITION 1) w) (\<lambda>_ w.
     obind (io_read_8 H (base_addr + 0x34) w) (\<lambda>cap_offset w.
     obind (pci_cap_loop (host_fuel H) H base_addr cap_offset junk w) (\<lambda>(common_bar, notify_bar, virtio_cfg) w.
     if common_bar \<noteq> notify_bar then Abort w else
     obind (io_write_64 H (base_addr + 0x10 + ucast common_bar * 4) (VIRT_CONSOLE_BAR_ADDR OR 0x4) w) (\<lambda>_ w.
     Ret virtio_cfg w)))))))"

declare mmio_probe_loop.simps [simp del] pci_cap_loop.simps [simp del]

section \<open>Both are transports\<close>

lemma io_write_returns: "host_ok H \<Longrightarrow> returns (\<lambda>_ w'. guest w w') (io_write n H a v w)"
  using io_write_guest [of H w n a v] by (simp add: io_write_def)

lemma io_read_returns: "host_ok H \<Longrightarrow> returns (\<lambda>_ w'. guest w w') (io_read n H a w)"
  using io_read_guest [of H w n a] by (simp add: io_read_def Let_def split_def)

lemma returns_guest_bind:
  assumes "returns (\<lambda>_ w'. guest w w') m" "\<And>a w'. guest w w' \<Longrightarrow> returns (\<lambda>_ w''. guest w' w'') (f a w')"
  shows "returns (\<lambda>_ w'. guest w w') (obind m f)"
proof (cases m)
  case (Ret a w')
  with assms(1) have "guest w w'" by simp
  with assms(2) [OF this, of a] Ret show ?thesis by (auto elim!: returns_mono intro: guest_trans)
qed (use assms(1) in simp_all)

interpretation mmio: transport mmio_vq_kick
  by unfold_locales (simp add: mmio_vq_kick_def io_write_32_def io_write_returns)

interpretation pci: transport pci_vq_kick
  by unfold_locales
     (auto simp: pci_vq_kick_def io_write_32_def io_write_16_def io_read_16_def Let_def
       simp del: returns_obind intro!: returns_guest_bind io_write_returns io_read_returns)

section \<open>An obliging host\<close>

text \<open>
  A host that takes every available buffer at once: when it is polled, the used index of every queue
  is the available index, and the used lengths are those of the descriptors in the same slots.
\<close>

definition serve_raw :: "virtq_raw \<Rightarrow> virtq_raw" where
  "serve_raw r = r\<lparr>vr_used := (vr_used r)\<lparr>vu_idx := va_idx (vr_avail r),
     vu_ring := map (\<lambda>(e, d). e\<lparr>ue_len := vd_len d\<rparr>) (zip (vu_ring (vr_used r)) (vr_desc r)) @
       drop (length (vr_desc r)) (vu_ring (vr_used r))\<rparr>\<rparr>"

definition demo_host :: "unit host" where
  "demo_host = \<lparr>reg_write = (\<lambda>_ _ _ s. s), reg_read = (\<lambda>_ _ s. (0, s)),
     host_poll = (\<lambda>(e, r, d). (e, map_option serve_raw \<circ> r, d)), host_fuel = 0\<rparr>"

definition demo_raw :: "u16 \<Rightarrow> u16 \<Rightarrow> virtq_raw" where
  "demo_raw flags idx =
     \<lparr>vr_desc = replicate 32 \<lparr>vd_addr = 0, vd_len = 0, vd_flags = flags, vd_next = 0\<rparr>,
      vr_avail = \<lparr>va_flags = 0, va_idx = idx, va_ring = replicate 32 0, va_used_event = 0\<rparr>,
      vr_used = \<lparr>vu_flags = 0, vu_idx = idx, vu_ring = replicate 32 \<lparr>ue_id = 0, ue_len = 0\<rparr>, vu_avail_event = 0\<rparr>\<rparr>"

text \<open>An output queue at 0x10 and an input queue at 0x20, both with the given index.\<close>

definition demo_vio_world :: "u16 \<Rightarrow> unit vio_world" where
  "demo_vio_world idx =
     \<lparr>vw_host = (), vw_io = [],
      vqs = (\<lambda>q. \<lparr>vq_num_bufs = 32, vq_queue_id = 4, vq_raw = (if q = 0x10 then 0x4000 else 0x6000),
        vq_old_used_idx = idx, vq_vio = 0xa000000\<rparr>),
      raws = [0x4000 \<mapsto> demo_raw 0 idx, 0x6000 \<mapsto> demo_raw 2 idx],
      dmem = [0x100 \<mapsto> [1, 2, 3]], notify_base = 0, notify_multiplier = 0\<rparr>"

lemma min_plus_diff: "min a b + (a - b) = (a :: nat)"
  by simp

lemma demo_host_ok: "host_ok demo_host"
  by (auto simp: min_plus_diff host_ok_def demo_host_def polite_def serve_raw_def option.map_comp comp_def)

lemma demo_vio_ok:
  "vq_ok 0 0x10 (demo_vio_world idx)" "idle 0x10 (demo_vio_world idx)"
  "vq_ok VIRTQ_DESC_F_WRITE 0x20 (demo_vio_world idx)" "idle 0x20 (demo_vio_world idx)"
  by (simp_all add: vq_ok_def idle_def demo_vio_world_def demo_raw_def raw_ok_def list_all_iff VIRTQ_DESC_F_WRITE_def)

lemma demo_host_progress: "host_progress demo_host (\<lambda>_. 0) a"
  by (auto simp: host_progress_def demo_host_def serve_raw_def)

section \<open>Properties\<close>

text \<open>
  C24: one buffer through a queue, on both transports. In the invariant of an output queue, sending puts
  the buffer into the descriptor of the next used index, appends this descriptor to the available
  ring, notifies the host, waits, empties the descriptor, takes note of one used buffer and returns
  the length; on an input queue receiving does the same and returns the length the host reported. No
  access is out of range and no assertion fails.
\<close>

theorem virtq_exchange:
  assumes "host_ok H" "kick = mmio_vq_kick \<or> kick = pci_vq_kick" "len \<noteq> 0"
    and "vq_ok 0 qo w" "vq_ok VIRTQ_DESC_F_WRITE qi w"
  shows "send_vq H (kick H) qo data len w =
      obind (kick H qo (offer qo data len w)) (\<lambda>_ w1. obind (vq_wait H qo w1) (\<lambda>_ w2.
        Ret (sint len) (withdraw qo (vq_old_used_idx (vqs w qo)) w2))) \<and>
    recv_vq H (kick H) qi data len w =
      obind (kick H qi (offer qi data len w)) (\<lambda>_ w1. obind (vq_wait H qi w1) (\<lambda>_ w2.
        Ret (uint (used_len qi (vq_old_used_idx (vqs w qi)) w2)) (withdraw qi (vq_old_used_idx (vqs w qi)) w2))) \<and>
    no_fault (send_vq H (kick H) qo data len w) \<and> no_fault (recv_vq H (kick H) qi data len w)"
proof -
  have t: "transport kick" using assms(2) mmio.transport_axioms pci.transport_axioms by auto
  note e = transport.send_vq_exchange [OF t assms(1,4,3)] transport.recv_vq_exchange [OF t assms(1,5,3)]
  have "no_fault (obind (kick H q (offer q data len w)) (\<lambda>_ w1. obind (vq_wait H q w1) (\<lambda>_ w2. Ret (f w2) (g w2))))"
    if "vq_ok flags q w" for q flags and f :: "_ \<Rightarrow> int" and g
  proof -
    obtain w1 where w1: "kick H q (offer q data len w) = Ret () w1" "guest (offer q data len w) w1"
      by (rule transport.kick_Ret [OF t assms(1)])
    then have "vq_ok flags q w1" using guest_vq(1) vq_ok_offer [OF that] by blast
    from vq_wait_no_fault [OF assms(1) this] w1(1) show ?thesis by (simp add: no_fault_obindI)
  qed
  note nf = this
  show ?thesis unfolding e by (intro conjI refl nf [OF assms(4)] nf [OF assms(5)])
qed

lemma virtq_exchange_witness:
  "no_fault (send_vq demo_host (mmio_vq_kick demo_host) 0x10 0x100 3 (demo_vio_world 0xFFFF)) \<and>
   no_fault (recv_vq demo_host (mmio_vq_kick demo_host) 0x20 0x100 3 (demo_vio_world 0xFFFF))"
  by (rule virtq_exchange [THEN conjunct2, THEN conjunct2]) (simp_all add: demo_host_ok demo_vio_ok)

text \<open>
  C25: the invariant of a queue. Sending and receiving keep the sizes and flags of a queue and leave
  every buffer taken back; the used index advances by one modulo two to the sixteen, also across the
  wrap-around, and the slots stay inside of the rings.
\<close>

theorem virtq_invariant:
  assumes "host_ok H" "kick = mmio_vq_kick \<or> kick = pci_vq_kick"
    and "vq_ok 0 qo w" "idle qo w" "vq_ok VIRTQ_DESC_F_WRITE qi w" "idle qi w"
  shows "on_ret (\<lambda>n w'. n = sint len \<and> vq_ok 0 qo w' \<and> idle qo w' \<and>
      vq_old_used_idx (vqs w' qo) = vq_old_used_idx (vqs w qo) + (if len = 0 then 0 else 1))
    (send_vq H (kick H) qo data len w) \<and>
    on_ret (\<lambda>n w'. 0 \<le> n \<and> vq_ok VIRTQ_DESC_F_WRITE qi w' \<and> idle qi w' \<and>
      vq_old_used_idx (vqs w' qi) = vq_old_used_idx (vqs w qi) + (if len = 0 then 0 else 1))
    (recv_vq H (kick H) qi data len w)"
proof -
  have t: "transport kick" using assms(2) mmio.transport_axioms pci.transport_axioms by auto
  show ?thesis
    using transport.send_vq_invariant [OF t assms(1,3,4)] transport.recv_vq_invariant [OF t assms(1,5,6)] by blast
qed

lemma virtq_invariant_witness:
  "\<exists>w'. send_vq demo_host (mmio_vq_kick demo_host) 0x10 0x100 3 (demo_vio_world 0xFFFF) = Ret 3 w' \<and>
     idle 0x10 w' \<and> vq_old_used_idx (vqs w' 0x10) = 0"
proof -
  let ?w = "demo_vio_world 0xFFFF"
  have "returns (\<lambda>_ _. True) (send_vq demo_host (mmio_vq_kick demo_host) 0x10 0x100 3 ?w)"
    by (rule mmio.vq_returns(1) [OF demo_host_ok demo_host_progress])
       (simp_all add: demo_host_def demo_vio_ok)
  then obtain n w' where s: "send_vq demo_host (mmio_vq_kick demo_host) 0x10 0x100 3 ?w = Ret n w'"
    by (auto simp: returns_iff)
  have "vq_old_used_idx (vqs ?w 0x10) = 0xFFFF" by (simp add: demo_vio_world_def)
  with s virtq_invariant [of demo_host mmio_vq_kick "0x10" ?w "0x20" 3 "0x100"] demo_host_ok demo_vio_ok [of "0xFFFF"]
  show ?thesis by auto
qed

text \<open>
  An exchange ends. If the host makes progress on a queue while a buffer is outstanding, in a measure
  that is within the iterations granted to the waiting loop, sending and receiving on it return.
\<close>

theorem virtq_returns:
  assumes "host_ok H" "kick = mmio_vq_kick \<or> kick = pci_vq_kick"
    and "vq_ok 0 qo w" "idle qo w" "vq_ok VIRTQ_DESC_F_WRITE qi w" "idle qi w"
    and "\<And>e. \<mu> e \<le> host_fuel H" "host_progress H \<mu> (vq_raw (vqs w qo))" "host_progress H \<mu> (vq_raw (vqs w qi))"
  shows "returns (\<lambda>_ _. True) (send_vq H (kick H) qo data len w) \<and>
    returns (\<lambda>_ _. True) (recv_vq H (kick H) qi data len w)"
proof -
  have t: "transport kick" using assms(2) mmio.transport_axioms pci.transport_axioms by auto
  show ?thesis
    using transport.vq_returns(1) [OF t assms(1,8,7,4,3)] transport.vq_returns(2) [OF t assms(1,9,7,6,5)] by blast
qed

lemma virtq_returns_witness:
  "returns (\<lambda>_ _. True) (send_vq demo_host (pci_vq_kick demo_host) 0x10 0x100 3 (demo_vio_world 7)) \<and>
   returns (\<lambda>_ _. True) (recv_vq demo_host (pci_vq_kick demo_host) 0x20 0x100 3 (demo_vio_world 7))"
  by (rule virtq_returns [OF demo_host_ok _ demo_vio_ok _ demo_host_progress demo_host_progress])
     (simp_all add: demo_host_def)

text \<open>
  Attaching a queue on the MMIO transport tells the host the page of the raw queue: for an aligned
  queue below 2 to the 44 the page number identifies the address.
\<close>

lemma mmio_attach_page:
  assumes "raw AND 0xfff = 0" "raw < 2 ^ 44"
  shows "push_bit 12 (ucast (ucast (drop_bit 12 raw) :: u32) :: u64) = raw"
proof -
  have low: "take_bit 12 raw = 0" using assms(1) by (simp add: take_bit_eq_mask mask_eq_exp_minus_1)
  have "uint (take_bit 44 raw) = uint raw"
    using assms(2) by (simp add: unsigned_take_bit_eq take_bit_int_eq_self_iff word_less_def)
  then have "take_bit 44 raw = raw" by (simp only: word_uint_eq_iff)
  with low have bits: "12 \<le> i \<and> i < 44" if "bit raw i" for i
    using that bit_take_bit_iff [of 12 raw i] bit_take_bit_iff [of 44 raw i] by auto
  show ?thesis
    by (intro bit_word_eqI)
       (use bits in \<open>force simp: bit_push_bit_iff bit_ucast_iff bit_drop_bit_eq\<close>)
qed

text \<open>
  The features that are written are not those that were asked for when bits 16 to 31 matter: the low
  word is masked with sixteen bits instead of thirty-two.
\<close>

lemma mmio_set_features_writes:
  "\<exists>w'. mmio_set_features H vio features w = Ret () w' \<and> vw_io w' = vw_io w @
     [Io_write 32 (vio + 0x24) 0, Io_write 32 (vio + 0x20) (take_bit 16 features),
      Io_write 32 (vio + 0x24) 1, Io_write 32 (vio + 0x20) (drop_bit 32 features)]"
proof -
  have "features AND 0xFFFF = take_bit 16 features" by (simp add: take_bit_eq_mask mask_eq_exp_minus_1)
  then have "(ucast (ucast (features AND 0xFFFF) :: u32) :: u64) = take_bit 16 features"
    by (intro bit_word_eqI) (auto simp: bit_ucast_iff bit_take_bit_iff)
  moreover have "(ucast (ucast (drop_bit 32 features) :: u32) :: u64) = drop_bit 32 features"
    by (intro bit_word_eqI) (auto simp: bit_ucast_iff bit_drop_bit_eq dest: bit_imp_le_length)
  ultimately show ?thesis by (simp add: mmio_set_features_def io_write_32_def io_write_def)
qed

end
