(* ===== verification/Virtio_Device.thy ===== *)
theory Virtio_Device
  imports Virtio_Transport
begin

text \<open>
  The device interface that the console driver is written against, \<open>include/virtio-device.h\<close> and the
  transport functions of \<open>include/virtio.h\<close>: one record of operations, of which the MMIO and the PCI
  transport are instances (one of them is linked), and the locale \<open>device\<close> with the laws that its
  clients rely on. \<open>host_run\<close> is the relation between the states before and after accesses to the
  device: whatever the host keeps, every operation of a transport keeps.
\<close>

section \<open>Operations\<close>

record ('e, 'z) vio_ops =
  vo_kick :: "u64 \<Rightarrow> ('e, 'z) vio_world_scheme \<Rightarrow> (unit, 'e, 'z) vio"
  vo_attach :: "u64 \<Rightarrow> u16 \<Rightarrow> ('e, 'z) vio_world_scheme \<Rightarrow> (unit, 'e, 'z) vio"
  vo_set_features :: "u64 \<Rightarrow> u64 \<Rightarrow> ('e, 'z) vio_world_scheme \<Rightarrow> (unit, 'e, 'z) vio"
  vo_get_features :: "u64 \<Rightarrow> ('e, 'z) vio_world_scheme \<Rightarrow> (u64, 'e, 'z) vio"
  vo_or_status :: "u64 \<Rightarrow> u32 \<Rightarrow> ('e, 'z) vio_world_scheme \<Rightarrow> (unit, 'e, 'z) vio"
  vo_get_status :: "u64 \<Rightarrow> ('e, 'z) vio_world_scheme \<Rightarrow> (u32, 'e, 'z) vio"
  vo_reset_device :: "u64 \<Rightarrow> ('e, 'z) vio_world_scheme \<Rightarrow> (unit, 'e, 'z) vio"
  vo_set_guest_page_size :: "u64 \<Rightarrow> u32 \<Rightarrow> ('e, 'z) vio_world_scheme \<Rightarrow> (unit, 'e, 'z) vio"
  vo_probe_console :: "('e, 'z) vio_world_scheme \<Rightarrow> (u64, 'e, 'z) vio"

definition mmio_ops :: "'e host \<Rightarrow> ('e, 'z) vio_ops" where
  "mmio_ops H =
     \<lparr>vo_kick = mmio_vq_kick H, vo_attach = mmio_vq_attach H, vo_set_features = mmio_set_features H,
      vo_get_features = mmio_get_features H, vo_or_status = mmio_or_status H,
      vo_get_status = mmio_get_status H, vo_reset_device = mmio_reset_device H,
      vo_set_guest_page_size = mmio_set_guest_page_size H, vo_probe_console = mmio_probe_console H\<rparr>"

definition pci_ops ::
  "(string \<Rightarrow> ('e, 'z) vio_world_scheme \<Rightarrow> (unit, 'e, 'z) vio) \<Rightarrow> u8 \<times> u8 \<times> u64 \<Rightarrow> 'e host \<Rightarrow> ('e, 'z) vio_ops"
where
  "pci_ops log_msg junk H =
     \<lparr>vo_kick = pci_vq_kick H, vo_attach = pci_vq_attach H, vo_set_features = pci_set_features H,
      vo_get_features = pci_get_features H, vo_or_status = pci_or_status H,
      vo_get_status = pci_get_status H, vo_reset_device = pci_reset_device H,
      vo_set_guest_page_size = pci_set_guest_page_size H, vo_probe_console = pci_probe_console H log_msg junk\<rparr>"

section \<open>Runs of the host\<close>

inductive host_run :: "'e host \<Rightarrow> ('e, 'z) vio_world_scheme \<Rightarrow> ('e, 'z) vio_world_scheme \<Rightarrow> bool" for H w where
  idle: "host_run H w w"
| polled: "host_run H w w1 \<Longrightarrow> host_run H w (set_host (host_poll H (host_of w1)) w1)"
| wrote: "host_run H w w1 \<Longrightarrow> host_run H w (set_host (reg_write H n a v (host_of w1)) (w1\<lparr>vw_io := io\<rparr>))"
| got: "host_run H w w1 \<Longrightarrow> host_run H w (set_host (snd (reg_read H n a (host_of w1))) (w1\<lparr>vw_io := io\<rparr>))"
| bar: "host_run H w w1 \<Longrightarrow> host_run H w (w1\<lparr>notify_base := b\<rparr>)"
| mult: "host_run H w w1 \<Longrightarrow> host_run H w (w1\<lparr>notify_multiplier := m\<rparr>)"

lemma host_run_trans: "host_run H w2 w3 \<Longrightarrow> host_run H w1 w2 \<Longrightarrow> host_run H w1 w3"
  by (induction rule: host_run.induct) (auto intro: host_run.intros)

lemma transp_host_run [simp]: "transp (host_run H)"
  by (rule transpI) (rule host_run_trans)

lemma set_host_more [simp]: "vio_world.more (set_host s w) = vio_world.more w"
  by (simp add: set_host_def split: prod.splits)

lemma host_run_own: "host_run H w w' \<Longrightarrow> vqs w' = vqs w \<and> vio_world.more w' = vio_world.more w"
  by (induction rule: host_run.induct) simp_all

lemma host_run_guest: "host_run H w w' \<Longrightarrow> host_ok H \<Longrightarrow> guest w w'"
proof (induction rule: host_run.induct)
  case (polled w1)
  then have "guest w1 (set_host (host_poll H (host_of w1)) w1)" by (simp add: guest_def host_okD)
  with polled show ?case by (blast intro: guest_trans)
next
  case (wrote w1 n a v io)
  then have "guest w1 (set_host (reg_write H n a v (host_of w1)) (w1\<lparr>vw_io := io\<rparr>))"
    by (simp add: guest_def host_okD)
  with wrote show ?case by (blast intro: guest_trans)
next
  case (got w1 n a io)
  then have "guest w1 (set_host (snd (reg_read H n a (host_of w1))) (w1\<lparr>vw_io := io\<rparr>))"
    by (simp add: guest_def host_okD)
  with got show ?case by (blast intro: guest_trans)
qed (simp_all add: guest_def)

text \<open>\<open>host_keeps H D\<close>: no action of the host breaks the condition \<open>D\<close> on the data buffers.\<close>

definition host_keeps :: "'e host \<Rightarrow> (data_mem \<Rightarrow> bool) \<Rightarrow> bool" where
  "host_keeps H D \<longleftrightarrow> (\<forall>e r d. D d \<longrightarrow> D (snd (snd (host_poll H (e, r, d)))) \<and>
     (\<forall>n a v. D (snd (snd (reg_write H n a v (e, r, d)))) \<and> D (snd (snd (snd (reg_read H n a (e, r, d)))))))"

lemma host_run_data: "host_run H w w' \<Longrightarrow> host_keeps H D \<Longrightarrow> D (dmem w) \<Longrightarrow> D (dmem w')"
  by (induction rule: host_run.induct) (simp_all add: host_keeps_def)

lemma io_write_run: "returns (\<lambda>_. host_run H w) (io_write n H a v w)"
  unfolding io_write_def using host_run.wrote [OF host_run.idle] by simp

lemma io_read_run: "returns (\<lambda>_. host_run H w) (io_read n H a w)"
  unfolding io_read_def using host_run.got [OF host_run.idle, of H w n a] by (simp add: Let_def split_def)

lemma run_bind:
  assumes "returns (\<lambda>_. host_run H w) m" "\<And>a w'. returns (\<lambda>_. host_run H w') (f a w')"
  shows "returns (\<lambda>_. host_run H w) (obind m f)"
proof (cases m)
  case (Ret a w')
  with assms(1) have "host_run H w w'" by simp
  with assms(2) [of w' a] Ret show ?thesis by (auto elim!: returns_mono intro: host_run_trans)
qed (use assms(1) in simp_all)

lemma run_Ret: "returns (\<lambda>_. host_run H w) (Ret a w)"
  by (simp add: host_run.idle)

named_theorems io_defs \<open>register accesses at a fixed width\<close>

lemmas [io_defs] = io_write_8_def io_write_16_def io_write_32_def io_write_64_def
  io_read_8_def io_read_16_def io_read_32_def

text \<open>A run that may also abort or not end: what the probing loops satisfy.\<close>

lemma partial_run_bind:
  assumes "on_ret (\<lambda>_. host_run H w) m" "\<And>a w'. on_ret (\<lambda>_. host_run H w') (f a w')"
  shows "on_ret (\<lambda>_. host_run H w) (obind m f)"
  using assms(1) by (auto intro!: on_retI simp: obind_eq_Ret dest!: on_retD [OF assms(2)] intro: host_run_trans)

lemma partial_run: "returns (\<lambda>_. host_run H w) m \<Longrightarrow> on_ret (\<lambda>_. host_run H w) m"
  by (cases m) simp_all

section \<open>The interface\<close>

text \<open>
  The laws: every operation runs the host and returns; attaching a queue moreover stores the queue's
  number; a probe that finds a device has only run the host.
\<close>

locale device =
  fixes T :: "'e host \<Rightarrow> ('e, 'z) vio_ops"
  assumes kick_run: "returns (\<lambda>_. host_run H w) (vo_kick (T H) q w)"
    and attach_run: "returns (\<lambda>_. host_run H (set_queue_id q idx w)) (vo_attach (T H) q idx w)"
    and set_features_run: "returns (\<lambda>_. host_run H w) (vo_set_features (T H) vio f w)"
    and get_features_run: "returns (\<lambda>_. host_run H w) (vo_get_features (T H) vio w)"
    and or_status_run: "returns (\<lambda>_. host_run H w) (vo_or_status (T H) vio s w)"
    and get_status_run: "returns (\<lambda>_. host_run H w) (vo_get_status (T H) vio w)"
    and reset_run: "returns (\<lambda>_. host_run H w) (vo_reset_device (T H) vio w)"
    and page_size_run: "returns (\<lambda>_. host_run H w) (vo_set_guest_page_size (T H) vio sz w)"
    and probe_run: "on_ret (\<lambda>r w'. r \<noteq> 0 \<longrightarrow> host_run H w w') (vo_probe_console (T H) w)"
begin

lemma kick_keeps_guest: "host_ok H \<Longrightarrow> returns (\<lambda>_ w'. guest w w') (vo_kick (T H) q w)"
  using kick_run by (rule returns_mono) (rule host_run_guest)

end

sublocale device \<subseteq> transport "\<lambda>H. vo_kick (T H)"
  by unfold_locales (rule kick_keeps_guest)

lemma mmio_probe_run: "on_ret (\<lambda>_. host_run H w) (mmio_probe_loop n H cfg w)"
proof (induction n arbitrary: cfg w)
  case 0
  show ?case
    by (subst mmio_probe_loop.simps)
       (auto simp: io_defs simp del: on_ret_obind intro!: partial_run_bind partial_run [OF io_read_run] host_run.idle)
next
  case (Suc n)
  then show ?case
    by (subst mmio_probe_loop.simps)
       (auto simp: io_defs simp del: on_ret_obind intro!: partial_run_bind partial_run [OF io_read_run] host_run.idle)
qed

interpretation mmio_device: device mmio_ops
  by unfold_locales
     (auto simp: mmio_ops_def io_defs mmio_vq_kick_def mmio_vq_attach_def mmio_set_features_def mmio_get_features_def
       mmio_or_status_def mmio_get_status_def mmio_reset_device_def mmio_set_guest_page_size_def Let_def mmio_probe_console_def
       simp del: returns_obind on_ret_obind
       intro!: run_bind io_write_run io_read_run run_Ret on_ret_mono [OF mmio_probe_run])

text \<open>On the PCI transport nothing is logged before a device is found.\<close>

lemma pci_scan_run: "on_ret (\<lambda>_. host_run H w) (pci_scan_loop n H base_addr w)"
  by (induction n arbitrary: base_addr w)
     (auto simp: io_defs simp del: on_ret_obind intro!: partial_run_bind partial_run [OF io_read_run] host_run.idle)

lemma io_read_mult: "on_ret (\<lambda>_. host_run H w) (io_read n H a (w\<lparr>notify_multiplier := m\<rparr>))"
  using io_read_run [of H "w\<lparr>notify_multiplier := m\<rparr>" n a]
  by (auto simp: returns_iff intro: host_run_trans [OF _ host_run.mult [OF host_run.idle]])

lemma pci_cap_run: "on_ret (\<lambda>_. host_run H w) (pci_cap_loop n H base_addr off (cb, nb, cfg) w)"
proof (induction n arbitrary: off cb nb cfg w)
  case 0
  show ?case
    by (subst pci_cap_loop.simps)
       (auto simp: io_defs Let_def simp del: on_ret_obind
         intro!: partial_run_bind partial_run [OF io_read_run] io_read_mult host_run.idle host_run.bar)
next
  case (Suc n)
  then show ?case
    by (subst pci_cap_loop.simps)
       (auto simp: io_defs Let_def simp del: on_ret_obind
         intro!: partial_run_bind partial_run [OF io_read_run] io_read_mult host_run.idle host_run.bar)
qed

lemma found_bind:
  assumes "on_ret (\<lambda>_. host_run H w) m" "\<And>a w'. on_ret (\<lambda>r w''. r \<noteq> 0 \<longrightarrow> host_run H w' w'') (f a w')"
  shows "on_ret (\<lambda>r w'. r \<noteq> 0 \<longrightarrow> host_run H w w') (obind m f)"
  using assms(1) by (auto intro!: on_retI simp: obind_eq_Ret dest!: on_retD [OF assms(2)] intro: host_run_trans)

lemma not_found: "on_ret (\<lambda>r w'. r \<noteq> 0 \<longrightarrow> Q w') (obind m (\<lambda>_ w. Ret 0 w))"
  by (cases m) simp_all

lemma pci_probe_run:
  "on_ret (\<lambda>r w'. r \<noteq> 0 \<longrightarrow> host_run H w w') (pci_probe_console H log_msg junk w)"
  unfolding pci_probe_console_def
  by (cases junk)
     (auto simp: io_defs simp del: on_ret_obind
       intro!: found_bind partial_run [OF io_read_run] partial_run [OF io_write_run] pci_scan_run pci_cap_run
         not_found host_run.idle)

interpretation pci_device: device "pci_ops log_msg junk"
  by unfold_locales
     (auto simp: pci_ops_def io_defs pci_vq_kick_def pci_vq_attach_def pci_set_features_def pci_get_features_def
       pci_or_status_def pci_get_status_def pci_reset_device_def pci_set_guest_page_size_def Let_def
       simp del: returns_obind on_ret_obind
       intro!: run_bind io_write_run io_read_run run_Ret host_run.idle pci_probe_run)

section \<open>Safe outcomes\<close>

text \<open>
  \<open>ends l Q m\<close>: \<open>m\<close> neither faults nor aborts, if it returns then \<open>Q\<close> holds, and if \<open>l\<close> then it returns.
  With \<open>l\<close> false this is safety, with \<open>l\<close> true total correctness.
\<close>

definition ends :: "bool \<Rightarrow> ('a \<Rightarrow> 'w \<Rightarrow> bool) \<Rightarrow> ('a, 'w) outcome \<Rightarrow> bool" where
  "ends l Q m = (case m of Ret a w \<Rightarrow> Q a w | NoFuel \<Rightarrow> \<not> l | _ \<Rightarrow> False)"

abbreviation safely :: "('a \<Rightarrow> 'w \<Rightarrow> bool) \<Rightarrow> ('a, 'w) outcome \<Rightarrow> bool" where
  "safely \<equiv> ends False"

lemma ends_simps [simp]:
  "ends l Q (Ret a w) = Q a w" "\<not> ends l Q (Abort w)" "\<not> ends l Q Fault" "ends l Q NoFuel = (\<not> l)"
  by (simp_all add: ends_def)

lemma ends_bind: "ends l Q m \<Longrightarrow> (\<And>a w. Q a w \<Longrightarrow> ends l R (f a w)) \<Longrightarrow> ends l R (obind m f)"
  by (cases m) simp_all

lemma ends_mono: "ends l Q m \<Longrightarrow> (\<And>a w. Q a w \<Longrightarrow> R a w) \<Longrightarrow> ends l R m"
  by (cases m) simp_all

lemma ends_weaken: "ends l Q m \<Longrightarrow> (l' \<Longrightarrow> l) \<Longrightarrow> ends l' Q m"
  by (cases m) auto

lemma ends_on_ret: "ends l Q m \<Longrightarrow> on_ret Q m \<and> no_fault m"
  by (cases m) simp_all

lemma ends_returns: "ends True Q m = returns Q m"
  by (cases m) simp_all

lemma returns_ends: "returns Q m \<Longrightarrow> ends l Q m"
  by (cases m) simp_all

lemma ends_liveI: "safely Q m \<Longrightarrow> (l \<Longrightarrow> returns (\<lambda>_ _. True) m) \<Longrightarrow> ends l Q m"
  by (cases m) auto

lemma vq_ready_run:
  assumes "host_ok H" "vq_ok flags q w"
  shows "ends l (\<lambda>b w'. host_run H w w' \<and> (b \<longleftrightarrow> vu_idx (vr_used (the_raw q w')) \<noteq> vq_old_used_idx (vqs w' q))) (vq_ready H q w)"
proof -
  let ?w = "set_host (host_poll H (host_of w)) w"
  have run: "host_run H w ?w" by (rule host_run.polled [OF host_run.idle])
  then have "vq_ok flags q ?w" using assms by (blast intro: guest_vq(1) host_run_guest)
  with run show ?thesis by (auto simp: vq_ready_def get_raw_def vq_ok_def the_raw_def Let_def)
qed

lemma vq_wait_loop_run:
  assumes "host_ok H" "vq_ok flags q w"
  shows "safely (\<lambda>_ w'. host_run H w w') (vq_wait_loop n H q w)"
  using assms(2)
proof (induction n arbitrary: w)
  case 0
  then show ?case
    by (subst vq_wait_loop.simps) (auto intro!: ends_bind [OF vq_ready_run [OF assms(1)]])
next
  case (Suc n)
  have "safely (\<lambda>_ w''. host_run H w w'') (vq_wait_loop n H q w')" if "host_run H w w'" for w'
    using Suc that host_run_guest [OF that assms(1)]
    by (intro ends_mono [OF Suc.IH]) (auto intro: guest_vq(1) host_run_trans)
  with Suc.prems show ?case
    by (subst vq_wait_loop.simps) (auto intro!: ends_bind [OF vq_ready_run [OF assms(1)]])
qed

lemma vq_wait_run:
  "host_ok H \<Longrightarrow> vq_ok flags q w \<Longrightarrow> safely (\<lambda>_ w'. host_run H w w') (vq_wait H q w)"
  unfolding vq_wait_def by (rule vq_wait_loop_run)

section \<open>Exchanges as runs of the host\<close>

text \<open>A queue is live if the host makes progress on it within the iterations granted to the waiting loop.\<close>

definition vq_live :: "'e host \<Rightarrow> u64 \<Rightarrow> bool" where
  "vq_live H a \<longleftrightarrow> (\<exists>\<mu>. host_progress H \<mu> a \<and> (\<forall>e. \<mu> e \<le> host_fuel H))"

context device begin

lemma exchange_run:
  assumes "host_ok H" "vq_ok flags q w" "l \<Longrightarrow> idle q w \<and> vq_live H (vq_raw (vqs w q))"
  shows "ends l (\<lambda>r w'. \<exists>w2. host_run H (offer q data len w) w2 \<and> vq_ok flags q w2 \<and> r = f w2 \<and> w' = g w2)
    (obind (vo_kick (T H) q (offer q data len w)) (\<lambda>_ w1. obind (vq_wait H q w1) (\<lambda>_ w2. Ret (f w2) (g w2))))"
proof (rule ends_liveI, rule ends_bind [OF returns_ends [OF kick_run]])
  fix w1 assume run: "host_run H (offer q data len w) w1"
  have ok: "vq_ok flags q w'" if "host_run H (offer q data len w) w'" for w'
    using guest_vq(1) [OF host_run_guest [OF that assms(1)]] vq_ok_offer [OF assms(2)] by blast
  show "safely (\<lambda>r w'. \<exists>w2. host_run H (offer q data len w) w2 \<and> vq_ok flags q w2 \<and> r = f w2 \<and> w' = g w2)
      (obind (vq_wait H q w1) (\<lambda>_ w2. Ret (f w2) (g w2)))"
    by (rule ends_bind [OF vq_wait_run [OF assms(1) ok [OF run]]]) (auto intro: host_run_trans [OF _ run] ok)
next
  assume l
  then obtain \<mu> where "host_progress H \<mu> (vq_raw (vqs w q))" "\<And>e. \<mu> e \<le> host_fuel H" "idle q w"
    using assms(3) by (auto simp: vq_live_def)
  from exchange_returns [OF assms(1,2) this(3,1,2), of data len]
  show "returns (\<lambda>_ _. True) (obind (vo_kick (T H) q (offer q data len w)) (\<lambda>_ w1. obind (vq_wait H q w1) (\<lambda>_ w2. Ret (f w2) (g w2))))"
    by auto
qed

lemma send_vq_run:
  assumes "host_ok H" "vq_ok 0 q w" "len \<noteq> 0" "l \<Longrightarrow> idle q w \<and> vq_live H (vq_raw (vqs w q))"
  shows "ends l (\<lambda>n w'. \<exists>w2. host_run H (offer q data len w) w2 \<and> vq_ok 0 q w2 \<and> n = sint len \<and>
      w' = withdraw q (vq_old_used_idx (vqs w q)) w2) (send_vq H (vo_kick (T H)) q data len w)"
  unfolding send_vq_exchange [OF assms(1-3)] using assms(4) by (rule exchange_run [OF assms(1,2)])

lemma recv_vq_run:
  assumes "host_ok H" "vq_ok VIRTQ_DESC_F_WRITE q w" "len \<noteq> 0" "l \<Longrightarrow> idle q w \<and> vq_live H (vq_raw (vqs w q))"
  shows "ends l (\<lambda>n w'. \<exists>w2. host_run H (offer q data len w) w2 \<and> vq_ok VIRTQ_DESC_F_WRITE q w2 \<and>
      n = uint (used_len q (vq_old_used_idx (vqs w q)) w2) \<and> w' = withdraw q (vq_old_used_idx (vqs w q)) w2)
    (recv_vq H (vo_kick (T H)) q data len w)"
  unfolding recv_vq_exchange [OF assms(1-3)] using assms(4) by (rule exchange_run [OF assms(1,2)])

end

text \<open>
  What an exchange on one queue leaves alone: other queues whose raw queue is another object, the data
  buffers except for what the host does, and the program's other variables.
\<close>

definition apart :: "u64 \<Rightarrow> u64 \<Rightarrow> ('e, 'z) vio_world_scheme \<Rightarrow> bool" where
  "apart q p w \<longleftrightarrow> q \<noteq> p \<and> vq_raw (vqs w q) \<noteq> vq_raw (vqs w p)"

lemma exchange_frame:
  assumes "host_ok H" "host_run H (offer q data len w) w2" and w': "w' = withdraw q idx w2"
  shows "vio_world.more w' = vio_world.more w"
    and "apart q p w \<Longrightarrow> vqs w' p = vqs w p \<and>
      map_option (\<lambda>r. (vr_desc r, vr_avail r, length (vu_ring (vr_used r)))) (raws w' (vq_raw (vqs w p))) =
      map_option (\<lambda>r. (vr_desc r, vr_avail r, length (vu_ring (vr_used r)))) (raws w (vq_raw (vqs w p)))"
    and "host_keeps H D \<Longrightarrow> D (dmem w) \<Longrightarrow> D (dmem w')"
    and "vq_raw (vqs w' q) = vq_raw (vqs w q)"
proof -
  have off: "vqs (offer q data len w) = vqs w" "dmem (offer q data len w) = dmem w"
    "vio_world.more (offer q data len w) = vio_world.more w"
    by (simp_all add: offer_def put_raw_def Let_def)
  note own = host_run_own [OF assms(2)] host_run_guest [OF assms(2,1)]
  show "vio_world.more w' = vio_world.more w"
    using own off by (simp add: w' withdraw_def put_raw_def Let_def)
  show "vq_raw (vqs w' q) = vq_raw (vqs w q)"
    using own off by (simp add: w' withdraw_def put_raw_def Let_def)
  show "D (dmem w')" if "host_keeps H D" "D (dmem w)"
    using host_run_data [OF assms(2) that(1)] that(2) off by (simp add: w' withdraw_def put_raw_def Let_def)
  show "vqs w' p = vqs w p \<and>
      map_option (\<lambda>r. (vr_desc r, vr_avail r, length (vu_ring (vr_used r)))) (raws w' (vq_raw (vqs w p))) =
      map_option (\<lambda>r. (vr_desc r, vr_avail r, length (vu_ring (vr_used r)))) (raws w (vq_raw (vqs w p)))"
    if "apart q p w"
    using own off that
    by (auto simp: w' withdraw_def put_raw_def Let_def apart_def guest_def polite_def offer_def)
qed

section \<open>Initialising a queue\<close>

definition raw_size :: "virtq_raw \<Rightarrow> bool" where
  "raw_size r \<longleftrightarrow> length (vr_desc r) = 32 \<and> length (va_ring (vr_avail r)) = 32 \<and> length (vu_ring (vr_used r)) = 32"

text \<open>A raw queue as \<open>vq_init\<close> leaves it.\<close>

definition with_flags :: "u16 \<Rightarrow> virtq_raw \<Rightarrow> virtq_raw" where
  "with_flags flags r = r\<lparr>vr_desc := map (\<lambda>d. d\<lparr>vd_flags := flags\<rparr>) (vr_desc r)\<rparr>"

lemma raw_ok_with_flags [simp]: "raw_size r \<Longrightarrow> raw_ok flags (with_flags flags r)"
  by (simp add: raw_size_def raw_ok_def with_flags_def list_all_iff)

lemma with_flags_simps [simp]: "vr_avail (with_flags flags r) = vr_avail r" "vr_used (with_flags flags r) = vr_used r"
  by (simp_all add: with_flags_def)

lemma vq_init_loop_ok:
  assumes "raws w (vq_raw (vqs w q)) = Some r" "i + n = length (vr_desc r)"
  shows "vq_init_loop n q flags i w = Ret () (put_raw q
    (r\<lparr>vr_desc := take i (vr_desc r) @ map (\<lambda>d. d\<lparr>vd_flags := flags\<rparr>) (drop i (vr_desc r))\<rparr>) w)"
  using assms
proof (induction n arbitrary: i r w)
  case 0
  then have "put_raw q r w = w" by (simp add: put_raw_def map_upd_triv)
  with 0 show ?case by simp
next
  case (Suc n)
  let ?d = "(vr_desc r)[i := (vr_desc r ! i)\<lparr>vd_flags := flags\<rparr>]"
  let ?w = "put_raw q (r\<lparr>vr_desc := ?d\<rparr>) w"
  have i: "i < length (vr_desc r)" using Suc.prems(2) by simp
  have "vq_init_loop n q flags (Suc i) ?w = Ret () (put_raw q
      (r\<lparr>vr_desc := take (Suc i) ?d @ map (\<lambda>d. d\<lparr>vd_flags := flags\<rparr>) (drop (Suc i) ?d)\<rparr>) ?w)"
    using Suc.IH [of ?w "r\<lparr>vr_desc := ?d\<rparr>" "Suc i"] Suc.prems by simp
  moreover have "take (Suc i) ?d @ map (\<lambda>d. d\<lparr>vd_flags := flags\<rparr>) (drop (Suc i) ?d) =
      take i (vr_desc r) @ map (\<lambda>d. d\<lparr>vd_flags := flags\<rparr>) (drop i (vr_desc r))"
    using i by (simp add: take_Suc_conv_app_nth Cons_nth_drop_Suc [symmetric])
  ultimately show ?case using Suc.prems i by (simp add: get_raw_def)
qed

definition after_init :: "u64 \<Rightarrow> u64 \<Rightarrow> u64 \<Rightarrow> u16 \<Rightarrow> virtq_raw \<Rightarrow> ('e, 'z) vio_world_scheme \<Rightarrow> ('e, 'z) vio_world_scheme" where
  "after_init q raw vio flags r w =
     w\<lparr>vqs := (vqs w)(q := (vqs w q)\<lparr>vq_raw := raw, vq_num_bufs := 32, vq_vio := vio\<rparr>),
       raws := (raws w)(raw \<mapsto> with_flags flags r)\<rparr>"

lemma vq_init_ok:
  assumes "raws w raw = Some r" "raw_size r"
  shows "vq_init q raw vio b w = Ret () (after_init q raw vio (if b then VIRTQ_DESC_F_WRITE else 0) r w)"
proof -
  let ?flags = "if b then VIRTQ_DESC_F_WRITE else 0"
  let ?w = "w\<lparr>vqs := (vqs w)(q := (vqs w q)\<lparr>vq_raw := raw, vq_num_bufs := of_nat VQ_SIZE\<rparr>)\<rparr>"
  have "vq_init_loop (unat (vq_num_bufs (vqs ?w q))) q ?flags 0 ?w = Ret () (put_raw q (with_flags ?flags r) ?w)"
    using assms by (subst vq_init_loop_ok [of _ _ r]) (simp_all add: VQ_SIZE_def raw_size_def with_flags_def)
  then show ?thesis
    by (simp add: vq_init_def after_init_def put_raw_def VQ_SIZE_def Let_def)
qed

lemma after_init_ok:
  assumes "raw_size r"
  shows "vq_ok flags q (after_init q raw vio flags r w)"
    and "va_idx (vr_avail r) = vq_old_used_idx (vqs w q) \<Longrightarrow> idle q (after_init q raw vio flags r w)"
    and "the_raw q (after_init q raw vio flags r w) = with_flags flags r"
    and "vio_world.more (after_init q raw vio flags r w) = vio_world.more w"
    and "dmem (after_init q raw vio flags r w) = dmem w"
  using assms by (simp_all add: after_init_def vq_ok_def idle_def the_raw_def)

end
