(* ===== verification/Virtio_Console.thy ===== *)
theory Virtio_Console
  imports Virtio_Device
begin

text \<open>
  The virtual console of the test runner, \<open>test-runner/virtio-console.c\<close> with
  \<open>include/virtio-console.h\<close>: the control queue, on which 32 buffers are always available to the host,
  the protocol on it that adds, removes and names the ports, and the connection of a pair of queues to
  a port. Static objects have fixed addresses here; local messages too, as they live at the same time.
\<close>

section \<open>Data (virtio-console.h)\<close>

definition MAX_PORTS :: nat where "MAX_PORTS = 16"
definition MAX_PORT_NAME_SIZE :: nat where "MAX_PORT_NAME_SIZE = 64"
definition VIRTIO_CONSOLE_CTRL_RX :: u16 where "VIRTIO_CONSOLE_CTRL_RX = 2"
definition VIRTIO_CONSOLE_CTRL_TX :: u16 where "VIRTIO_CONSOLE_CTRL_TX = 3"
definition VIRTIO_CONSOLE_RX_OFFSET :: u16 where "VIRTIO_CONSOLE_RX_OFFSET = 0"
definition VIRTIO_CONSOLE_TX_OFFSET :: u16 where "VIRTIO_CONSOLE_TX_OFFSET = 1"
definition VIRTIO_CONSOLE_F_MULTIPORT :: u32 where "VIRTIO_CONSOLE_F_MULTIPORT = push_bit 1 1"
definition DESIRED_FEATURES :: u64 where "DESIRED_FEATURES = ucast VIRTIO_CONSOLE_F_MULTIPORT"

definition VIRTIO_CONSOLE_DEVICE_READY :: u16 where "VIRTIO_CONSOLE_DEVICE_READY = 0"
definition VIRTIO_CONSOLE_DEVICE_ADD :: u16 where "VIRTIO_CONSOLE_DEVICE_ADD = 1"
definition VIRTIO_CONSOLE_DEVICE_REMOVE :: u16 where "VIRTIO_CONSOLE_DEVICE_REMOVE = 2"
definition VIRTIO_CONSOLE_PORT_READY :: u16 where "VIRTIO_CONSOLE_PORT_READY = 3"
definition VIRTIO_CONSOLE_PORT_OPEN :: u16 where "VIRTIO_CONSOLE_PORT_OPEN = 6"
definition VIRTIO_CONSOLE_PORT_NAME :: u16 where "VIRTIO_CONSOLE_PORT_NAME = 7"

definition VIRTIO_STATUS_ACKNOWLEDGE :: u32 where "VIRTIO_STATUS_ACKNOWLEDGE = 1"
definition VIRTIO_STATUS_DRIVER :: u32 where "VIRTIO_STATUS_DRIVER = 2"
definition VIRTIO_STATUS_DRIVER_OK :: u32 where "VIRTIO_STATUS_DRIVER_OK = 4"
definition VIRTIO_STATUS_FEATURES_OK :: u32 where "VIRTIO_STATUS_FEATURES_OK = 8"

record port =
  host_connected :: bool
  guest_connected :: bool
  port_name :: bytes

record console_control =
  cc_id :: u32
  cc_event :: u16
  cc_value :: u16

record 'e con_world = "'e vio_world" +
  con_vio :: u64
  con_ports :: "port list"

type_synonym ('a, 'e, 'z) con = "('a, ('e, 'z) con_world_scheme) outcome"
type_synonym ('e, 'z) con_ops = "('e, 'z con_world_ext) vio_ops"

definition bytes_of_console_control :: "console_control \<Rightarrow> bytes" where
  "bytes_of_console_control m = le32 (cc_id m) @ le16 (cc_event m) @ le16 (cc_value m)"

definition console_control_of_bytes :: "bytes \<Rightarrow> console_control" where
  "console_control_of_bytes bs =
     \<lparr>cc_id = le_word (get_bytes 0 4 bs), cc_event = le_word (get_bytes 4 2 bs), cc_value = le_word (get_bytes 6 2 bs)\<rparr>"

abbreviation SIZEOF_console_control :: nat where "SIZEOF_console_control \<equiv> 8"

definition CMSG_IN_MAX :: u64 where
  "CMSG_IN_MAX = of_nat SIZEOF_console_control + of_nat MAX_PORT_NAME_SIZE"

text \<open>The addresses of the static objects of the file, of its local messages, and of the console.\<close>

abbreviation cmd_input :: u64 where "cmd_input \<equiv> 0x50000100"
abbreviation cmd_output :: u64 where "cmd_output \<equiv> 0x50000200"
abbreviation cmd_input_raw :: u64 where "cmd_input_raw \<equiv> 0x50010000"
abbreviation cmd_output_raw :: u64 where "cmd_output_raw \<equiv> 0x50020000"
abbreviation console_addr :: u64 where "console_addr \<equiv> 0x50000300"
abbreviation dev_ready_addr :: u64 where "dev_ready_addr \<equiv> 0x58000010"
abbreviation connect_msg_addr :: u64 where "connect_msg_addr \<equiv> 0x58000020"
abbreviation msg_send_addr :: u64 where "msg_send_addr \<equiv> 0x58000030"

definition cmsg_buf :: "u64 \<Rightarrow> u64" where
  "cmsg_buf idx = 0x50030000 + CMSG_IN_MAX * idx"

section \<open>The control queue (virtio-console.c)\<close>

definition send_control_msg ::
  "'e host \<Rightarrow> ('e, 'z) con_ops \<Rightarrow> u64 \<Rightarrow> console_control \<Rightarrow> ('e, 'z) con_world_scheme \<Rightarrow> (unit, 'e, 'z) con"
where
  "send_control_msg H T a msg w =
     (let w = w\<lparr>dmem := (dmem w)(a \<mapsto> bytes_of_console_control msg)\<rparr> in
      obind (send_vq H (vo_kick T) cmd_output a (of_nat SIZEOF_console_control) w) (\<lambda>_ w. Ret () w))"

definition vq_quick_ready ::
  "'e host \<Rightarrow> ('e, 'z) con_ops \<Rightarrow> u64 \<Rightarrow> ('e, 'z) con_world_scheme \<Rightarrow> (bool, 'e, 'z) con"
where
  "vq_quick_ready H T q w =
     obind (vq_ready H q w) (\<lambda>ready w.
     obind (if \<not> ready then vo_kick T q w else Ret () w) (\<lambda>_ w.
     vq_ready H q w))"

text \<open>The message with its size and index, \<open>None\<close> for \<open>NULL\<close>.\<close>

definition get_control_msg ::
  "'e host \<Rightarrow> ('e, 'z) con_ops \<Rightarrow> ('e, 'z) con_world_scheme \<Rightarrow> ((u64 \<times> u64 \<times> u64) option, 'e, 'z) con"
where
  "get_control_msg H T w =
     obind (vq_slot cmd_input (vq_old_used_idx (vqs w cmd_input)) w) (\<lambda>idx w.
     obind (vq_quick_ready H T cmd_input w) (\<lambda>ready w.
     if \<not> ready then Ret None w else
     obind (vq_adv cmd_input w) (\<lambda>n w. Ret (Some (cmsg_buf idx, ucast n, idx)) w)))"

definition release_control_msg :: "u64 \<Rightarrow> ('e, 'z) con_world_scheme \<Rightarrow> (unit, 'e, 'z) con" where
  "release_control_msg idx w =
     obind (vq_set_buf_w cmd_input (ucast idx) (cmsg_buf idx) CMSG_IN_MAX w) (\<lambda>_ w.
     vq_make_avail cmd_input (ucast idx) w)"

fun control_setup_loop :: "nat \<Rightarrow> u32 \<Rightarrow> ('e, 'z) con_world_scheme \<Rightarrow> (unit, 'e, 'z) con" where
  "control_setup_loop 0 idx w = Ret () w"
| "control_setup_loop (Suc n) idx w =
     obind (vq_set_buf_w cmd_input (ucast idx) (cmsg_buf (ucast idx)) CMSG_IN_MAX w) (\<lambda>_ w.
     obind (vq_make_avail cmd_input (ucast idx) w) (\<lambda>_ w.
     control_setup_loop n (idx + 1) w))"

definition control_setup ::
  "'e host \<Rightarrow> ('e, 'z) con_ops \<Rightarrow> u64 \<Rightarrow> ('e, 'z) con_world_scheme \<Rightarrow> (unit, 'e, 'z) con"
where
  "control_setup H T vio w =
     obind (vq_init cmd_input cmd_input_raw vio True w) (\<lambda>_ w.
     obind (vq_init cmd_output cmd_output_raw vio False w) (\<lambda>_ w.
     obind (vo_attach T cmd_input VIRTIO_CONSOLE_CTRL_RX w) (\<lambda>_ w.
     obind (vo_attach T cmd_output VIRTIO_CONSOLE_CTRL_TX w) (\<lambda>_ w.
     control_setup_loop (unat (vq_num_bufs (vqs w cmd_input))) 0 w))))"

section \<open>Ports\<close>

text \<open>An update of a port; an index beyond the array is a \<open>Fault\<close>.\<close>

definition upd_port :: "nat \<Rightarrow> (port \<Rightarrow> port) \<Rightarrow> ('e, 'z) con_world_scheme \<Rightarrow> (unit, 'e, 'z) con" where
  "upd_port i f w =
     (if length (con_ports w) \<le> i then Fault
      else Ret () (w\<lparr>con_ports := (con_ports w)[i := f (con_ports w ! i)]\<rparr>))"

definition port_open ::
  "'e host \<Rightarrow> ('e, 'z) con_ops \<Rightarrow> u64 \<Rightarrow> ('e, 'z) con_world_scheme \<Rightarrow> (unit, 'e, 'z) con"
where
  "port_open H T port_id w =
     obind (send_control_msg H T connect_msg_addr
         \<lparr>cc_id = ucast port_id, cc_event = VIRTIO_CONSOLE_PORT_OPEN, cc_value = 1\<rparr> w) (\<lambda>_ w.
     upd_port (unat port_id) (guest_connected_update (\<lambda>_. True)) w)"

definition virtio_console_q :: "u64 \<Rightarrow> u16" where
  "virtio_console_q port_id = ucast (port_id * 2 + (if 1 \<le> port_id then 2 else 0))"

definition virtio_console_connect_port ::
  "'e host \<Rightarrow> ('e, 'z) con_ops \<Rightarrow> u64 \<Rightarrow> u64 \<Rightarrow> u64 \<Rightarrow> ('e, 'z) con_world_scheme \<Rightarrow> (unit, 'e, 'z) con"
where
  "virtio_console_connect_port H T port_id vq_in vq_out w =
     obind (vo_attach T vq_in (virtio_console_q port_id + VIRTIO_CONSOLE_RX_OFFSET) w) (\<lambda>_ w.
     obind (vo_attach T vq_out (virtio_console_q port_id + VIRTIO_CONSOLE_TX_OFFSET) w) (\<lambda>_ w.
     port_open H T port_id w))"

definition port_ready ::
  "'e host \<Rightarrow> ('e, 'z) con_ops \<Rightarrow> u64 \<Rightarrow> ('e, 'z) con_world_scheme \<Rightarrow> (unit, 'e, 'z) con"
where
  "port_ready H T port_id w =
     (if length (con_ports w) \<le> unat port_id then Fault
      else if \<not> host_connected (con_ports w ! unat port_id) then Abort w
      else send_control_msg H T msg_send_addr
        \<lparr>cc_id = ucast port_id, cc_event = VIRTIO_CONSOLE_PORT_READY, cc_value = 1\<rparr> w)"

text \<open>Reading \<open>n\<close> bytes at an offset of a data buffer, and the fields of a message there.\<close>

definition read_buf_at :: "u64 \<Rightarrow> nat \<Rightarrow> nat \<Rightarrow> ('e, 'z) con_world_scheme \<Rightarrow> (bytes, 'e, 'z) con" where
  "read_buf_at a off n w =
     (case dmem w a of None \<Rightarrow> Fault | Some b \<Rightarrow> if length b < off + n then Fault else Ret (get_bytes off n b) w)"

definition msg_id :: "u64 \<Rightarrow> ('e, 'z) con_world_scheme \<Rightarrow> (u32, 'e, 'z) con" where
  "msg_id msg w = obind (read_buf_at msg 0 4 w) (\<lambda>b w. Ret (le_word b) w)"

definition msg_event :: "u64 \<Rightarrow> ('e, 'z) con_world_scheme \<Rightarrow> (u16, 'e, 'z) con" where
  "msg_event msg w = obind (read_buf_at msg 4 2 w) (\<lambda>b w. Ret (le_word b) w)"

definition handle_control_msg ::
  "'e host \<Rightarrow> ('e, 'z) con_ops \<Rightarrow> u64 \<times> u64 \<times> u64 \<Rightarrow> ('e, 'z) con_world_scheme \<Rightarrow> (unit, 'e, 'z) con"
where
  "handle_control_msg H T m w =
     (case m of (msg, buf_size, msg_idx) \<Rightarrow>
      obind (msg_event msg w) (\<lambda>event w.
      if event = VIRTIO_CONSOLE_DEVICE_ADD then
        obind (msg_id msg w) (\<lambda>id w.
        obind (upd_port (unat id) (host_connected_update (\<lambda>_. True)) w) (\<lambda>_ w.
        obind (msg_id msg w) (\<lambda>id w.
        obind (upd_port (unat id) (port_name_update (\<lambda>nm. nm[0 := 0])) w) (\<lambda>_ w.
        obind (release_control_msg msg_idx w) (\<lambda>_ w.
        obind (msg_id msg w) (\<lambda>id w.
        port_ready H T (ucast id) w))))))
      else if event = VIRTIO_CONSOLE_DEVICE_REMOVE then
        obind (msg_id msg w) (\<lambda>id w.
        obind (upd_port (unat id) (host_connected_update (\<lambda>_. False)) w) (\<lambda>_ w.
        release_control_msg msg_idx w))
      else if event = VIRTIO_CONSOLE_PORT_NAME then
        (let buf_size = min buf_size (of_nat (MAX_PORT_NAME_SIZE - 1)) in
        obind (msg_id msg w) (\<lambda>id w.
        obind (read_buf_at msg SIZEOF_console_control (unat buf_size) w) (\<lambda>nm w.
        obind (upd_port (unat id) (port_name_update (put_bytes 0 nm)) w) (\<lambda>_ w.
        obind (msg_id msg w) (\<lambda>id w.
        obind (upd_port (unat id) (port_name_update (\<lambda>nm. nm[unat buf_size := 0])) w) (\<lambda>_ w.
        release_control_msg msg_idx w))))))
      else release_control_msg msg_idx w))"

fun control_scan_loop ::
  "nat \<Rightarrow> 'e host \<Rightarrow> ('e, 'z) con_ops \<Rightarrow> ('e, 'z) con_world_scheme \<Rightarrow> (unit, 'e, 'z) con"
where
  "control_scan_loop n H T w =
     obind (get_control_msg H T w) (\<lambda>m w.
     case m of None \<Rightarrow> Ret () w
     | Some m \<Rightarrow> obind (handle_control_msg H T m w) (\<lambda>_ w.
         case n of 0 \<Rightarrow> NoFuel | Suc n' \<Rightarrow> control_scan_loop n' H T w))"

definition reset_port :: "port \<Rightarrow> port" where
  "reset_port p = p\<lparr>host_connected := False, guest_connected := False, port_name := (port_name p)[0 := 0]\<rparr>"

definition control_scan ::
  "'e host \<Rightarrow> ('e, 'z) con_ops \<Rightarrow> ('e, 'z) con_world_scheme \<Rightarrow> (unit, 'e, 'z) con"
where
  "control_scan H T w =
     (let w = w\<lparr>con_ports := map reset_port (con_ports w)\<rparr> in
      obind (send_control_msg H T dev_ready_addr
          \<lparr>cc_id = 0, cc_event = VIRTIO_CONSOLE_DEVICE_READY, cc_value = 1\<rparr> w) (\<lambda>_ w.
      control_scan_loop (host_fuel H) H T w))"

text \<open>\<open>assert\<close> of a condition.\<close>

definition c_assert :: "bool \<Rightarrow> 'w \<Rightarrow> (unit, 'w) outcome" where
  "c_assert b w = (if b then Ret () w else Abort w)"

definition init_virtio_console ::
  "'e host \<Rightarrow> ('e, 'z) con_ops \<Rightarrow> ('e, 'z) con_world_scheme \<Rightarrow> (u64, 'e, 'z) con"
where
  "init_virtio_console H T w =
     obind (vo_probe_console T w) (\<lambda>console_vio w.
     if console_vio = 0 then Ret 0 w else
     obind (vo_reset_device T console_vio w) (\<lambda>_ w.
     obind (vo_or_status T console_vio VIRTIO_STATUS_ACKNOWLEDGE w) (\<lambda>_ w.
     obind (vo_or_status T console_vio VIRTIO_STATUS_DRIVER w) (\<lambda>_ w.
     obind (vo_get_features T console_vio w) (\<lambda>features w.
     obind (c_assert (features AND DESIRED_FEATURES = DESIRED_FEATURES) w) (\<lambda>_ w.
     obind (vo_set_features T console_vio DESIRED_FEATURES w) (\<lambda>_ w.
     obind (vo_or_status T console_vio VIRTIO_STATUS_FEATURES_OK w) (\<lambda>_ w.
     obind (vo_get_status T console_vio w) (\<lambda>status w.
     obind (c_assert (status AND VIRTIO_STATUS_FEATURES_OK \<noteq> 0) w) (\<lambda>_ w.
     obind (vo_set_guest_page_size T console_vio 4096 w) (\<lambda>_ w.
     obind (control_setup H T console_vio w) (\<lambda>_ w.
     let w = w\<lparr>con_vio := console_vio\<rparr> in
     obind (vo_or_status T console_vio VIRTIO_STATUS_DRIVER_OK w) (\<lambda>_ w.
     obind (control_scan H T w) (\<lambda>_ w.
     Ret console_addr w))))))))))))))"

declare control_scan_loop.simps [simp del]

section \<open>The invariant\<close>

text \<open>
  \<open>cmd_in n k w\<close>: the first \<open>n\<close> slots of the control input queue hold their buffers of \<open>cmsg_buf\<close>, and
  \<open>k\<close> of its buffers are with the host. \<open>cmd_out\<close>: the control output queue is idle. \<open>rows_ok\<close>: the
  buffers have their size, and the messages in them name existing ports. \<open>port_ok\<close>: the name of a
  port is a string that ends within its array.
\<close>

definition cmd_in :: "nat \<Rightarrow> u16 \<Rightarrow> ('e, 'z) vio_world_scheme \<Rightarrow> bool" where
  "cmd_in n k w \<longleftrightarrow> vq_ok VIRTQ_DESC_F_WRITE cmd_input w \<and> vq_raw (vqs w cmd_input) = cmd_input_raw \<and>
     va_idx (vr_avail (the_raw cmd_input w)) = vq_old_used_idx (vqs w cmd_input) + k \<and>
     (\<forall>i<n. va_ring (vr_avail (the_raw cmd_input w)) ! i = of_nat i \<and>
        vd_addr (vr_desc (the_raw cmd_input w) ! i) = cmsg_buf (of_nat i) \<and>
        vd_len (vr_desc (the_raw cmd_input w) ! i) = ucast CMSG_IN_MAX)"

definition cmd_out :: "('e, 'z) vio_world_scheme \<Rightarrow> bool" where
  "cmd_out w \<longleftrightarrow> vq_ok 0 cmd_output w \<and> idle cmd_output w \<and> vq_raw (vqs w cmd_output) = cmd_output_raw"

definition row_ok :: "bytes \<Rightarrow> bool" where
  "row_ok b \<longleftrightarrow> length b = 72 \<and> (le_word (get_bytes 0 4 b) :: u32) < 16"

definition rows_ok :: "data_mem \<Rightarrow> bool" where
  "rows_ok d \<longleftrightarrow> (\<forall>i<32. \<exists>b. d (cmsg_buf (of_nat i)) = Some b \<and> row_ok b)"

definition port_ok :: "port \<Rightarrow> bool" where
  "port_ok p \<longleftrightarrow> length (port_name p) = MAX_PORT_NAME_SIZE \<and> 0 \<in> set (port_name p)"

definition ports_ok :: "port list \<Rightarrow> bool" where
  "ports_ok ps \<longleftrightarrow> length ps = MAX_PORTS \<and> list_all port_ok ps"

definition con_ok :: "('e, 'z) con_world_scheme \<Rightarrow> bool" where
  "con_ok w \<longleftrightarrow> cmd_in 32 32 w \<and> cmd_out w \<and> rows_ok (dmem w) \<and> ports_ok (con_ports w)"

abbreviation shape :: "virtq_raw \<Rightarrow> virtq_desc list \<times> virtq_avail \<times> nat" where
  "shape r \<equiv> (vr_desc r, vr_avail r, length (vu_ring (vr_used r)))"

lemma vq_ok_cong:
  assumes "vqs w' q = vqs w q" "map_option shape (raws w' (vq_raw (vqs w q))) = map_option shape (raws w (vq_raw (vqs w q)))"
  shows "vq_ok flags q w' = vq_ok flags q w" "idle q w' = idle q w"
    and "vq_ok flags q w \<Longrightarrow> vr_desc (the_raw q w') = vr_desc (the_raw q w) \<and> vr_avail (the_raw q w') = vr_avail (the_raw q w)"
  using assms
  by (cases "raws w (vq_raw (vqs w q))"; cases "raws w' (vq_raw (vqs w q))";
      force simp: vq_ok_def idle_def raw_ok_def the_raw_def)+

lemma cmd_in_cong:
  assumes "vqs w' cmd_input = vqs w cmd_input"
    and "map_option shape (raws w' (vq_raw (vqs w cmd_input))) = map_option shape (raws w (vq_raw (vqs w cmd_input)))"
  shows "cmd_in n k w \<Longrightarrow> cmd_in n k w'"
  using vq_ok_cong [OF assms] assms(1) by (auto simp: cmd_in_def)

lemma cmd_out_cong:
  assumes "vqs w' cmd_output = vqs w cmd_output"
    and "map_option shape (raws w' (vq_raw (vqs w cmd_output))) = map_option shape (raws w (vq_raw (vqs w cmd_output)))"
  shows "cmd_out w \<Longrightarrow> cmd_out w'"
  using vq_ok_cong [OF assms] assms(1) by (auto simp: cmd_out_def)

lemma con_ports_more: "vio_world.more w' = vio_world.more w \<Longrightarrow> con_ports w' = con_ports w \<and> con_vio w' = con_vio w"
  by (cases w; cases w') simp

text \<open>
  How many messages there can still be: the unread ones in the control input queue, and the ones the
  host has yet to deliver, in a measure of the host's state. \<open>host_delivers H \<mu>\<close>: a message only gets into
  the queue at the expense of the measure. \<open>budget H \<beta> w\<close>: there are at most \<open>\<beta> \<mu>\<close> messages.
\<close>

definition unread :: "u16 \<Rightarrow> raw_mem \<Rightarrow> nat" where
  "unread x m = (case m cmd_input_raw of None \<Rightarrow> 0 | Some r \<Rightarrow> unat (vu_idx (vr_used r) - x))"

definition host_delivers :: "'e host \<Rightarrow> ('e \<Rightarrow> nat) \<Rightarrow> bool" where
  "host_delivers H \<mu> \<longleftrightarrow> (\<forall>e m d x.
     \<mu> (fst (host_poll H (e, m, d))) + unread x (fst (snd (host_poll H (e, m, d)))) \<le> \<mu> e + unread x m \<and>
     (\<forall>n a v. \<mu> (fst (reg_write H n a v (e, m, d))) + unread x (fst (snd (reg_write H n a v (e, m, d)))) \<le> \<mu> e + unread x m) \<and>
     (\<forall>n a. \<mu> (fst (snd (reg_read H n a (e, m, d)))) + unread x (fst (snd (snd (reg_read H n a (e, m, d))))) \<le> \<mu> e + unread x m))"

definition backlog :: "('e \<Rightarrow> nat) \<Rightarrow> ('e, 'z) vio_world_scheme \<Rightarrow> nat" where
  "backlog \<mu> w = \<mu> (vw_host w) + unread (vq_old_used_idx (vqs w cmd_input)) (raws w)"

definition budget :: "'e host \<Rightarrow> (('e \<Rightarrow> nat) \<Rightarrow> nat) \<Rightarrow> ('e, 'z) vio_world_scheme \<Rightarrow> bool" where
  "budget H \<beta> w \<longleftrightarrow> (\<forall>\<mu>. host_delivers H \<mu> \<longrightarrow> backlog \<mu> w \<le> \<beta> \<mu>)"

abbreviation used_at :: "u64 \<Rightarrow> raw_mem \<Rightarrow> u16 option" where
  "used_at a m \<equiv> map_option (\<lambda>r. vu_idx (vr_used r)) (m a)"

lemma budget_cong:
  assumes "vw_host w' = vw_host w" "vq_old_used_idx (vqs w' cmd_input) = vq_old_used_idx (vqs w cmd_input)"
    and "used_at cmd_input_raw (raws w') = used_at cmd_input_raw (raws w)"
  shows "budget H \<beta> w \<Longrightarrow> budget H \<beta> w'"
  using assms
  by (cases "raws w cmd_input_raw"; cases "raws w' cmd_input_raw") (simp_all add: budget_def backlog_def unread_def)

lemma budget_run: "host_run H w w' \<Longrightarrow> budget H \<beta> w \<Longrightarrow> budget H \<beta> w'"
proof (induction rule: host_run.induct)
  case (polled w1)
  then show ?case by (fastforce simp: budget_def backlog_def host_delivers_def intro: order_trans)
next
  case (wrote w1 n a v io)
  then show ?case by (fastforce simp: budget_def backlog_def host_delivers_def intro: order_trans)
next
  case (got w1 n a io)
  then show ?case by (fastforce simp: budget_def backlog_def host_delivers_def intro: order_trans)
qed (simp_all add: budget_def backlog_def)

lemma budget_exchange:
  assumes "budget H \<beta> w" "host_run H (offer cmd_output data len w) w2" "vq_raw (vqs w cmd_output) = cmd_output_raw"
  shows "budget H \<beta> (withdraw cmd_output idx w2)"
proof -
  have "budget H \<beta> (offer cmd_output data len w)"
    using assms(1,3) by (elim budget_cong [rotated 3]) (simp_all add: offer_def put_raw_def Let_def)
  then have "budget H \<beta> w2" by (rule budget_run [OF assms(2)])
  moreover have "vq_raw (vqs w2 cmd_output) = cmd_output_raw"
    using host_run_own [OF assms(2)] assms(3) by (simp add: offer_def Let_def)
  ultimately show ?thesis
    by (elim budget_cong [rotated 3]) (simp_all add: withdraw_def put_raw_def Let_def)
qed

text \<open>
  \<open>con_state H \<beta> n k ps w\<close>: the queues and the buffers are in order, the ports are \<open>ps\<close>, and the budget holds. \<open>con_host\<close> is
  what is expected of the host.
\<close>

definition con_state :: "'e host \<Rightarrow> (('e \<Rightarrow> nat) \<Rightarrow> nat) \<Rightarrow> nat \<Rightarrow> u16 \<Rightarrow> port list \<Rightarrow> ('e, 'z) con_world_scheme \<Rightarrow> bool" where
  "con_state H \<beta> n k ps w \<longleftrightarrow> cmd_in n k w \<and> cmd_out w \<and> rows_ok (dmem w) \<and> con_ports w = ps \<and> budget H \<beta> w"

definition con_host :: "'e host \<Rightarrow> bool" where
  "con_host H \<longleftrightarrow> host_ok H \<and> host_keeps H rows_ok"

lemma con_ok_state: "con_ok w \<longleftrightarrow> con_state H (\<lambda>\<mu>. backlog \<mu> w) 32 32 (con_ports w) w \<and> ports_ok (con_ports w)"
  by (simp add: con_ok_def con_state_def budget_def)

lemma con_state_run:
  assumes "con_state H \<beta> n k ps w" "host_run H w w'" "con_host H"
  shows "con_state H \<beta> n k ps w'"
proof -
  have g: "guest w w'" using assms(2,3) by (simp add: con_host_def host_run_guest)
  then have "cmd_in n k w'" "cmd_out w'"
    using assms(1) by (auto simp: con_state_def guest_def polite_def intro: cmd_in_cong [of w' w] cmd_out_cong [of w' w])
  moreover have "rows_ok (dmem w')"
    using host_run_data [OF assms(2), of rows_ok] assms(1,3) by (simp add: con_state_def con_host_def)
  moreover have "con_ports w' = con_ports w"
    using host_run_own [OF assms(2)] con_ports_more by blast
  moreover have "budget H \<beta> w'" using assms(1) by (simp add: con_state_def budget_run [OF assms(2)])
  ultimately show ?thesis using assms(1) by (simp add: con_state_def)
qed

lemma cmsg_buf_less: "i < 32 \<Longrightarrow> cmsg_buf (of_nat i) < 0x58000000"
proof -
  assume "i < 32"
  have "cmsg_buf (of_nat i) = of_nat (0x50030000 + 72 * i)"
    by (simp add: cmsg_buf_def CMSG_IN_MAX_def MAX_PORT_NAME_SIZE_def)
  also have "\<dots> < 0x58000000" using \<open>i < 32\<close>
    by (simp only: word_less_nat_alt unat_of_nat) (auto intro: le_less_trans [OF mod_less_eq_dividend])
  finally show ?thesis .
qed

lemma rows_ok_local: "rows_ok d \<Longrightarrow> 0x58000000 \<le> a \<Longrightarrow> rows_ok (d(a \<mapsto> b))"
  using cmsg_buf_less by (fastforce simp: rows_ok_def)

locale console_device = device T for T :: "'e host \<Rightarrow> ('e, 'z) con_ops"
begin

lemma send_control_msg_ok:
  assumes "con_host H" "con_state H \<beta> n k ps w" "0x58000000 \<le> a"
  shows "ends (vq_live H cmd_output_raw) (\<lambda>_ w'. con_state H \<beta> n k ps w' \<and> con_vio w' = con_vio w \<and>
      vq_old_used_idx (vqs w' cmd_input) = vq_old_used_idx (vqs w cmd_input)) (send_control_msg H (T H) a msg w)"
proof -
  let ?w = "w\<lparr>dmem := (dmem w)(a \<mapsto> bytes_of_console_control msg)\<rparr>"
  have H: "host_ok H" "host_keeps H rows_ok" using assms(1) by (simp_all add: con_host_def)
  have s: "con_state H \<beta> n k ps ?w"
    using assms(2) rows_ok_local [OF _ assms(3)]
    by (auto simp: con_state_def intro: cmd_in_cong [of ?w w] cmd_out_cong [of ?w w] budget_cong [of ?w w])
  then have out: "vq_ok 0 cmd_output ?w" "idle cmd_output ?w" "apart cmd_output cmd_input ?w"
    by (simp_all add: con_state_def cmd_out_def cmd_in_def apart_def)
  have live: "idle cmd_output ?w \<and> vq_live H (vq_raw (vqs ?w cmd_output))" if "vq_live H cmd_output_raw"
    using that s by (simp add: con_state_def cmd_out_def)
  have fin: "con_state H \<beta> n k ps (withdraw cmd_output (vq_old_used_idx (vqs ?w cmd_output)) w2) \<and>
      con_vio (withdraw cmd_output (vq_old_used_idx (vqs ?w cmd_output)) w2) = con_vio w \<and>
      vqs (withdraw cmd_output (vq_old_used_idx (vqs ?w cmd_output)) w2) cmd_input = vqs w cmd_input"
    if run: "host_run H (offer cmd_output a 8 ?w) w2" "vq_ok 0 cmd_output w2" for w2
  proof -
    note frame = exchange_frame [OF H(1) run(1) refl]
    note own = frame(2) [OF out(3), THEN conjunct1] frame(2) [OF out(3), THEN conjunct2]
    have "cmd_in n k (withdraw cmd_output (vq_old_used_idx (vqs ?w cmd_output)) w2)"
      by (rule cmd_in_cong [OF own]) (use s in \<open>simp only: con_state_def\<close>)
    moreover have "cmd_out (withdraw cmd_output (vq_old_used_idx (vqs ?w cmd_output)) w2)"
      unfolding cmd_out_def frame(4)
      by (intro conjI vq_ok_withdraw [OF run(2)] idle_exchange [OF out(1,2) host_run_guest [OF run(1) H(1)]])
         (use s in \<open>simp only: con_state_def cmd_out_def\<close>)
    moreover have "rows_ok (dmem (withdraw cmd_output (vq_old_used_idx (vqs ?w cmd_output)) w2))"
      by (rule frame(3) [OF H(2)]) (use s in \<open>simp only: con_state_def\<close>)
    moreover have "con_ports ?w = ps" "con_vio ?w = con_vio w" "vqs ?w = vqs w"
      using s by (simp_all add: con_state_def)
    moreover have "budget H \<beta> (withdraw cmd_output (vq_old_used_idx (vqs ?w cmd_output)) w2)"
      by (rule budget_exchange [OF _ run(1)]) (use s in \<open>simp_all only: con_state_def cmd_out_def\<close>)
    ultimately show ?thesis
      using con_ports_more [OF frame(1)] own(1) by (simp only: con_state_def)
  qed
  show ?thesis
    unfolding send_control_msg_def Let_def of_nat_numeral
  proof (rule ends_bind [OF send_vq_run [OF H(1) out(1) _ live]])
    fix n' w'
    assume "\<exists>w2. host_run H (offer cmd_output a 8 ?w) w2 \<and> vq_ok 0 cmd_output w2 \<and> n' = sint (8 :: u64) \<and>
      w' = withdraw cmd_output (vq_old_used_idx (vqs ?w cmd_output)) w2"
    then obtain w2 where "host_run H (offer cmd_output a 8 ?w) w2" "vq_ok 0 cmd_output w2"
      and w': "w' = withdraw cmd_output (vq_old_used_idx (vqs ?w cmd_output)) w2" by blast
    from fin [OF this(1,2)] show "ends (vq_live H cmd_output_raw) (\<lambda>_ w'. con_state H \<beta> n k ps w' \<and> con_vio w' = con_vio w \<and>
        vq_old_used_idx (vqs w' cmd_input) = vq_old_used_idx (vqs w cmd_input)) (Ret () w')"
      unfolding w' ends_simps by (elim conjE) (intro conjI, assumption, assumption, rule arg_cong)
  qed simp
qed

end

text \<open>
  \<open>borrowed i w\<close>: the guest holds the buffer of slot \<open>i\<close>, which is the slot that is made available next.
\<close>

definition borrowed :: "nat \<Rightarrow> ('e, 'z) vio_world_scheme \<Rightarrow> bool" where
  "borrowed i w \<longleftrightarrow> i < 32 \<and> slot_of (vq_old_used_idx (vqs w cmd_input) + 31) = i"

lemma slot_of_add_32: "slot_of (x + 32) = slot_of x"
proof -
  have "unat (x + 32) = (unat x + 32) mod 2 ^ 16" by (simp add: unat_word_ariths)
  then show ?thesis by (simp add: slot_of_def mod_mod_cancel)
qed

lemma take_back:
  assumes "con_state H \<beta> 32 32 ps w" "vu_idx (vr_used (the_raw cmd_input w)) \<noteq> vq_old_used_idx (vqs w cmd_input)"
  defines "w' \<equiv> w\<lparr>vqs := (vqs w)(cmd_input := (vqs w cmd_input)\<lparr>vq_old_used_idx := vq_old_used_idx (vqs w cmd_input) + 1\<rparr>)\<rparr>"
  shows "con_state H (\<lambda>\<mu>. \<beta> \<mu> - 1) 32 31 ps w'" "borrowed (slot_of (vq_old_used_idx (vqs w cmd_input))) w'" "con_vio w' = con_vio w"
    and "host_delivers H \<mu> \<Longrightarrow> 0 < \<beta> \<mu>"
proof -
  from assms(1) obtain r where r: "raws w cmd_input_raw = Some r" "the_raw cmd_input w = r"
    by (auto simp: con_state_def cmd_in_def elim: vq_okE)
  let ?x = "vu_idx (vr_used r) - vq_old_used_idx (vqs w cmd_input)"
  have x: "?x \<noteq> 0" using assms(2) r by simp
  have "unat (?x - 1) = unat ?x - 1" by (rule unat_minus_one [OF x])
  moreover have "0 < unat ?x" using x by (simp only: unat_gt_0 not_False_eq_True)
  moreover have "vu_idx (vr_used r) - (vq_old_used_idx (vqs w cmd_input) + 1) = ?x - 1" by simp
  ultimately have "backlog \<nu> w' = backlog \<nu> w - 1 \<and> 0 < backlog \<nu> w" for \<nu>
    using r by (simp add: backlog_def unread_def w'_def diff_diff_add [symmetric])
  moreover have "budget H \<beta> w" using assms(1) by (simp add: con_state_def)
  ultimately have b: "budget H (\<lambda>\<mu>. \<beta> \<mu> - 1) w'" and "host_delivers H \<mu> \<Longrightarrow> 0 < \<beta> \<mu>"
    by (auto simp: budget_def intro: diff_le_mono less_le_trans)
  then show "host_delivers H \<mu> \<Longrightarrow> 0 < \<beta> \<mu>" by blast
  have "the_raw cmd_input w' = the_raw cmd_input w" "raws w' = raws w" by (simp_all add: w'_def the_raw_def)
  with b show "con_state H (\<lambda>\<mu>. \<beta> \<mu> - 1) 32 31 ps w'"
    using assms(1) by (auto simp: con_state_def cmd_in_def cmd_out_def vq_ok_def idle_def w'_def)
  show "borrowed (slot_of (vq_old_used_idx (vqs w cmd_input))) w'"
    using slot_of_add_32 [of "vq_old_used_idx (vqs w cmd_input)"] by (simp add: borrowed_def w'_def add.assoc)
  show "con_vio w' = con_vio w" by (simp add: w'_def)
qed

lemma put_row:
  assumes "cmd_in n k w" "slot_of (vq_old_used_idx (vqs w cmd_input) + k) = i" "i < 32" "n = 32 \<or> n = i"
  defines "w' \<equiv> put_raw cmd_input (append_avail i (set_slot i (cmsg_buf (of_nat i)) (ucast CMSG_IN_MAX) (the_raw cmd_input w))) w"
  shows "cmd_in (max n (Suc i)) (k + 1) w'" "vqs w' = vqs w"
proof -
  from assms(1) obtain r where r: "the_raw cmd_input w = r" "raw_ok VIRTQ_DESC_F_WRITE r" "vq_num_bufs (vqs w cmd_input) = 32"
    unfolding cmd_in_def by (auto elim: vq_okE)
  then have len: "length (vr_desc r) = 32" "length (va_ring (vr_avail r)) = 32" by (simp_all add: raw_ok_def)
  show "vqs w' = vqs w" by (simp add: w'_def)
  have j: "j < n" if "j < max n (Suc i)" "j \<noteq> i" for j using that assms(3,4) by auto
  have "max n (Suc i) \<le> 32" using assms(3,4) by auto
  have ok: "vq_ok VIRTQ_DESC_F_WRITE cmd_input w'" using r assms(3) by (simp add: w'_def)
  show "cmd_in (max n (Suc i)) (k + 1) w'"
    unfolding cmd_in_def
    using assms(1-3) r len j \<open>max n (Suc i) \<le> 32\<close>
    by (intro conjI ok) (auto simp: cmd_in_def w'_def append_avail_def set_slot_def Let_def nth_list_update add.assoc)
qed

lemma set_and_offer:
  assumes "vq_ok VIRTQ_DESC_F_WRITE cmd_input w" "i < 32"
  shows "obind (vq_set_buf_w cmd_input (of_nat i) a len w) (\<lambda>_ w. vq_make_avail cmd_input (of_nat i) w) =
    Ret () (put_raw cmd_input (append_avail i (set_slot i a (ucast len) (the_raw cmd_input w))) w)"
proof -
  have i: "unat (of_nat i :: u16) = i" using assms(2) by (simp add: unat_of_nat)
  have "vq_ok VIRTQ_DESC_F_WRITE cmd_input (put_raw cmd_input (set_slot i a (ucast len) (the_raw cmd_input w)) w)"
    using assms by (elim vq_okE) simp
  then show ?thesis
    using vq_set_buf_ok [OF assms(1), of "of_nat i" a len] i assms(2)
    by (simp add: vq_set_buf_w_def vq_make_avail_ok [of _ _ _ "of_nat i"])
qed

lemma budget_put_row:
  assumes "vq_ok flags cmd_input w" "vq_raw (vqs w cmd_input) = cmd_input_raw" "budget H \<beta> w"
  shows "budget H \<beta> (put_raw cmd_input (append_avail i (set_slot i a len (the_raw cmd_input w))) w)"
  using assms(1)
proof (rule vq_okE)
  fix r assume "raws w (vq_raw (vqs w cmd_input)) = Some r" "the_raw cmd_input w = r"
  then show ?thesis
    using assms(2) by (intro budget_cong [OF _ _ _ assms(3)])
      (simp_all add: put_raw_def append_avail_def set_slot_def Let_def)
qed

lemma release_ok:
  assumes "con_state H \<beta> 32 31 ps w" "borrowed i w"
  shows "\<exists>w'. release_control_msg (of_nat i) w = Ret () w' \<and> con_state H \<beta> 32 32 ps w' \<and> con_vio w' = con_vio w \<and> dmem w' = dmem w"
proof -
  let ?w = "put_raw cmd_input (append_avail i (set_slot i (cmsg_buf (of_nat i)) (ucast CMSG_IN_MAX) (the_raw cmd_input w))) w"
  have c: "cmd_in 32 31 w" "i < 32" "vq_ok VIRTQ_DESC_F_WRITE cmd_input w" "vq_raw (vqs w cmd_input) = cmd_input_raw"
    "slot_of (vq_old_used_idx (vqs w cmd_input) + 31) = i"
    using assms by (simp_all add: con_state_def cmd_in_def borrowed_def)
  have u: "(ucast (of_nat i :: u64) :: u16) = of_nat i"
    using c(2) by (simp add: unsigned_of_nat take_bit_nat_eq_self)
  have "release_control_msg (of_nat i) w = Ret () ?w"
    using set_and_offer [OF c(3,2)] by (simp add: release_control_msg_def u)
  moreover have "cmd_in 32 32 ?w" using put_row(1) [OF c(1,5,2)] c(2) by simp
  moreover have "cmd_out ?w"
    using assms(1) by (intro cmd_out_cong [of ?w w]) (simp_all add: con_state_def put_raw_def c(4) cmd_out_def)
  moreover have "con_ports ?w = con_ports w" "con_vio ?w = con_vio w" by (simp_all add: put_raw_def)
  moreover have "budget H \<beta> ?w" using c(3,4) by (rule budget_put_row) (use assms(1) in \<open>simp only: con_state_def\<close>)
  ultimately show ?thesis using assms(1) by (auto simp: con_state_def)
qed

section \<open>Messages as events\<close>

text \<open>
  What a message on the control queue says about the ports, and what follows for them. The name in a
  message of the given size is as many bytes of the buffer as the whole message has, at most 63.
\<close>

datatype port_event = Added nat | Removed nat | Named nat bytes | Ignored

definition event_of :: "bytes \<Rightarrow> u64 \<Rightarrow> port_event" where
  "event_of row sz =
     (let m = console_control_of_bytes row; i = unat (cc_id m) in
      if cc_event m = VIRTIO_CONSOLE_DEVICE_ADD then Added i
      else if cc_event m = VIRTIO_CONSOLE_DEVICE_REMOVE then Removed i
      else if cc_event m = VIRTIO_CONSOLE_PORT_NAME then Named i (get_bytes 8 (min (unat sz) 63) row)
      else Ignored)"

fun apply_event :: "port_event \<Rightarrow> port list \<Rightarrow> port list" where
  "apply_event (Added i) ps = ps[i := (ps ! i)\<lparr>host_connected := True, port_name := (port_name (ps ! i))[0 := 0]\<rparr>]"
| "apply_event (Removed i) ps = ps[i := (ps ! i)\<lparr>host_connected := False\<rparr>]"
| "apply_event (Named i nm) ps = ps[i := (ps ! i)\<lparr>port_name := put_bytes 0 (nm @ [0]) (port_name (ps ! i))\<rparr>]"
| "apply_event Ignored ps = ps"

lemma put_byte: "n < length buf \<Longrightarrow> buf[n := b] = put_bytes n [b] buf"
  by (simp add: put_bytes_def upd_conv_take_nth_drop)

lemma port_ok_first: "port_ok p \<Longrightarrow> port_ok (p\<lparr>host_connected := b, port_name := (port_name p)[0 := 0]\<rparr>)"
  by (cases "port_name p") (auto simp: port_ok_def MAX_PORT_NAME_SIZE_def)

lemma port_ok_named: "port_ok p \<Longrightarrow> length nm < 64 \<Longrightarrow> port_ok (p\<lparr>port_name := put_bytes 0 (nm @ [0]) (port_name p)\<rparr>)"
  by (auto simp: port_ok_def MAX_PORT_NAME_SIZE_def put_bytes_def)

lemma ports_ok_update: "ports_ok ps \<Longrightarrow> (port_ok (ps ! i) \<Longrightarrow> port_ok p) \<Longrightarrow> ports_ok (ps[i := p])"
  by (cases "i < length ps") (auto simp: ports_ok_def list_all_length nth_list_update)

lemma ports_ok_event: "ports_ok ps \<Longrightarrow> ports_ok (apply_event (event_of row sz) ps)"
proof -
  assume ps: "ports_ok ps"
  have len: "length (get_bytes 8 (min (unat sz) 63) row) < 64" by simp
  have "port_ok (ps ! i) \<Longrightarrow> port_ok ((ps ! i)\<lparr>host_connected := b\<rparr>)" for i b by (simp add: port_ok_def)
  with ps len show "ports_ok (apply_event (event_of row sz) ps)"
    by (auto simp: event_of_def Let_def intro!: ports_ok_update port_ok_first port_ok_named)
qed

lemma con_state_ports: "con_state H \<beta> n k ps w \<Longrightarrow> con_state H \<beta> n k ps' (w\<lparr>con_ports := ps'\<rparr>)"
  using cmd_in_cong [of "w\<lparr>con_ports := ps'\<rparr>" w] cmd_out_cong [of "w\<lparr>con_ports := ps'\<rparr>" w]
    budget_cong [of "w\<lparr>con_ports := ps'\<rparr>" w]
  by (simp add: con_state_def)

lemma upd_port_ok:
  "con_state H \<beta> n k ps w \<Longrightarrow> i < length ps \<Longrightarrow> upd_port i f w = Ret () (w\<lparr>con_ports := ps[i := f (ps ! i)]\<rparr>)"
  by (simp add: upd_port_def con_state_def)

lemma con_state_row:
  assumes "con_state H \<beta> n k ps w" "i < 32"
  obtains row where "dmem w (cmsg_buf (of_nat i)) = Some row" "row_ok row"
  using assms by (auto simp: con_state_def rows_ok_def)

lemma read_row:
  assumes "dmem w a = Some row" "row_ok row"
  shows "msg_id a w = Ret (cc_id (console_control_of_bytes row)) w"
    and "msg_event a w = Ret (cc_event (console_control_of_bytes row)) w"
    and "n \<le> 64 \<Longrightarrow> read_buf_at a 8 n w = Ret (get_bytes 8 n row) w"
    and "unat (cc_id (console_control_of_bytes row)) < 16"
  using assms
  by (simp_all add: msg_id_def msg_event_def read_buf_at_def row_ok_def console_control_of_bytes_def word_less_nat_alt)

context console_device begin

lemma quick_ready_ok:
  assumes "con_host H" "con_state H \<beta> 32 32 ps w"
  shows "ends l (\<lambda>b w'. host_run H w w' \<and> (b \<longleftrightarrow> vu_idx (vr_used (the_raw cmd_input w')) \<noteq> vq_old_used_idx (vqs w' cmd_input)))
    (vq_quick_ready H (T H) cmd_input w)"
proof -
  have H: "host_ok H" using assms(1) by (simp add: con_host_def)
  have ready: "ends l (\<lambda>b w''. host_run H w w'' \<and> (b \<longleftrightarrow> vu_idx (vr_used (the_raw cmd_input w'')) \<noteq> vq_old_used_idx (vqs w'' cmd_input)))
      (vq_ready H cmd_input w')" if "host_run H w w'" for w'
  proof -
    have "vq_ok VIRTQ_DESC_F_WRITE cmd_input w'"
      using con_state_run [OF assms(2) that assms(1)] by (simp add: con_state_def cmd_in_def)
    then show ?thesis by (rule ends_mono [OF vq_ready_run [OF H]]) (use that in \<open>auto intro: host_run_trans\<close>)
  qed
  have kick: "ends l (\<lambda>_ w''. host_run H w w'') (if b then vo_kick (T H) cmd_input w' else Ret () w')"
    if "host_run H w w'" for b w'
    using that by (auto intro!: ends_mono [OF returns_ends [OF kick_run]] intro: host_run_trans)
  show ?thesis
    unfolding vq_quick_ready_def
    by (rule ends_bind [OF ready [OF host_run.idle]], elim conjE, rule ends_bind [OF kick], assumption, rule ready)
qed

lemma get_control_msg_ok:
  assumes "con_host H" "con_state H \<beta> 32 32 ps w"
  shows "ends (vq_live H cmd_output_raw) (\<lambda>m w'. con_vio w' = con_vio w \<and> (case m of
      None \<Rightarrow> con_state H \<beta> 32 32 ps w'
    | Some (msg, sz, idx) \<Rightarrow> con_state H (\<lambda>\<mu>. \<beta> \<mu> - 1) 32 31 ps w' \<and> (\<forall>\<mu>. host_delivers H \<mu> \<longrightarrow> 0 < \<beta> \<mu>) \<and>
        (\<exists>i. borrowed i w' \<and> idx = of_nat i \<and> msg = cmsg_buf (of_nat i)))) (get_control_msg H (T H) w)"
proof -
  let ?i = "slot_of (vq_old_used_idx (vqs w cmd_input))"
  have "vq_num_bufs (vqs w cmd_input) = 32" using assms(2) by (simp add: con_state_def cmd_in_def vq_ok_def)
  moreover have "of_nat (unat (ucast (vq_old_used_idx (vqs w cmd_input)) mod 32 :: u64)) =
      (ucast (vq_old_used_idx (vqs w cmd_input)) mod 32 :: u64)" by simp
  then have "(ucast (vq_old_used_idx (vqs w cmd_input)) mod 32 :: u64) = of_nat ?i"
    by (simp only: unat_slot)
  ultimately have slot: "vq_slot cmd_input (vq_old_used_idx (vqs w cmd_input)) w = Ret (of_nat ?i) w"
    by (simp add: vq_slot_def)
  show ?thesis
    unfolding get_control_msg_def slot obind.simps
  proof (rule ends_bind [OF quick_ready_ok [OF assms]])
    fix ready w1
    assume r: "host_run H w w1 \<and> (ready \<longleftrightarrow> vu_idx (vr_used (the_raw cmd_input w1)) \<noteq> vq_old_used_idx (vqs w1 cmd_input))"
    then have run: "host_run H w w1" by blast
    note s = con_state_run [OF assms(2) run assms(1)] and own = host_run_own [OF run]
    have "vq_ok VIRTQ_DESC_F_WRITE cmd_input w1" using s by (simp add: con_state_def cmd_in_def)
    note adv = vq_adv_ok [OF this] and taken = take_back [OF s]
    have vio: "con_vio w1 = con_vio w" using own con_ports_more by blast
    show "ends (vq_live H cmd_output_raw) (\<lambda>m w'. con_vio w' = con_vio w \<and> (case m of
          None \<Rightarrow> con_state H \<beta> 32 32 ps w'
        | Some (msg, sz, idx) \<Rightarrow> con_state H (\<lambda>\<mu>. \<beta> \<mu> - 1) 32 31 ps w' \<and> (\<forall>\<mu>. host_delivers H \<mu> \<longrightarrow> 0 < \<beta> \<mu>) \<and>
            (\<exists>i. borrowed i w' \<and> idx = of_nat i \<and> msg = cmsg_buf (of_nat i))))
        (if \<not> ready then Ret None w1
         else obind (vq_adv cmd_input w1) (\<lambda>n w. Ret (Some (cmsg_buf (of_nat ?i), ucast n, of_nat ?i)) w))"
      using s vio r adv taken own by (cases ready) auto
  qed
qed

end

lemma port_updates:
  "port_name_update (\<lambda>nm. nm[k := b]) p = p\<lparr>port_name := (port_name p)[k := b]\<rparr>"
  "port_name_update (put_bytes off bs) p = p\<lparr>port_name := put_bytes off bs (port_name p)\<rparr>"
  by (cases p, simp)+

lemma release_safe:
  assumes "con_state H \<beta> 32 31 ps w" "borrowed i w"
  shows "ends l (\<lambda>_ w'. con_state H \<beta> 32 32 ps w' \<and> con_vio w' = con_vio w \<and> dmem w' = dmem w) (release_control_msg (of_nat i) w)"
  using release_ok [OF assms] by auto

context console_device begin

lemma port_added:
  assumes H: "con_host H" and s: "con_state H \<beta> 32 31 ps w" and b: "borrowed i w"
    and row: "dmem w (cmsg_buf (of_nat i)) = Some row" "row_ok row" and len: "length ps = 16"
    and ev: "cc_event (console_control_of_bytes row) = VIRTIO_CONSOLE_DEVICE_ADD"
  shows "ends (vq_live H cmd_output_raw) (\<lambda>_ w'. con_state H \<beta> 32 32 (apply_event (event_of row sz) ps) w' \<and> con_vio w' = con_vio w)
    (handle_control_msg H (T H) (cmsg_buf (of_nat i), sz, of_nat i) w)"
proof -
  let ?id = "cc_id (console_control_of_bytes row)" and ?a = "cmsg_buf (of_nat i)"
  let ?p = "(ps ! unat ?id)\<lparr>host_connected := True, port_name := (port_name (ps ! unat ?id))[0 := 0]\<rparr>"
  define ps' where "ps' = ps[unat ?id := ?p]"
  have id: "unat ?id < 16" by (rule read_row(4) [OF row])
  have s1: "con_state H \<beta> 32 31 (ps[unat ?id := (ps ! unat ?id)\<lparr>host_connected := True\<rparr>])
      (w\<lparr>con_ports := ps[unat ?id := (ps ! unat ?id)\<lparr>host_connected := True\<rparr>]\<rparr>)"
    by (rule con_state_ports [OF s])
  have s2: "con_state H \<beta> 32 31 ps' (w\<lparr>con_ports := ps'\<rparr>)" by (rule con_state_ports [OF s])
  have b2: "borrowed i (w\<lparr>con_ports := ps'\<rparr>)" using b by (simp add: borrowed_def)
  have ready: "ends (vq_live H cmd_output_raw) (\<lambda>_ w''. con_state H \<beta> 32 32 ps' w'' \<and> con_vio w'' = con_vio w)
      (obind (msg_id ?a w') (\<lambda>id. port_ready H (T H) (ucast id)))"
    if s': "con_state H \<beta> 32 32 ps' w'" "con_vio w' = con_vio w" "dmem w' = dmem w" for w'
  proof -
    have row': "dmem w' ?a = Some row" using row that by simp
    have "con_ports w' = ps'" "length ps' = 16" "host_connected (ps' ! unat ?id)"
      using s' id len by (simp_all add: con_state_def ps'_def)
    moreover have "unat (ucast ?id :: u64) = unat ?id" by (simp add: unsigned_ucast_eq)
    ultimately show ?thesis
      using id s'(2) send_control_msg_ok [OF H s'(1), of msg_send_addr
          "\<lparr>cc_id = ucast (ucast ?id :: u64), cc_event = VIRTIO_CONSOLE_PORT_READY, cc_value = 1\<rparr>"]
      by (simp add: read_row(1) [OF row' row(2)] port_ready_def) (auto elim!: ends_mono)
  qed
  have "handle_control_msg H (T H) (?a, sz, of_nat i) w =
      obind (release_control_msg (of_nat i) (w\<lparr>con_ports := ps'\<rparr>)) (\<lambda>_ w'.
      obind (msg_id ?a w') (\<lambda>id. port_ready H (T H) (ucast id)))"
    using id len
    by (simp add: handle_control_msg_def read_row [OF row] ev upd_port_ok [OF s] upd_port_ok [OF s1]
      read_row(1) [OF _ row(2)] row ps'_def port_updates)
  moreover have "apply_event (event_of row sz) ps = ps'" by (simp add: event_of_def ev ps'_def Let_def)
  moreover have "ends (vq_live H cmd_output_raw) (\<lambda>_ w''. con_state H \<beta> 32 32 ps' w'' \<and> con_vio w'' = con_vio w)
      (obind (release_control_msg (of_nat i) (w\<lparr>con_ports := ps'\<rparr>)) (\<lambda>_ w'.
      obind (msg_id ?a w') (\<lambda>id. port_ready H (T H) (ucast id))))"
    by (rule ends_bind [OF release_safe [OF s2 b2]]) (elim conjE, rule ready, simp_all)
  ultimately show ?thesis by simp
qed

lemma handle_control_msg_ok:
  assumes "con_host H" and s: "con_state H \<beta> 32 31 ps w" and b: "borrowed i w"
    and row: "dmem w (cmsg_buf (of_nat i)) = Some row" "row_ok row" and ps: "ports_ok ps"
  shows "ends (vq_live H cmd_output_raw) (\<lambda>_ w'. con_state H \<beta> 32 32 (apply_event (event_of row sz) ps) w' \<and> con_vio w' = con_vio w)
    (handle_control_msg H (T H) (cmsg_buf (of_nat i), sz, of_nat i) w)"
proof -
  let ?m = "console_control_of_bytes row"
  have id: "unat (cc_id ?m) < 16" by (rule read_row(4) [OF row])
  have len: "length ps = 16" using ps by (simp add: ports_ok_def MAX_PORTS_def)
  have rel: "ends (vq_live H cmd_output_raw) (\<lambda>_ w'. con_state H \<beta> 32 32 ps' w' \<and> con_vio w' = con_vio w)
      (release_control_msg (of_nat i) (w\<lparr>con_ports := ps'\<rparr>))" for ps'
    using b by (intro ends_mono [OF release_safe [OF con_state_ports [OF s]]]) (simp_all add: borrowed_def)
  have self: "w\<lparr>con_ports := ps\<rparr> = w" using s by (simp add: con_state_def)
  consider (add) "cc_event ?m = VIRTIO_CONSOLE_DEVICE_ADD" | (remove) "cc_event ?m = VIRTIO_CONSOLE_DEVICE_REMOVE"
    | (name) "cc_event ?m = VIRTIO_CONSOLE_PORT_NAME"
    | (other) "cc_event ?m \<noteq> VIRTIO_CONSOLE_DEVICE_ADD" "cc_event ?m \<noteq> VIRTIO_CONSOLE_DEVICE_REMOVE"
        "cc_event ?m \<noteq> VIRTIO_CONSOLE_PORT_NAME" by blast
  then show ?thesis
  proof cases
    case add
    then show ?thesis by (rule port_added [OF assms(1) s b row len])
  next
    case remove
    have "VIRTIO_CONSOLE_DEVICE_REMOVE \<noteq> VIRTIO_CONSOLE_DEVICE_ADD"
      by (simp add: VIRTIO_CONSOLE_DEVICE_REMOVE_def VIRTIO_CONSOLE_DEVICE_ADD_def)
    with remove id len rel show ?thesis
      by (simp add: handle_control_msg_def read_row [OF row] upd_port_ok [OF s] event_of_def Let_def)
  next
    case name
    define n where "n = min sz 63"
    have n: "unat n = min (unat sz) 63" "unat n \<le> 63"
      by (simp_all add: n_def min_def word_le_nat_alt)
    have ne: "VIRTIO_CONSOLE_PORT_NAME \<noteq> VIRTIO_CONSOLE_DEVICE_ADD" "VIRTIO_CONSOLE_PORT_NAME \<noteq> VIRTIO_CONSOLE_DEVICE_REMOVE"
      by (simp_all add: VIRTIO_CONSOLE_DEVICE_REMOVE_def VIRTIO_CONSOLE_DEVICE_ADD_def VIRTIO_CONSOLE_PORT_NAME_def)
    let ?nm = "get_bytes 8 (unat n) row" and ?p = "ps ! unat (cc_id ?m)"
    have l: "length (port_name ?p) = 64"
      using ps id by (auto simp: ports_ok_def port_ok_def list_all_length MAX_PORTS_def MAX_PORT_NAME_SIZE_def)
    have "length row = 72" using row(2) by (simp add: row_ok_def)
    then have nm: "length ?nm = unat n" using n(2) by simp
    then have put: "(put_bytes 0 ?nm (port_name ?p))[unat n := 0] = put_bytes 0 (?nm @ [0]) (port_name ?p)"
      using l n(2) put_bytes_append [of 0 ?nm "[0]" "port_name ?p"] by (simp add: put_byte)
    have "handle_control_msg H (T H) (cmsg_buf (of_nat i), sz, of_nat i) w =
        release_control_msg (of_nat i) (w\<lparr>con_ports := apply_event (event_of row sz) ps\<rparr>)"
      using ne id len put row n
      by (simp add: handle_control_msg_def read_row [OF row] read_row(1) [OF _ row(2)] name upd_port_ok [OF s] event_of_def Let_def
        MAX_PORT_NAME_SIZE_def port_updates upd_port_ok [OF con_state_ports [OF s]] flip: n_def)
    with rel show ?thesis by simp
  next
    case other
    with rel [of ps] self show ?thesis
      by (simp add: handle_control_msg_def read_row [OF row] event_of_def Let_def)
  qed
qed

end

section \<open>Starting the console\<close>

text \<open>The program's static objects before the console is initialised.\<close>

definition raw_static :: "u64 \<Rightarrow> u64 \<Rightarrow> ('e, 'z) vio_world_scheme \<Rightarrow> bool" where
  "raw_static q raw w \<longleftrightarrow> vq_old_used_idx (vqs w q) = 0 \<and>
     raws w raw \<noteq> None \<and> pred_option (\<lambda>r. raw_size r \<and> va_idx (vr_avail r) = 0) (raws w raw)"

definition con_static :: "('e, 'z) con_world_scheme \<Rightarrow> bool" where
  "con_static w \<longleftrightarrow> raw_static cmd_input cmd_input_raw w \<and> raw_static cmd_output cmd_output_raw w \<and>
     rows_ok (dmem w) \<and> ports_ok (con_ports w)"

lemma raw_static_run:
  assumes "raw_static q raw w" "guest w w'"
  shows "raw_static q raw w'"
  using assms by (auto simp: raw_static_def guest_def raw_size_def elim!: polite_raw)

lemma con_static_run:
  assumes "con_static w" "host_run H w w'" "con_host H"
  shows "con_static w'" "con_ports w' = con_ports w" "con_vio w' = con_vio w"
proof -
  have "guest w w'" "host_keeps H rows_ok" using assms(2,3) by (simp_all add: con_host_def host_run_guest)
  moreover show "con_ports w' = con_ports w" "con_vio w' = con_vio w"
    using host_run_own [OF assms(2)] con_ports_more by blast+
  ultimately show "con_static w'"
    using assms(1) host_run_data [OF assms(2), of rows_ok]
    by (simp add: con_static_def) (blast intro: raw_static_run)
qed

lemma set_queue_id_state: "con_state H \<beta> n k ps w \<Longrightarrow> con_state H \<beta> n k ps (set_queue_id q idx w)"
  using budget_cong [of "set_queue_id q idx w" w]
  by (auto simp: con_state_def cmd_in_def cmd_out_def vq_ok_def idle_def the_raw_def set_queue_id_def)

lemma queues_init:
  assumes "con_static w" "raws w cmd_input_raw = Some ri" "raws w cmd_output_raw = Some ro"
    and w': "w' = after_init cmd_output cmd_output_raw vio 0 ro
      (after_init cmd_input cmd_input_raw vio VIRTQ_DESC_F_WRITE ri w)" and b: "budget H \<beta> w"
  shows "con_state H \<beta> 0 0 (con_ports w) w'" "vq_old_used_idx (vqs w' cmd_input) = 0" "con_vio w' = con_vio w"
proof -
  from assms(1-3) have r: "raw_size ri" "va_idx (vr_avail ri) = 0" "raw_size ro" "va_idx (vr_avail ro) = 0"
    "vq_old_used_idx (vqs w cmd_input) = 0" "vq_old_used_idx (vqs w cmd_output) = 0"
    by (simp_all add: con_static_def raw_static_def)
  have "vq_ok VIRTQ_DESC_F_WRITE cmd_input w'" "the_raw cmd_input w' = with_flags VIRTQ_DESC_F_WRITE ri"
    "vqs w' cmd_input = (vqs w cmd_input)\<lparr>vq_raw := cmd_input_raw, vq_num_bufs := 32, vq_vio := vio\<rparr>"
    using r by (simp_all add: w' after_init_def vq_ok_def the_raw_def)
  moreover have "cmd_out w'"
    using r by (simp add: cmd_out_def w' after_init_def idle_def vq_ok_def)
  moreover have "dmem w' = dmem w" "vio_world.more w' = vio_world.more w" using r by (simp_all add: w' after_init_ok)
  moreover have "budget H \<beta> w'"
    by (rule budget_cong [OF _ _ _ b]) (simp_all add: w' after_init_def assms(2))
  ultimately show "con_state H \<beta> 0 0 (con_ports w) w'" "vq_old_used_idx (vqs w' cmd_input) = 0" "con_vio w' = con_vio w"
    using r assms(1) con_ports_more [of w' w] by (simp_all add: con_state_def cmd_in_def con_static_def)
qed

lemma control_setup_loop_ok:
  assumes "con_state H \<beta> j (of_nat j) ps w" "j + n = 32" "vq_old_used_idx (vqs w cmd_input) = 0"
  shows "\<exists>w'. control_setup_loop n (of_nat j) w = Ret () w' \<and> con_state H \<beta> 32 32 ps w' \<and> con_vio w' = con_vio w"
  using assms
proof (induction n arbitrary: j w)
  case 0
  then show ?case by simp
next
  case (Suc n)
  let ?w = "put_raw cmd_input (append_avail j (set_slot j (cmsg_buf (of_nat j)) (ucast CMSG_IN_MAX) (the_raw cmd_input w))) w"
  have j: "j < 32" using Suc.prems(2) by simp
  have s: "cmd_in j (of_nat j) w" "vq_ok VIRTQ_DESC_F_WRITE cmd_input w" "vq_raw (vqs w cmd_input) = cmd_input_raw"
    using Suc.prems(1) by (simp_all add: con_state_def cmd_in_def)
  have u: "(ucast (of_nat j :: u32) :: u16) = of_nat j" "(ucast (of_nat j :: u32) :: u64) = of_nat j"
    using j by (simp_all add: unsigned_of_nat take_bit_nat_eq_self)
  have "slot_of (of_nat j) = j" using j by (simp add: slot_of_def unat_of_nat)
  then have "cmd_in (Suc j) (of_nat (Suc j)) ?w"
    using put_row(1) [OF s(1) _ j] Suc.prems(3) by (simp add: max_def add.commute)
  moreover have "cmd_out ?w"
    using Suc.prems(1) by (intro cmd_out_cong [of ?w w]) (simp_all add: con_state_def put_raw_def s(3) cmd_out_def)
  moreover have "budget H \<beta> ?w"
    using s(2,3) by (rule budget_put_row) (use Suc.prems(1) in \<open>simp only: con_state_def\<close>)
  moreover have own: "con_ports ?w = con_ports w" "con_vio ?w = con_vio w" "vqs ?w = vqs w"
    by (simp_all add: put_raw_def)
  ultimately have "\<exists>w'. control_setup_loop n (of_nat (Suc j)) ?w = Ret () w' \<and> con_state H \<beta> 32 32 ps w' \<and> con_vio w' = con_vio ?w"
    using Suc.prems by (intro Suc.IH) (simp_all add: con_state_def)
  then show ?case
    using set_and_offer [OF s(2) j, of "cmsg_buf (of_nat j)" CMSG_IN_MAX]
    by (auto simp: own(2) u obind_assoc [symmetric] add.commute simp del: obind_assoc)
qed

lemma ports_ok_reset: "ports_ok ps \<Longrightarrow> ports_ok (map reset_port ps)"
  using port_ok_first [of _ False]
  by (auto simp: ports_ok_def list_all_iff reset_port_def port_ok_def)

context console_device begin

lemma control_scan_loop_ok:
  assumes "con_host H" "con_state H \<beta> 32 32 ps w" "ports_ok ps"
  shows "ends (vq_live H cmd_output_raw \<and> (\<exists>\<mu>. host_delivers H \<mu> \<and> \<beta> \<mu> \<le> n))
    (\<lambda>_ w'. con_ok w' \<and> con_vio w' = con_vio w) (control_scan_loop n H (T H) w)"
  using assms(2,3)
proof (induction n arbitrary: \<beta> ps w rule: less_induct)
  case (less n)
  let ?live = "\<lambda>\<beta> n. vq_live H cmd_output_raw \<and> (\<exists>\<mu>. host_delivers H \<mu> \<and> \<beta> \<mu> \<le> n)"
  let ?Q = "\<lambda>_ w'. con_ok w' \<and> con_vio w' = con_vio w"
  have ok: "con_ok w'" if "con_state H \<beta>' 32 32 ps' w'" "ports_ok ps'" for \<beta>' w' ps'
    using that by (auto simp: con_ok_def con_state_def)
  have next': "ends (?live \<beta> n) ?Q (case n of 0 \<Rightarrow> NoFuel | Suc n' \<Rightarrow> control_scan_loop n' H (T H) w')"
    if s: "con_state H (\<lambda>\<mu>. \<beta> \<mu> - 1) 32 32 ps' w'" "ports_ok ps'" "con_vio w' = con_vio w"
      and pos: "\<forall>\<mu>. host_delivers H \<mu> \<longrightarrow> 0 < \<beta> \<mu>" for w' ps'
  proof (cases n)
    case 0
    with pos show ?thesis by auto
  next
    case (Suc n')
    have "ends (?live \<beta> n) (\<lambda>_ w''. con_ok w'' \<and> con_vio w'' = con_vio w') (control_scan_loop n' H (T H) w')"
      using less.IH [OF _ s(1,2), of n'] by (rule ends_weaken) (use Suc in \<open>auto simp: le_diff_conv\<close>)
    with s(3) Suc show ?thesis by simp
  qed
  have msg: "ends (?live \<beta> n) ?Q (obind (handle_control_msg H (T H) (cmsg_buf (of_nat i), sz, of_nat i) w1)
      (\<lambda>_ w'. case n of 0 \<Rightarrow> NoFuel | Suc n' \<Rightarrow> control_scan_loop n' H (T H) w'))"
    if s: "con_state H (\<lambda>\<mu>. \<beta> \<mu> - 1) 32 31 ps w1" "borrowed i w1" "con_vio w1 = con_vio w"
      and pos: "\<forall>\<mu>. host_delivers H \<mu> \<longrightarrow> 0 < \<beta> \<mu>" for w1 sz i
  proof -
    obtain row where "dmem w1 (cmsg_buf (of_nat i)) = Some row" "row_ok row"
      using s(1,2) con_state_row borrowed_def by metis
    from handle_control_msg_ok [OF assms(1) s(1,2) this less.prems(2)]
    have "ends (?live \<beta> n) (\<lambda>_ w'. con_state H (\<lambda>\<mu>. \<beta> \<mu> - 1) 32 32 (apply_event (event_of row sz) ps) w' \<and> con_vio w' = con_vio w1)
      (handle_control_msg H (T H) (cmsg_buf (of_nat i), sz, of_nat i) w1)" by (rule ends_weaken) blast
    then show ?thesis
      by (rule ends_bind) (use s(3) less.prems(2) pos in \<open>auto intro!: next' ports_ok_event\<close>)
  qed
  have "ends (?live \<beta> n) (\<lambda>m w'. con_vio w' = con_vio w \<and> (case m of
      None \<Rightarrow> con_state H \<beta> 32 32 ps w'
    | Some (msg, sz, idx) \<Rightarrow> con_state H (\<lambda>\<mu>. \<beta> \<mu> - 1) 32 31 ps w' \<and> (\<forall>\<mu>. host_delivers H \<mu> \<longrightarrow> 0 < \<beta> \<mu>) \<and>
        (\<exists>i. borrowed i w' \<and> idx = of_nat i \<and> msg = cmsg_buf (of_nat i)))) (get_control_msg H (T H) w)"
    by (rule ends_weaken [OF get_control_msg_ok [OF assms(1) less.prems(1)]]) blast
  then show ?case
    by (subst control_scan_loop.simps, elim ends_bind)
       (auto split: option.splits intro: msg ok [OF _ less.prems(2)])
qed

lemma control_scan_ok:
  assumes "con_host H" "con_state H \<beta> 32 32 ps w" "ports_ok ps"
  shows "ends (vq_live H cmd_output_raw \<and> (\<exists>\<mu>. host_delivers H \<mu> \<and> \<beta> \<mu> \<le> host_fuel H))
    (\<lambda>_ w'. con_ok w' \<and> con_vio w' = con_vio w) (control_scan H (T H) w)"
proof -
  let ?w = "w\<lparr>con_ports := map reset_port (con_ports w)\<rparr>"
  have "con_ports w = ps" using assms(2) by (simp add: con_state_def)
  then have s: "con_state H \<beta> 32 32 (map reset_port ps) ?w" using con_state_ports [OF assms(2)] by simp
  have sent: "ends (vq_live H cmd_output_raw \<and> (\<exists>\<mu>. host_delivers H \<mu> \<and> \<beta> \<mu> \<le> host_fuel H))
      (\<lambda>_ w'. con_state H \<beta> 32 32 (map reset_port ps) w' \<and> con_vio w' = con_vio w \<and>
        vq_old_used_idx (vqs w' cmd_input) = vq_old_used_idx (vqs ?w cmd_input))
      (send_control_msg H (T H) dev_ready_addr \<lparr>cc_id = 0, cc_event = VIRTIO_CONSOLE_DEVICE_READY, cc_value = 1\<rparr> ?w)"
    using send_control_msg_ok [OF assms(1) s, of dev_ready_addr "\<lparr>cc_id = 0, cc_event = VIRTIO_CONSOLE_DEVICE_READY, cc_value = 1\<rparr>"]
    by (auto elim: ends_weaken)
  show ?thesis
    unfolding control_scan_def Let_def
    by (rule ends_bind [OF sent])
       (auto elim!: ends_mono [OF control_scan_loop_ok [OF assms(1) _ ports_ok_reset [OF assms(3)]]])
qed

lemma attach_ok:
  assumes "con_host H" "con_state H \<beta> n k ps w"
  shows "ends (vq_live H cmd_output_raw) (\<lambda>_ w'. con_state H \<beta> n k ps w' \<and> con_vio w' = con_vio w \<and>
      (\<forall>p. vq_old_used_idx (vqs w' p) = vq_old_used_idx (vqs w p))) (vo_attach (T H) q idx w)"
proof (rule ends_mono [OF returns_ends [OF attach_run]])
  fix w' assume run: "host_run H (set_queue_id q idx w) w'"
  have "con_ports w' = con_ports w" "con_vio w' = con_vio w" "vqs w' = vqs (set_queue_id q idx w)"
    using host_run_own [OF run] con_ports_more [of w' w] by (auto simp: set_queue_id_def)
  then show "con_state H \<beta> n k ps w' \<and> con_vio w' = con_vio w \<and>
      (\<forall>p. vq_old_used_idx (vqs w' p) = vq_old_used_idx (vqs w p))"
    using con_state_run [OF set_queue_id_state [OF assms(2)] run assms(1)] by (simp add: set_queue_id_def)
qed

lemma control_setup_ok:
  assumes "con_host H" "con_static w" "budget H \<beta> w"
  shows "ends (vq_live H cmd_output_raw) (\<lambda>_ w'. con_state H \<beta> 32 32 (con_ports w) w' \<and> con_vio w' = con_vio w) (control_setup H (T H) vio w)"
proof -
  from assms(2) obtain ri ro where r: "raws w cmd_input_raw = Some ri" "raw_size ri"
    "raws w cmd_output_raw = Some ro" "raw_size ro"
    by (auto simp: con_static_def raw_static_def)
  define w1 where "w1 = after_init cmd_input cmd_input_raw vio VIRTQ_DESC_F_WRITE ri w"
  define w2 where "w2 = after_init cmd_output cmd_output_raw vio 0 ro w1"
  have "vq_init cmd_input cmd_input_raw vio True w = Ret () w1"
    using vq_init_ok [OF r(1,2)] by (simp add: w1_def)
  moreover have "raws w1 cmd_output_raw = Some ro" using r by (simp add: w1_def after_init_def)
  then have "vq_init cmd_output cmd_output_raw vio False w1 = Ret () w2"
    using vq_init_ok [of w1 cmd_output_raw ro] r by (simp add: w2_def)
  moreover note q = queues_init [OF assms(2) r(1,3) w2_def [unfolded w1_def] assms(3)]
  have loop: "ends (vq_live H cmd_output_raw) (\<lambda>_ w'. con_state H \<beta> 32 32 (con_ports w) w' \<and> con_vio w' = con_vio w)
      (control_setup_loop (unat (vq_num_bufs (vqs w' cmd_input))) 0 w')"
    if "con_state H \<beta> 0 0 (con_ports w) w'" "vq_old_used_idx (vqs w' cmd_input) = 0" "con_vio w' = con_vio w" for w'
  proof -
    have "vq_num_bufs (vqs w' cmd_input) = 32" using that by (simp add: con_state_def cmd_in_def vq_ok_def)
    with control_setup_loop_ok [of H \<beta> 0 "con_ports w" w' 32] that show ?thesis by auto
  qed
  ultimately show ?thesis
    unfolding control_setup_def
    by simp (rule ends_bind [OF attach_ok [OF assms(1) q(1)]], rule ends_bind [OF attach_ok [OF assms(1)]],
      use q in \<open>auto intro!: loop\<close>)
qed

end

section \<open>Initialisation\<close>

text \<open>\<open>boots l Q m\<close> is \<open>ends l Q m\<close> for code with assertions about the device: \<open>m\<close> may abort unless \<open>l\<close>.\<close>

definition boots :: "bool \<Rightarrow> ('a \<Rightarrow> 'w \<Rightarrow> bool) \<Rightarrow> ('a, 'w) outcome \<Rightarrow> bool" where
  "boots l Q m = (case m of Ret a w \<Rightarrow> Q a w | Fault \<Rightarrow> False | _ \<Rightarrow> \<not> l)"

lemma boots_simps [simp]:
  "boots l Q (Ret a w) = Q a w" "boots l Q (Abort w) = (\<not> l)" "\<not> boots l Q Fault" "boots l Q NoFuel = (\<not> l)"
  by (simp_all add: boots_def)

lemma boots_bind: "boots l Q m \<Longrightarrow> (\<And>a w. Q a w \<Longrightarrow> boots l R (f a w)) \<Longrightarrow> boots l R (obind m f)"
  by (cases m) simp_all

lemma boots_ends: "ends l Q m \<Longrightarrow> boots l Q m"
  by (cases m) simp_all

lemma boots_iff: "boots l Q m \<longleftrightarrow> no_fault m \<and> on_ret Q m \<and> (l \<longrightarrow> returns Q m)"
  by (cases m) auto

lemma boots_assert: "(l \<Longrightarrow> b) \<Longrightarrow> (b \<Longrightarrow> boots l R (f () w)) \<Longrightarrow> boots l R (obind (c_assert b w) f)"
  by (cases b) (auto simp: c_assert_def)

text \<open>
  \<open>agrees T vio\<close>: the device has the multiport feature and accepts the choice. \<open>offers T H w\<close>: there is such
  a device, it is live on the control output queue, and it has no more messages than the scanning loop
  is granted iterations.
\<close>

definition agrees :: "('e, 'z) con_ops \<Rightarrow> u64 \<Rightarrow> bool" where
  "agrees T vio \<longleftrightarrow>
     (\<forall>w. on_ret (\<lambda>f _. f AND DESIRED_FEATURES = DESIRED_FEATURES) (vo_get_features T vio w)) \<and>
     (\<forall>w. on_ret (\<lambda>s _. s AND VIRTIO_STATUS_FEATURES_OK \<noteq> 0) (vo_get_status T vio w))"

definition offers :: "('e, 'z) con_ops \<Rightarrow> 'e host \<Rightarrow> ('e, 'z) con_world_scheme \<Rightarrow> bool" where
  "offers T H w \<longleftrightarrow> returns (\<lambda>vio _. vio \<noteq> 0 \<and> agrees T vio) (vo_probe_console T w) \<and>
     vq_live H cmd_output_raw \<and> (\<exists>\<mu>. host_delivers H \<mu> \<and> backlog \<mu> w \<le> host_fuel H)"

context console_device begin

lemma init_ok:
  assumes H: "con_host H" and s: "con_static w" and probe: "no_fault (vo_probe_console (T H) w)"
    and live: "l \<Longrightarrow> offers (T H) H w"
  shows "boots l (\<lambda>r w'. if r = 0 then \<not> l else r = console_addr \<and> con_ok w') (init_virtio_console H (T H) w)"
proof -
  let ?\<beta> = "\<lambda>\<mu>. backlog \<mu> w"
  define Q where "Q = (\<lambda>(r :: u64) (w' :: ('e, 'z) con_world_scheme). if r = 0 then \<not> l else r = console_addr \<and> con_ok w')"
  have Q0: "Q 0 w' \<longleftrightarrow> \<not> l" for w' by (simp add: Q_def)
  define S where "S w' \<longleftrightarrow> con_static w' \<and> budget H ?\<beta> w'" for w' :: "('e, 'z) con_world_scheme"
  have S: "S w'" if "host_run H w1 w'" "S w1" for w1 w'
    using that con_static_run [OF _ that(1) H] budget_run [OF that(1)] by (simp add: S_def)
  have step: "boots l Q (obind m f)"
    if "returns (\<lambda>_. host_run H w1) m" "S w1" "\<And>a w'. m = Ret a w' \<Longrightarrow> S w' \<Longrightarrow> boots l Q (f a w')"
    for m w1 and f :: "_ \<Rightarrow> _ \<Rightarrow> (u64, 'e, 'z) con"
    using that S [OF _ that(2)] by (auto simp: returns_iff)
  have run: "S w1" if "vo_probe_console (T H) w = Ret vio w1" "vio \<noteq> 0" for vio w1
    by (rule S [of w]) (use probe_run [of H w] that s in \<open>simp_all add: S_def budget_def\<close>)
  have found: "boots l (\<lambda>vio w1. if vio = 0 then \<not> l else S w1 \<and> (l \<longrightarrow> agrees (T H) vio)) (vo_probe_console (T H) w)"
    using probe live run by (cases "vo_probe_console (T H) w") (auto simp: offers_def)
  have scan: "boots l Q (obind (control_scan H (T H) w2) (\<lambda>_ w. Ret console_addr w))"
    if "con_state H ?\<beta> 32 32 ps w2" "ports_ok ps" for w2 ps
    by (rule boots_bind [OF boots_ends [OF ends_weaken [OF control_scan_ok [OF H that]]]])
       (use live in \<open>auto simp: offers_def Q_def\<close>)
  have ready: "boots l Q (obind (control_setup H (T H) vio w1) (\<lambda>_ w.
      obind (vo_or_status (T H) vio VIRTIO_STATUS_DRIVER_OK (w\<lparr>con_vio := vio\<rparr>)) (\<lambda>_ w.
      obind (control_scan H (T H) w) (\<lambda>_ w. Ret console_addr w))))" if "S w1" for vio w1
  proof -
    from that have w1: "con_static w1" "budget H ?\<beta> w1" "ports_ok (con_ports w1)"
      by (simp_all add: S_def con_static_def)
    have vio: "con_state H ?\<beta> 32 32 ps (w'\<lparr>con_vio := vio\<rparr>)" if "con_state H ?\<beta> 32 32 ps w'" for ps w'
      using that cmd_in_cong [of "w'\<lparr>con_vio := vio\<rparr>" w'] cmd_out_cong [of "w'\<lparr>con_vio := vio\<rparr>" w']
        budget_cong [of "w'\<lparr>con_vio := vio\<rparr>" w'] by (simp add: con_state_def)
    have "boots l (\<lambda>_ w'. con_state H ?\<beta> 32 32 (con_ports w1) w' \<and> con_vio w' = con_vio w1) (control_setup H (T H) vio w1)"
      by (rule boots_ends [OF ends_weaken [OF control_setup_ok [OF H w1(1,2)]]]) (use live in \<open>simp add: offers_def\<close>)
    then show ?thesis
    proof (rule boots_bind)
      fix w2 :: "('e, 'z) con_world_scheme" assume "con_state H ?\<beta> 32 32 (con_ports w1) w2 \<and> con_vio w2 = con_vio w1"
      then have "con_state H ?\<beta> 32 32 (con_ports w1) (w2\<lparr>con_vio := vio\<rparr>)" using vio by blast
      then show "boots l Q (obind (vo_or_status (T H) vio VIRTIO_STATUS_DRIVER_OK (w2\<lparr>con_vio := vio\<rparr>)) (\<lambda>_ w.
          obind (control_scan H (T H) w) (\<lambda>_ w. Ret console_addr w)))"
        using or_status_run [of H "w2\<lparr>con_vio := vio\<rparr>" vio VIRTIO_STATUS_DRIVER_OK]
        by (auto simp: returns_iff intro!: scan [OF con_state_run [OF _ _ H] w1(3)])
    qed
  qed
  have feat: "f AND DESIRED_FEATURES = DESIRED_FEATURES"
    if "vo_get_features (T H) vio w1 = Ret f w2" "agrees (T H) vio" for vio w1 f w2
    using that(2) on_retD [OF _ that(1), of "\<lambda>f _. f AND DESIRED_FEATURES = DESIRED_FEATURES"] by (simp add: agrees_def)
  have status: "s AND VIRTIO_STATUS_FEATURES_OK \<noteq> 0"
    if "vo_get_status (T H) vio w1 = Ret s w2" "agrees (T H) vio" for vio w1 s w2
    using that(2) on_retD [OF _ that(1), of "\<lambda>s _. s AND VIRTIO_STATUS_FEATURES_OK \<noteq> 0"] by (simp add: agrees_def)
  show ?thesis
    unfolding init_virtio_console_def Let_def Q_def [symmetric]
    by (rule boots_bind [OF found])
       (auto split: if_splits intro!: step [OF reset_run] step [OF or_status_run] step [OF get_features_run]
         step [OF set_features_run] step [OF get_status_run] step [OF page_size_run] boots_assert ready
         dest: status feat simp: Q0)
qed

end

section \<open>Connecting a port\<close>

text \<open>
  \<open>port_q flags q raw w\<close>: a queue of a port in its invariant; \<open>foreign q raw\<close>: it is not one of the control
  queues.
\<close>

definition port_q :: "u16 \<Rightarrow> u64 \<Rightarrow> u64 \<Rightarrow> ('e, 'z) vio_world_scheme \<Rightarrow> bool" where
  "port_q flags q raw w \<longleftrightarrow> vq_ok flags q w \<and> idle q w \<and> vq_raw (vqs w q) = raw"

definition foreign :: "u64 \<Rightarrow> u64 \<Rightarrow> bool" where
  "foreign q raw \<longleftrightarrow> q \<noteq> cmd_input \<and> q \<noteq> cmd_output \<and> raw \<noteq> cmd_input_raw \<and> raw \<noteq> cmd_output_raw"

lemma port_q_cong:
  assumes "vqs w' q = vqs w q" "map_option shape (raws w' (vq_raw (vqs w q))) = map_option shape (raws w (vq_raw (vqs w q)))"
  shows "port_q flags q raw w' = port_q flags q raw w"
  using vq_ok_cong [OF assms] assms(1) by (simp add: port_q_def)

lemma port_q_run: "host_ok H \<Longrightarrow> host_run H w w' \<Longrightarrow> port_q flags q raw w \<Longrightarrow> port_q flags q raw w'"
  using host_run_guest [of H w w'] by (auto simp: guest_def polite_def port_q_cong [of w' q w])

lemma port_q_queue_id: "port_q flags q raw (set_queue_id p idx w) = port_q flags q raw w"
  by (simp add: port_q_def vq_ok_def idle_def set_queue_id_def)

context console_device begin

lemma send_control_msg_apart:
  assumes "con_host H" "con_state H \<beta> n k ps w" "foreign q raw" "port_q flags q raw w"
  shows "on_ret (\<lambda>_ w'. port_q flags q raw w') (send_control_msg H (T H) a msg w)"
proof -
  let ?w = "w\<lparr>dmem := (dmem w)(a \<mapsto> bytes_of_console_control msg)\<rparr>"
  have H: "host_ok H" using assms(1) by (simp add: con_host_def)
  have p: "port_q flags q raw ?w" using assms(4) by (simp add: port_q_cong [of ?w q w])
  have out: "vq_ok 0 cmd_output ?w" "apart cmd_output q ?w"
    using assms by (auto simp: con_state_def cmd_out_def apart_def foreign_def port_q_def vq_ok_def)
  have fin: "port_q flags q raw (withdraw cmd_output idx w2)" if "host_run H (offer cmd_output a 8 ?w) w2" for w2 idx
    by (rule port_q_cong [OF exchange_frame(2) [OF H that refl out(2), THEN conjunct1]
      exchange_frame(2) [OF H that refl out(2), THEN conjunct2], THEN iffD2, OF p])
  have "on_ret (\<lambda>_ w'. port_q flags q raw w') (send_vq H (vo_kick (T H)) cmd_output a 8 ?w)"
    using ends_on_ret [OF send_vq_run [OF H out(1), of 8 False a]] fin by (auto elim!: on_ret_mono)
  then show ?thesis by (simp add: send_control_msg_def Let_def)
qed

lemma attach_apart:
  assumes "host_ok H" "port_q flags q raw w"
  shows "on_ret (\<lambda>_ w'. port_q flags q raw w') (vo_attach (T H) p idx w)"
  using attach_run [of H p idx w] port_q_run [OF assms(1), of "set_queue_id p idx w" _ flags q raw] assms(2)
  by (auto simp: returns_iff port_q_queue_id)

lemma connect_port_ok:
  assumes "con_host H" "con_ok w" "port < 16"
  shows "ends (vq_live H cmd_output_raw) (\<lambda>_ w'. con_ok w' \<and> con_vio w' = con_vio w \<and>
      con_ports w' = (con_ports w)[unat port := (con_ports w ! unat port)\<lparr>guest_connected := True\<rparr>])
    (virtio_console_connect_port H (T H) port qi qo w)"
proof -
  let ?\<beta> = "\<lambda>\<mu>. backlog \<mu> w" and ?ps = "con_ports w"
  have s: "con_state H ?\<beta> 32 32 ?ps w" "ports_ok ?ps" using assms(2) by (simp_all add: con_ok_state [of w H])
  have i: "unat port < length ?ps" using assms(3) s(2) by (simp add: ports_ok_def MAX_PORTS_def word_less_nat_alt)
  have "ports_ok (?ps[unat port := (?ps ! unat port)\<lparr>guest_connected := True\<rparr>])"
    by (rule ports_ok_update [OF s(2)]) (simp add: port_ok_def)
  then have fin: "con_ok (w'\<lparr>con_ports := ?ps[unat port := (?ps ! unat port)\<lparr>guest_connected := True\<rparr>]\<rparr>)"
    if "con_state H ?\<beta> 32 32 ?ps w'" for w'
    using con_state_ports [OF that, of "?ps[unat port := (?ps ! unat port)\<lparr>guest_connected := True\<rparr>]"]
    by (simp add: con_ok_def con_state_def)
  show ?thesis
    unfolding virtio_console_connect_port_def port_open_def
    by (rule ends_bind [OF attach_ok [OF assms(1) s(1)]], rule ends_bind [OF attach_ok [OF assms(1)]], blast,
        rule ends_bind [OF send_control_msg_ok [OF assms(1)]], blast, simp)
       (use i in \<open>auto simp: upd_port_ok intro!: fin\<close>)
qed

lemma connect_port_apart:
  assumes "con_host H" "con_ok w" "foreign q raw" "port_q flags q raw w"
  shows "on_ret (\<lambda>_ w'. port_q flags q raw w') (virtio_console_connect_port H (T H) port qi qo w)"
proof -
  have H: "host_ok H" using assms(1) by (simp add: con_host_def)
  have s: "con_state H (\<lambda>\<mu>. backlog \<mu> w) 32 32 (con_ports w) w" using assms(2) by (simp add: con_ok_state [of w H])
  have att: "con_state H \<beta> n k ps w2 \<and> port_q flags q raw w2"
    if "con_state H \<beta> n k ps w1 \<and> port_q flags q raw w1" "vo_attach (T H) p idx w1 = Ret u w2" for u p idx w1 w2 \<beta> n k ps
    using ends_on_ret [OF attach_ok [OF assms(1), of \<beta> n k ps w1 p idx]] attach_apart [OF H, of flags q raw w1 p idx] that by auto
  have port: "on_ret (\<lambda>_ w'. port_q flags q raw w') (upd_port j f w1)" if "port_q flags q raw w1" for j f w1
    using that by (simp add: upd_port_def port_q_cong [of "w1\<lparr>con_ports := ps\<rparr>" q w1 for ps])
  show ?thesis
    unfolding virtio_console_connect_port_def port_open_def
  proof (intro on_ret_bindI)
    fix a b c :: unit and w1 w2 w3
    assume r: "vo_attach (T H) qi (virtio_console_q port + VIRTIO_CONSOLE_RX_OFFSET) w = Ret a w1"
      "vo_attach (T H) qo (virtio_console_q port + VIRTIO_CONSOLE_TX_OFFSET) w1 = Ret b w2"
      "send_control_msg H (T H) connect_msg_addr
        \<lparr>cc_id = ucast port, cc_event = VIRTIO_CONSOLE_PORT_OPEN, cc_value = 1\<rparr> w2 = Ret c w3"
    note s2 = att [OF att [OF conjI [OF s assms(4)] r(1)] r(2)]
    show "on_ret (\<lambda>_ w'. port_q flags q raw w') (upd_port (unat port) (guest_connected_update (\<lambda>_. True)) w3)"
      by (rule port, rule on_retD [OF send_control_msg_apart [OF assms(1) _ assms(3)] r(3)]) (use s2 in blast)+
  qed
qed

end

section \<open>Exchanges on the queues of a port\<close>

text \<open>
  \<open>port_step H q raw w w'\<close>: what an exchange on a port's queue leaves alone: the program's variables,
  whatever the host keeps in the data buffers, and the other queues.
\<close>

definition port_step :: "'e host \<Rightarrow> u64 \<Rightarrow> u64 \<Rightarrow> ('e, 'z) vio_world_scheme \<Rightarrow> ('e, 'z) vio_world_scheme \<Rightarrow> bool" where
  "port_step H q raw w w' \<longleftrightarrow> vio_world.more w' = vio_world.more w \<and>
     (\<forall>D. host_keeps H D \<longrightarrow> D (dmem w) \<longrightarrow> D (dmem w')) \<and>
     (\<forall>p flags raw'. p \<noteq> q \<longrightarrow> raw' \<noteq> raw \<longrightarrow> port_q flags p raw' w \<longrightarrow> port_q flags p raw' w')"

lemma port_exchange:
  assumes "host_ok H" "port_q flags q raw w" "host_run H (offer q data len w) w2" "vq_ok flags q w2"
  shows "port_q flags q raw (withdraw q (vq_old_used_idx (vqs w q)) w2) \<and>
    port_step H q raw w (withdraw q (vq_old_used_idx (vqs w q)) w2)" (is "port_q _ _ _ ?w' \<and> _")
proof -
  note f = exchange_frame [OF assms(1,3) refl]
  have q: "vq_ok flags q w" "idle q w" "vq_raw (vqs w q) = raw" using assms(2) by (simp_all add: port_q_def)
  have "port_q flags q raw ?w'"
    using vq_ok_withdraw [OF assms(4)] idle_exchange [OF q(1,2) host_run_guest [OF assms(3,1)]] f(4) q(3)
    by (simp add: port_q_def)
  moreover have "port_q flags' p raw' ?w'" if "p \<noteq> q" "raw' \<noteq> raw" "port_q flags' p raw' w" for p flags' raw'
  proof -
    have "apart q p w" using that q(3) by (auto simp: apart_def port_q_def)
    from f(2) [OF this] that(3) show ?thesis by (simp only: port_q_cong [of ?w' p w])
  qed
  moreover have "\<forall>D. host_keeps H D \<longrightarrow> D (dmem w) \<longrightarrow> D (dmem ?w')"
  proof (intro allI impI)
    fix D assume "host_keeps H D" "D (dmem w)"
    then show "D (dmem ?w')" by (rule f(3))
  qed
  ultimately show ?thesis using f(1) unfolding port_step_def by blast
qed

context device begin

lemma port_send:
  assumes "host_ok H" "port_q 0 q raw w" "len \<noteq> 0"
  shows "ends (vq_live H raw) (\<lambda>n w'. n = sint len \<and> port_q 0 q raw w' \<and> port_step H q raw w w')
    (send_vq H (vo_kick (T H)) q data len w)"
  by (rule ends_mono [OF send_vq_run [OF assms(1) _ assms(3)]])
     (use assms(2) port_exchange [OF assms(1,2)] in \<open>auto simp: port_q_def\<close>)

lemma port_recv:
  assumes "host_ok H" "port_q VIRTQ_DESC_F_WRITE q raw w" "len \<noteq> 0"
  shows "ends (vq_live H raw) (\<lambda>n w'. (\<exists>k :: u32. n = uint k) \<and> port_q VIRTQ_DESC_F_WRITE q raw w' \<and> port_step H q raw w w')
    (recv_vq H (vo_kick (T H)) q data len w)"
  by (rule ends_mono [OF recv_vq_run [OF assms(1) _ assms(3)]])
     (use assms(2) port_exchange [OF assms(1,2)] in \<open>auto simp: port_q_def\<close>)

end

interpretation mmio_console: console_device mmio_ops
  by (simp add: console_device_def mmio_device.device_axioms)

interpretation pci_console: console_device "pci_ops log_msg junk"
  by (simp add: console_device_def pci_device.device_axioms)

section \<open>A scripted host\<close>

text \<open>
  The host of the witnesses, on the MMIO transport: a legacy console device with the multiport feature
  whose state is the list of control messages it is going to deliver. When it is polled it takes every
  buffer of the control output queue, and puts one message that is well-formed into the next control
  input buffer.
\<close>

definition deliver :: "bytes \<Rightarrow> virtq_raw \<Rightarrow> raw_mem \<Rightarrow> data_mem \<Rightarrow> raw_mem \<times> data_mem" where
  "deliver msg raw r d =
     (let us = vr_used raw; i = unat (va_ring (vr_avail raw) ! (unat (vu_idx us) mod 32));
          a = vd_addr (vr_desc raw ! i);
          us = us\<lparr>vu_ring := (vu_ring us)[unat (vu_idx us) mod 32 := \<lparr>ue_id = of_nat i, ue_len = of_nat (length msg)\<rparr>],
            vu_idx := vu_idx us + 1\<rparr>
      in case d a of None \<Rightarrow> (r, d) | Some b \<Rightarrow>
           if row_ok (put_bytes 0 msg b)
           then (r(cmd_input_raw \<mapsto> raw\<lparr>vr_used := us\<rparr>), d(a \<mapsto> put_bytes 0 msg b)) else (r, d))"

definition serve_output :: "raw_mem \<Rightarrow> raw_mem" where
  "serve_output r = (case r cmd_output_raw of None \<Rightarrow> r | Some raw \<Rightarrow> r(cmd_output_raw \<mapsto> serve_raw raw))"

fun console_poll :: "bytes list \<times> raw_mem \<times> data_mem \<Rightarrow> bytes list \<times> raw_mem \<times> data_mem" where
  "console_poll ([], r, d) = ([], serve_output r, d)"
| "console_poll (m # e, r, d) =
     (case r cmd_input_raw of None \<Rightarrow> (m # e, serve_output r, d) | Some raw \<Rightarrow>
        if vu_idx (vr_used raw) = va_idx (vr_avail raw) then (m # e, serve_output r, d)
        else (e, deliver m raw (serve_output r) d))"

definition console_host :: "bytes list host" where
  "console_host =
     \<lparr>reg_write = (\<lambda>_ _ _ s. s),
      reg_read = (\<lambda>_ a s. (if a = 0xa000000 then 0x74726976 else if a = 0xa000008 then 3
        else if a = 0xa000010 then 2 else if a = 0xa000070 then 15 else 0, s)),
      host_poll = console_poll, host_fuel = 8\<rparr>"

definition blank_port :: port where
  "blank_port = \<lparr>host_connected = False, guest_connected = False, port_name = replicate 64 0\<rparr>"

definition console_boot :: "'e \<Rightarrow> 'e con_world" where
  "console_boot msgs =
     \<lparr>vw_host = msgs, vw_io = [],
      vqs = (\<lambda>_. \<lparr>vq_num_bufs = 0, vq_queue_id = 0, vq_raw = 0, vq_old_used_idx = 0, vq_vio = 0\<rparr>),
      raws = (\<lambda>a. if a = cmd_input_raw \<or> a = cmd_output_raw then Some (demo_raw 0 0) else None),
      dmem = (\<lambda>a. if a < 0x58000000 then Some (replicate 72 0) else None),
      notify_base = 0, notify_multiplier = 0, con_vio = 0, con_ports = replicate 16 blank_port\<rparr>"

definition control_bytes :: "nat \<Rightarrow> u16 \<Rightarrow> string \<Rightarrow> bytes" where
  "control_bytes i event name =
     bytes_of_console_control \<lparr>cc_id = of_nat i, cc_event = event, cc_value = 1\<rparr> @ cstr name"

definition demo_msgs :: "bytes list" where
  "demo_msgs = [control_bytes 1 VIRTIO_CONSOLE_DEVICE_ADD '''', control_bytes 1 VIRTIO_CONSOLE_PORT_NAME ''rpmb0'']"

lemma polite_update:
  "r a = Some raw \<Longrightarrow> vr_desc raw' = vr_desc raw \<Longrightarrow> vr_avail raw' = vr_avail raw \<Longrightarrow>
   length (vu_ring (vr_used raw')) = length (vu_ring (vr_used raw)) \<Longrightarrow> polite r (r(a \<mapsto> raw'))"
  by (simp add: polite_def)

lemma polite_trans: "polite m m' \<Longrightarrow> polite m' m'' \<Longrightarrow> polite m m''"
  by (simp add: polite_def)

lemma serve_output_polite: "polite r (serve_output r)"
  by (auto simp: serve_output_def serve_raw_def min_plus_diff split: option.splits intro!: polite_update)

lemma serve_output_input: "serve_output r cmd_input_raw = r cmd_input_raw"
  by (simp add: serve_output_def split: option.splits)

lemma deliver_polite: "r cmd_input_raw = Some raw \<Longrightarrow> polite r (fst (deliver m raw r d))"
  by (auto simp: deliver_def Let_def split: option.splits intro!: polite_update)

lemma console_poll_polite: "polite r (fst (snd (console_poll (e, r, d))))"
proof (cases e)
  case (Cons m e')
  have "polite (serve_output r) (fst (deliver m raw (serve_output r) d))" if "r cmd_input_raw = Some raw" for raw
    using that by (intro deliver_polite) (simp add: serve_output_input)
  then show ?thesis
    using Cons serve_output_polite [of r] by (auto split: option.splits intro: polite_trans)
qed (simp add: serve_output_polite)

lemma deliver_rows: "rows_ok d \<Longrightarrow> rows_ok (snd (deliver m raw r d))"
  by (auto simp: deliver_def rows_ok_def Let_def split: option.splits)

lemma console_host_ok: "con_host console_host"
proof -
  have "rows_ok d \<Longrightarrow> rows_ok (snd (snd (console_poll (e, r, d))))" for e r d
    by (cases e) (auto split: option.splits simp: deliver_rows)
  then show ?thesis
    by (simp add: con_host_def host_ok_def host_keeps_def console_host_def console_poll_polite)
qed

lemma unat_Suc_le: "unat ((y :: u16) + 1 - x) \<le> Suc (unat (y - x))"
proof -
  have "y + 1 - x = (y - x) + 1" by simp
  then show ?thesis by (simp only: unat_word_ariths) simp
qed

lemma deliver_unread:
  "r cmd_input_raw = Some raw \<Longrightarrow> unread x (fst (deliver m raw r d)) \<le> Suc (unread x r)"
  using unat_Suc_le [of "vu_idx (vr_used raw)" x]
  by (auto simp: deliver_def unread_def Let_def split: option.splits)

lemma console_host_delivers: "host_delivers console_host length"
proof -
  have out: "unread x (serve_output r) = unread x r" for x r by (simp add: unread_def serve_output_input)
  have "length (fst (console_poll (e, r, d))) + unread x (fst (snd (console_poll (e, r, d)))) \<le> length e + unread x r" for e r d x
  proof (cases e)
    case (Cons m e')
    have "unread x (fst (deliver m raw (serve_output r) d)) \<le> Suc (unread x r)" if "r cmd_input_raw = Some raw" for raw
      using deliver_unread [of "serve_output r" raw x m d] that by (simp add: out serve_output_input)
    with Cons show ?thesis by (auto simp: out split: option.splits)
  qed (simp add: out)
  then show ?thesis by (simp add: host_delivers_def console_host_def)
qed

lemma console_host_live: "vq_live console_host cmd_output_raw"
proof -
  have dl: "fst (deliver m raw r d) cmd_output_raw = r cmd_output_raw" for m raw r d
    by (simp add: deliver_def Let_def split: option.splits)
  have so: "r cmd_output_raw = Some raw \<Longrightarrow> serve_output r cmd_output_raw = Some (serve_raw raw)" for r raw
    by (simp add: serve_output_def)
  have poll: "fst (snd (console_poll (e, r, d))) cmd_output_raw = Some (serve_raw raw)"
    if "r cmd_output_raw = Some raw" for e r d raw
    using that by (cases e) (auto simp: so dl split: option.splits)
  have "host_progress console_host (\<lambda>_. 0) cmd_output_raw"
    using poll by (auto simp: host_progress_def console_host_def split_def serve_raw_def)
  then show ?thesis by (auto simp: vq_live_def)
qed

section \<open>Properties\<close>


lemma row_ok_zero: "row_ok (replicate 72 0)"
proof -
  have "(le_word (replicate n 0) :: u32) = 0" for n by (induction n) simp_all
  then show ?thesis by (simp add: row_ok_def get_bytes_def)
qed

lemma console_boot_static: "con_static (console_boot msgs)"
proof -
  have "cmsg_buf (of_nat i) < 0x58000000" if "i < 32" for i by (rule cmsg_buf_less [OF that])
  then have "rows_ok (dmem (console_boot msgs))"
    by (simp add: rows_ok_def row_ok_zero console_boot_def)
  then show ?thesis
    by (simp add: con_static_def raw_static_def raw_size_def ports_ok_def port_ok_def blank_port_def
      MAX_PORTS_def MAX_PORT_NAME_SIZE_def list_all_iff) (simp add: console_boot_def demo_raw_def blank_port_def)
qed

lemma console_probe:
  "\<exists>w'. mmio_probe_console console_host w = Ret 0xa000000 w'"
  unfolding mmio_probe_console_def
  by (subst mmio_probe_loop.simps)
     (simp add: io_read_32_def io_read_def console_host_def VIRTIO_MMIO_BASE_def VIRTIO_MMIO_MAGIC_def
       VIRTIO_DEVICE_ID_CONSOLE_def Let_def)


text \<open>
  C34: initialising the console ends. If the device is found, has the multiport feature and accepts it,
  takes what is sent on the control queue, and has no more messages than the scanning loop is granted
  iterations, then the console is returned, with its queues and ports in order.
\<close>

theorem init_virtio_console_returns:
  assumes "con_host H" "con_static w" "T = mmio_ops H \<or> T = pci_ops log_msg junk H" "offers T H w"
  shows "returns (\<lambda>r w'. r = console_addr \<and> con_ok w') (init_virtio_console H T w)"
proof -
  have "no_fault (vo_probe_console T w)" using assms(4) by (auto simp: offers_def returns_iff)
  then show ?thesis
    using mmio_console.init_ok [OF assms(1,2), of True] pci_console.init_ok [OF assms(1,2), of log_msg junk True] assms(3,4)
    by (auto simp: boots_iff elim!: returns_mono split: if_splits)
qed

lemma console_agrees: "agrees (mmio_ops console_host) 0xa000000"
  by (simp add: agrees_def mmio_ops_def mmio_get_features_def mmio_get_status_def io_defs io_read_def io_write_def
    console_host_def Let_def DESIRED_FEATURES_def VIRTIO_CONSOLE_F_MULTIPORT_def VIRTIO_STATUS_FEATURES_OK_def)

lemma init_virtio_console_returns_witness:
  "returns (\<lambda>r w'. r = console_addr \<and> con_ok w')
    (init_virtio_console console_host (mmio_ops console_host) (console_boot demo_msgs))"
proof (rule init_virtio_console_returns [OF console_host_ok console_boot_static])
  have "backlog length (console_boot demo_msgs) \<le> host_fuel console_host"
    by (simp add: backlog_def unread_def console_boot_def demo_raw_def demo_msgs_def console_host_def)
  then show "offers (mmio_ops console_host) console_host (console_boot demo_msgs)"
    using console_probe [of "console_boot demo_msgs"] console_agrees console_host_live console_host_delivers
    by (auto simp: offers_def) (auto simp: mmio_ops_def)
qed simp


text \<open>
  A console in use: the guest holds the first buffer, with the given message in it, and the used index
  is 1.
\<close>

definition primed_raw :: virtq_raw where
  "primed_raw =
     \<lparr>vr_desc = map (\<lambda>i. \<lparr>vd_addr = cmsg_buf (of_nat i), vd_len = ucast CMSG_IN_MAX, vd_flags = VIRTQ_DESC_F_WRITE, vd_next = 0\<rparr>) [0..<32],
      vr_avail = \<lparr>va_flags = 0, va_idx = 32, va_ring = map of_nat [0..<32], va_used_event = 0\<rparr>,
      vr_used = \<lparr>vu_flags = 0, vu_idx = 1, vu_ring = replicate 32 \<lparr>ue_id = 0, ue_len = 72\<rparr>, vu_avail_event = 0\<rparr>\<rparr>"

definition console_in_use :: "bytes \<Rightarrow> bytes list con_world" where
  "console_in_use row = (console_boot ([] :: bytes list))
     \<lparr>vqs := (\<lambda>q. \<lparr>vq_num_bufs = 32, vq_queue_id = 2, vq_raw = (if q = cmd_input then cmd_input_raw else cmd_output_raw),
        vq_old_used_idx = (if q = cmd_input then 1 else 0), vq_vio = 0xa000000\<rparr>),
      raws := [cmd_input_raw \<mapsto> primed_raw, cmd_output_raw \<mapsto> demo_raw 0 0],
      dmem := (dmem (console_boot ([] :: bytes list)))(cmsg_buf 0 \<mapsto> row)\<rparr>"

lemma console_in_use_ok:
  "cmd_in 32 31 (console_in_use row)" "cmd_out (console_in_use row)" "borrowed 0 (console_in_use row)"
proof -
  have "the_raw cmd_input (console_in_use row) = primed_raw" by (simp add: the_raw_def console_in_use_def)
  then show "cmd_in 32 31 (console_in_use row)"
    by (simp add: cmd_in_def vq_ok_def) (simp add: console_in_use_def primed_raw_def raw_ok_def list_all_iff)
  show "cmd_out (console_in_use row)" "borrowed 0 (console_in_use row)"
    by (simp_all add: cmd_out_def vq_ok_def idle_def console_in_use_def demo_raw_def raw_ok_def list_all_iff borrowed_def slot_of_def)
qed

definition added_row :: bytes where
  "added_row = control_bytes 1 VIRTIO_CONSOLE_DEVICE_ADD '''' @ replicate 64 0"

lemma added_row_ok: "row_ok added_row" "event_of added_row sz = Added 1"
  by (simp_all add: added_row_def row_ok_def control_bytes_def bytes_of_console_control_def cstr_def get_bytes_def
    event_of_def console_control_of_bytes_def le_bytes_list VIRTIO_CONSOLE_DEVICE_ADD_def Let_def)

lemma console_in_use_rows: "row_ok row \<Longrightarrow> rows_ok (dmem (console_in_use row))"
  using console_boot_static [of "[] :: bytes list"] by (auto simp: con_static_def rows_ok_def console_in_use_def)


text \<open>
  Connecting a port. On a console in order, a port below 16 is marked as connected by the guest, and
  nothing else changes in the console; queues of ports that are in their invariant stay so, and if the
  host takes what is sent, the call returns.
\<close>

theorem virtio_console_connect_port_ready:
  assumes "con_host H" "T = mmio_ops H \<or> T = pci_ops log_msg junk H" "con_ok w" "port < 16"
    and "foreign q raw" "port_q flags q raw w"
  shows "ends (vq_live H cmd_output_raw) (\<lambda>_ w'. con_ok w' \<and> port_q flags q raw w' \<and>
      con_ports w' = (con_ports w)[unat port := (con_ports w ! unat port)\<lparr>guest_connected := True\<rparr>])
    (virtio_console_connect_port H T port qi qo w)"
  using assms(2) mmio_console.connect_port_ok [OF assms(1,3,4), of qi qo]
    mmio_console.connect_port_apart [OF assms(1,3,5,6), of port qi qo]
    pci_console.connect_port_ok [OF assms(1,3,4), of log_msg junk qi qo]
    pci_console.connect_port_apart [OF assms(1,3,5,6), of log_msg junk port qi qo]
  by (cases "virtio_console_connect_port H T port qi qo w") auto

text \<open>A console in order, with an input and an output queue beside it.\<close>

definition console_up :: "'e \<Rightarrow> 'e con_world" where
  "console_up msgs = (console_boot msgs)
     \<lparr>vqs := (\<lambda>q. \<lparr>vq_num_bufs = 32, vq_queue_id = 4,
        vq_raw = (if q = cmd_input then cmd_input_raw else if q = cmd_output then cmd_output_raw
          else if q = 0x51000100 then 0x51010000 else 0x51020000),
        vq_old_used_idx = 0, vq_vio = 0xa000000\<rparr>),
      raws := [cmd_input_raw \<mapsto> primed_raw\<lparr>vr_used := (vr_used primed_raw)\<lparr>vu_idx := 0\<rparr>\<rparr>, cmd_output_raw \<mapsto> demo_raw 0 0,
        0x51010000 \<mapsto> demo_raw 2 0, 0x51020000 \<mapsto> demo_raw 0 0],
      con_vio := 0xa000000\<rparr>"

lemma console_up_ok:
  "con_ok (console_up msgs)" "port_q VIRTQ_DESC_F_WRITE 0x51000100 0x51010000 (console_up msgs)"
  "port_q 0 0x51000200 0x51020000 (console_up msgs)"
proof -
  have "the_raw cmd_input (console_up msgs) = primed_raw\<lparr>vr_used := (vr_used primed_raw)\<lparr>vu_idx := 0\<rparr>\<rparr>"
    by (simp add: the_raw_def console_up_def)
  then have "cmd_in 32 32 (console_up msgs)"
    by (simp add: cmd_in_def vq_ok_def) (simp add: console_up_def primed_raw_def raw_ok_def list_all_iff)
  moreover have "cmd_out (console_up msgs)"
    by (simp add: cmd_out_def vq_ok_def idle_def console_up_def demo_raw_def raw_ok_def list_all_iff)
  moreover have "rows_ok (dmem (console_up msgs))" "ports_ok (con_ports (console_up msgs))"
    using console_boot_static [of msgs] by (simp_all add: con_static_def console_up_def)
  ultimately show "con_ok (console_up msgs)" by (simp add: con_ok_def)
  show "port_q VIRTQ_DESC_F_WRITE 0x51000100 0x51010000 (console_up msgs)" "port_q 0 0x51000200 0x51020000 (console_up msgs)"
    by (simp_all add: port_q_def vq_ok_def idle_def console_up_def demo_raw_def raw_ok_def list_all_iff VIRTQ_DESC_F_WRITE_def)
qed

lemma virtio_console_connect_port_ready_witness:
  "returns (\<lambda>_ w'. con_ok w' \<and> port_q 0 0x51000200 0x51020000 w' \<and> guest_connected (con_ports w' ! 3))
    (virtio_console_connect_port console_host (mmio_ops console_host) 3 0x51000100 0x51000200 (console_up ([] :: bytes list)))"
proof -
  let ?w = "console_up ([] :: bytes list)"
  have p: "con_ports ?w = replicate 16 blank_port" by (simp add: console_up_def console_boot_def)
  have "ends (vq_live console_host cmd_output_raw) (\<lambda>_ w'. con_ok w' \<and> port_q 0 0x51000200 0x51020000 w' \<and>
      con_ports w' = (con_ports ?w)[unat (3 :: u64) := (con_ports ?w ! unat (3 :: u64))\<lparr>guest_connected := True\<rparr>])
    (virtio_console_connect_port console_host (mmio_ops console_host) 3 0x51000100 0x51000200 ?w)"
    by (rule virtio_console_connect_port_ready [OF console_host_ok disjI1 [OF refl] console_up_ok(1) _ _ console_up_ok(3)])
       (simp_all add: foreign_def)
  then have "returns (\<lambda>_ w'. con_ok w' \<and> port_q 0 0x51000200 0x51020000 w' \<and>
      con_ports w' = (con_ports ?w)[unat (3 :: u64) := (con_ports ?w ! unat (3 :: u64))\<lparr>guest_connected := True\<rparr>])
    (virtio_console_connect_port console_host (mmio_ops console_host) 3 0x51000100 0x51000200 ?w)"
    by (simp only: console_host_live ends_returns simp_thms)
  then show ?thesis by (rule returns_mono) (simp add: p)
qed

text \<open>
  The layout of the queues. The queues of the sixteen ports and the two control queues have the
  numbers 0 to 33 without overlap: the pair of port 0, the control pair, the pairs of the other ports.
\<close>

theorem virtio_console_q_layout:
  "(let pair = (\<lambda>p. [virtio_console_q (of_nat p) + VIRTIO_CONSOLE_RX_OFFSET, virtio_console_q (of_nat p) + VIRTIO_CONSOLE_TX_OFFSET])
    in pair 0 @ [VIRTIO_CONSOLE_CTRL_RX, VIRTIO_CONSOLE_CTRL_TX] @ concat (map pair [1..<MAX_PORTS])) = map of_nat [0..<34]"
  by (simp add: upt_conv_Cons MAX_PORTS_def virtio_console_q_def VIRTIO_CONSOLE_RX_OFFSET_def VIRTIO_CONSOLE_TX_OFFSET_def
    VIRTIO_CONSOLE_CTRL_RX_def VIRTIO_CONSOLE_CTRL_TX_def)

text \<open>
  The size of a name message includes its header, so that the stored name is followed by the next eight
  bytes of the buffer, which an earlier message may have left there.
\<close>

lemma port_name_stale:
  assumes "length nm + length rest = 64" "length nm \<le> 55"
  shows "event_of (bytes_of_console_control \<lparr>cc_id = i, cc_event = VIRTIO_CONSOLE_PORT_NAME, cc_value = 1\<rparr> @ nm @ rest)
      (of_nat (8 + length nm)) = Named (unat i) (nm @ take 8 rest)"
proof -
  let ?m = "\<lparr>cc_id = i, cc_event = VIRTIO_CONSOLE_PORT_NAME, cc_value = 1\<rparr>"
  have b: "length (bytes_of_console_control ?m) = 8" by (simp add: bytes_of_console_control_def)
  have c: "console_control_of_bytes (bytes_of_console_control m @ xs) = m" for m xs
    by (cases m) (simp add: console_control_of_bytes_def bytes_of_console_control_def get_bytes_def)
  have n: "min (unat (of_nat (8 + length nm) :: u64)) 63 = 8 + length nm"
    using assms(2) by (simp add: unat_of_nat del: of_nat_add)
  have "get_bytes 8 (8 + length nm) (bytes_of_console_control ?m @ nm @ rest) = nm @ take 8 rest"
    using b by (simp add: get_bytes_def)
  with n show ?thesis
    by (simp add: event_of_def c Let_def VIRTIO_CONSOLE_PORT_NAME_def VIRTIO_CONSOLE_DEVICE_ADD_def VIRTIO_CONSOLE_DEVICE_REMOVE_def
      del: of_nat_add)
qed

end
