(* ===== verification/Runner_Sysdeps.thy ===== *)
theory Runner_Sysdeps
  imports Tipc_Prelude "HOL-Library.List_Lexorder"
begin

text \<open>
  The port of the system functions for the test runner, \<open>test-runner/test-runner-sysdeps.c\<close>: the
  memory and string functions as loops over a flat byte memory, and the two allocators, which hand
  out consecutive blocks and never take one back. The lemmas show that the loops do what the rest of
  the development assumes of \<open>trusty_memcpy\<close> and its relatives.
\<close>

section \<open>A flat memory\<close>

text \<open>
  The byte at an address, if there is an object. \<open>holds m a bs\<close>: the bytes from \<open>a\<close> on are \<open>bs\<close>;
  \<open>region a n\<close>: the \<open>n\<close> addresses from \<open>a\<close> on; \<open>store m a bs\<close>: \<open>bs\<close> written from \<open>a\<close> on.
\<close>

type_synonym bmem = "u64 \<rightharpoonup> u8"

primrec holds :: "bmem \<Rightarrow> u64 \<Rightarrow> bytes \<Rightarrow> bool" where
  "holds m a [] \<longleftrightarrow> True"
| "holds m a (b # bs) \<longleftrightarrow> m a = Some b \<and> holds m (a + 1) bs"

primrec region :: "u64 \<Rightarrow> nat \<Rightarrow> u64 set" where
  "region a 0 = {}"
| "region a (Suc n) = insert a (region (a + 1) n)"

primrec store :: "bmem \<Rightarrow> u64 \<Rightarrow> bytes \<Rightarrow> bmem" where
  "store m a [] = m"
| "store m a (b # bs) = store (m(a \<mapsto> b)) (a + 1) bs"

text \<open>A string in memory: its characters, none of them zero, and a zero behind them.\<close>

definition cstring_at :: "bmem \<Rightarrow> u64 \<Rightarrow> bytes \<Rightarrow> bool" where
  "cstring_at m a s \<longleftrightarrow> 0 \<notin> set s \<and> holds m a (s @ [0])"

section \<open>Memory and string functions\<close>

fun memcpy_loop :: "nat \<Rightarrow> u64 \<Rightarrow> u64 \<Rightarrow> bmem \<Rightarrow> (unit, bmem) outcome" where
  "memcpy_loop 0 d s m = Ret () m"
| "memcpy_loop (Suc count) d s m =
     (case m s of
        None \<Rightarrow> Fault
      | Some b \<Rightarrow> if m d = None then Fault else memcpy_loop count (d + 1) (s + 1) (m(d \<mapsto> b)))"

definition memcpy :: "u64 \<Rightarrow> u64 \<Rightarrow> u64 \<Rightarrow> bmem \<Rightarrow> (u64, bmem) outcome" where
  "memcpy dest src count m = obind (memcpy_loop (unat count) dest src m) (\<lambda>_ m. Ret dest m)"

fun memset_loop :: "nat \<Rightarrow> u64 \<Rightarrow> u8 \<Rightarrow> bmem \<Rightarrow> (unit, bmem) outcome" where
  "memset_loop 0 d c m = Ret () m"
| "memset_loop (Suc count) d c m =
     (if m d = None then Fault else memset_loop count (d + 1) c (m(d \<mapsto> c)))"

definition memset :: "u64 \<Rightarrow> int \<Rightarrow> u64 \<Rightarrow> bmem \<Rightarrow> (u64, bmem) outcome" where
  "memset dest c count m =
     obind (memset_loop (unat count) dest (word_of_int c) m) (\<lambda>_ m. Ret dest m)"

text \<open>The loops over strings are granted \<open>n\<close> further iterations after the first.\<close>

fun strcpy_loop :: "nat \<Rightarrow> u64 \<Rightarrow> u64 \<Rightarrow> bmem \<Rightarrow> (unit, bmem) outcome" where
  "strcpy_loop n dest src m =
     (case m src of
        None \<Rightarrow> Fault
      | Some b \<Rightarrow>
          if m dest = None then Fault
          else let m = m(dest \<mapsto> b) in
            if b \<noteq> 0 then (case n of 0 \<Rightarrow> NoFuel | Suc n' \<Rightarrow> strcpy_loop n' (dest + 1) (src + 1) m)
            else Ret () m)"

definition strcpy :: "nat \<Rightarrow> u64 \<Rightarrow> u64 \<Rightarrow> bmem \<Rightarrow> (u64, bmem) outcome" where
  "strcpy n dest src m = obind (strcpy_loop n dest src m) (\<lambda>_ m. Ret dest m)"

fun strlen_loop :: "nat \<Rightarrow> u64 \<Rightarrow> u64 \<Rightarrow> bmem \<Rightarrow> (u64, bmem) outcome" where
  "strlen_loop n s ret m =
     (case m s of
        None \<Rightarrow> Fault
      | Some b \<Rightarrow>
          if b \<noteq> 0 then (case n of 0 \<Rightarrow> NoFuel | Suc n' \<Rightarrow> strlen_loop n' (s + 1) (ret + 1) m)
          else Ret ret m)"

definition strlen :: "nat \<Rightarrow> u64 \<Rightarrow> bmem \<Rightarrow> (u64, bmem) outcome" where
  "strlen n s m = strlen_loop n s 0 m"

fun strcmp :: "nat \<Rightarrow> u64 \<Rightarrow> u64 \<Rightarrow> bmem \<Rightarrow> (int, bmem) outcome" where
  "strcmp n cs ct m =
     (case (m cs, m ct) of
        (Some x, Some y) \<Rightarrow>
          (let res = uint x - uint y in
           if res \<noteq> 0 \<or> x = 0 then Ret res m
           else (case n of 0 \<Rightarrow> NoFuel | Suc n' \<Rightarrow> strcmp n' (cs + 1) (ct + 1) m))
      | _ \<Rightarrow> Fault)"

section \<open>The allocators\<close>

definition HEAP_SIZE :: u64 where "HEAP_SIZE = 56 + 6 * 4"
definition PAGE_COUNT :: u32 where "PAGE_COUNT = 3"

record runner_alloc =
  heap_allocated :: int
  pages_allocated :: int

text \<open>\<open>heap\<close> and \<open>pages\<close> are the addresses of the arrays; the result 0 is \<open>NULL\<close>.\<close>

definition runner_calloc :: "u64 \<Rightarrow> u64 \<Rightarrow> u64 \<Rightarrow> runner_alloc \<Rightarrow> u64 \<times> runner_alloc" where
  "runner_calloc heap n sz st =
     (let asize = n * sz in
      if HEAP_SIZE < word_of_int (heap_allocated st) + asize then (0, st)
      else (heap + word_of_int (heap_allocated st),
            st\<lparr>heap_allocated := c_int (word_of_int (heap_allocated st) + asize)\<rparr>))"

definition runner_alloc_pages :: "u64 \<Rightarrow> u32 \<Rightarrow> runner_alloc \<Rightarrow> u64 \<times> runner_alloc" where
  "runner_alloc_pages pages count st =
     (if PAGE_COUNT < word_of_int (pages_allocated st) + count then (0, st)
      else (pages + word_of_int (pages_allocated st * 4096),
            st\<lparr>pages_allocated := c_int (word_of_int (pages_allocated st) + count)\<rparr>))"

declare strcpy_loop.simps [simp del] strlen_loop.simps [simp del] strcmp.simps [simp del]

section \<open>Lemmas: memory\<close>

lemma region_iff: "x \<in> region a n \<longleftrightarrow> (\<exists>i<n. x = a + of_nat i)"
proof (induction n arbitrary: a)
  case (Suc n)
  have "(\<exists>i<Suc n. x = a + of_nat i) \<longleftrightarrow> x = a \<or> (\<exists>i<n. x = a + of_nat (Suc i))"
    by (auto simp: less_Suc_eq_0_disj)
  with Suc show ?case by (auto simp: add.assoc)
qed simp

lemma region_numeral [simp]: "region a (numeral k) = insert a (region (a + 1) (pred_numeral k))"
  by (simp add: numeral_eq_Suc)

lemma region_start:
  assumes "n < 2 ^ 64"
  shows "a \<notin> region (a + 1) n"
proof
  assume "a \<in> region (a + 1) n"
  then obtain i where i: "i < n" "a = a + 1 + of_nat i" by (auto simp: region_iff)
  then have "(of_nat (Suc i) :: u64) = 0" by (simp add: add.assoc)
  moreover have "unat (of_nat (Suc i) :: u64) = Suc i"
    using i(1) assms by (simp only: unat_of_nat) simp
  ultimately show False by simp
qed

lemma holds_cong:
  "(\<And>x. x \<in> region a (length bs) \<Longrightarrow> m' x = m x) \<Longrightarrow> holds m' a bs = holds m a bs"
  by (induction bs arbitrary: a) simp_all

lemma holds_append: "holds m a (xs @ ys) \<longleftrightarrow> holds m a xs \<and> holds m (a + of_nat (length xs)) ys"
  by (induction xs arbitrary: a) (simp_all add: add.assoc)

lemma store_frame: "x \<notin> region a (length bs) \<Longrightarrow> store m a bs x = m x"
  by (induction bs arbitrary: a m) simp_all

lemma holds_store: "length bs < 2 ^ 64 \<Longrightarrow> holds (store m a bs) a bs"
proof (induction bs arbitrary: a m)
  case (Cons b bs)
  then have "a \<notin> region (a + 1) (length bs)" by (intro region_start) simp
  with Cons show ?case by (simp add: store_frame)
qed simp

lemma memcpy_loop_store:
  assumes "holds m s bs" "region d (length bs) \<inter> region s (length bs) = {}"
    and "region d (length bs) \<subseteq> dom m"
  shows "memcpy_loop (length bs) d s m = Ret () (store m d bs)"
  using assms
proof (induction bs arbitrary: d s m)
  case (Cons b bs)
  have h: "holds (m(d \<mapsto> b)) (s + 1) bs"
    using Cons.prems by (subst holds_cong [of _ _ _ m]) auto
  have d: "region (d + 1) (length bs) \<subseteq> dom (m(d \<mapsto> b))" using Cons.prems(3) by auto
  have "region (d + 1) (length bs) \<inter> region (s + 1) (length bs) = {}" using Cons.prems(2) by auto
  then have "memcpy_loop (length bs) (d + 1) (s + 1) (m(d \<mapsto> b)) = Ret () (store (m(d \<mapsto> b)) (d + 1) bs)"
    by (intro Cons.IH h d)
  moreover obtain y where "m d = Some y" using Cons.prems(3) by auto
  ultimately show ?case using Cons.prems(1) by simp
qed simp

lemma memset_loop_store:
  assumes "region d n \<subseteq> dom m"
  shows "memset_loop n d c m = Ret () (store m d (replicate n c))"
  using assms
proof (induction n arbitrary: d m)
  case (Suc n)
  then have "region (d + 1) n \<subseteq> dom (m(d \<mapsto> c))" by auto
  with Suc show ?case by auto
qed simp

lemma strcpy_loop_store:
  assumes "cstring_at m src s" "length s \<le> n"
    and "region d (Suc (length s)) \<inter> region src (Suc (length s)) = {}"
    and "region d (Suc (length s)) \<subseteq> dom m"
  shows "strcpy_loop n d src m = Ret () (store m d (s @ [0]))"
  using assms
proof (induction s arbitrary: n d src m)
  case Nil
  then show ?case by (auto simp: cstring_at_def strcpy_loop.simps)
next
  case (Cons b s)
  then obtain n' where n: "n = Suc n'" by (cases n) auto
  have "holds (m(d \<mapsto> b)) (src + 1) (s @ [0])"
    using Cons.prems by (subst holds_cong [of _ _ _ m]) (auto simp: cstring_at_def)
  then have h: "cstring_at (m(d \<mapsto> b)) (src + 1) s" using Cons.prems(1) by (simp add: cstring_at_def)
  have d: "region (d + 1) (Suc (length s)) \<subseteq> dom (m(d \<mapsto> b))" using Cons.prems(4) by auto
  have r: "region (d + 1) (Suc (length s)) \<inter> region (src + 1) (Suc (length s)) = {}"
    using Cons.prems(3) by auto
  have "length s \<le> n'" using Cons.prems(2) n by simp
  then have "strcpy_loop n' (d + 1) (src + 1) (m(d \<mapsto> b)) = Ret () (store (m(d \<mapsto> b)) (d + 1) (s @ [0]))"
    by (intro Cons.IH h r d)
  moreover obtain y where "m d = Some y" using Cons.prems(4) by auto
  ultimately show ?case using Cons.prems(1) n
    by (simp add: cstring_at_def strcpy_loop.simps [of "Suc n'"])
qed

lemma strlen_loop_length:
  "cstring_at m a s \<Longrightarrow> length s \<le> n \<Longrightarrow> strlen_loop n a ret m = Ret (ret + of_nat (length s)) m"
proof (induction s arbitrary: n a ret)
  case Nil
  then show ?case by (simp add: cstring_at_def strlen_loop.simps)
next
  case (Cons b s)
  then obtain n' where n: "n = Suc n'" by (cases n) auto
  from Cons n show ?case by (simp add: cstring_at_def strlen_loop.simps [of "Suc n'"])
qed

lemma strcmp_order:
  assumes "cstring_at m a s" "cstring_at m b t" "length s \<le> n"
  shows "\<exists>r. strcmp n a b m = Ret r m \<and> (r = 0 \<longleftrightarrow> s = t) \<and> (r < 0 \<longleftrightarrow> s < t)"
  using assms
proof (induction s arbitrary: n a b t)
  case Nil
  have "0 < uint x" if "x \<noteq> 0" for x :: u8 using that by (simp add: word_gt_0 flip: word_less_def [of 0, simplified])
  with Nil show ?case by (cases t) (auto simp: cstring_at_def strcmp.simps [of n] Let_def uint_0_iff)
next
  case (Cons x s)
  then obtain n' where n: "n = Suc n'" by (cases n) auto
  from Cons.prems(1) have x: "m a = Some x" "x \<noteq> 0" "cstring_at m (a + 1) s" by (auto simp: cstring_at_def)
  show ?case
  proof (cases t)
    case Nil
    with Cons.prems(2) have "m b = Some 0" by (simp add: cstring_at_def)
    with x n Nil show ?thesis by (simp add: strcmp.simps [of "Suc n'"] Let_def uint_0_iff)
  next
    case (Cons y t')
    with Cons.prems(2) have y: "m b = Some y" "cstring_at m (b + 1) t'" by (auto simp: cstring_at_def)
    show ?thesis
    proof (cases "x = y")
      case True
      from Cons.IH [OF x(3) y(2)] Cons.prems(3) n obtain r where
        "strcmp n' (a + 1) (b + 1) m = Ret r m" "r = 0 \<longleftrightarrow> s = t'" "r < 0 \<longleftrightarrow> s < t'" by auto
      with True x y n Cons show ?thesis by (simp add: strcmp.simps [of "Suc n'"] Let_def)
    next
      case False
      with x y n Cons show ?thesis
        by (simp add: strcmp.simps [of "Suc n'"] Let_def word_less_def word_uint_eq_iff)
    qed
  qed
qed

lemma region_append: "region a (n + k) = region a n \<union> region (a + of_nat n) k"
  by (induction n arbitrary: a) (auto simp: add.assoc)

lemma holds_dom: "holds m a bs \<Longrightarrow> region a (length bs) \<subseteq> dom m"
  by (induction bs arbitrary: a) auto

text \<open>Writing into an object is \<open>put_bytes\<close> on its content.\<close>

lemma holds_put_bytes:
  assumes "holds m a buf" "off + length bs \<le> length buf" "length buf \<le> 2 ^ 64" "length bs < 2 ^ 64"
  shows "holds (store m (a + of_nat off) bs) a (put_bytes off bs buf)"
proof -
  let ?m = "store m (a + of_nat off) bs"
  define pre post where "pre = take off buf" and "post = drop (off + length bs) buf"
  define mid where "mid = take (length bs) (drop off buf)"
  have buf: "buf = pre @ mid @ post"
    by (simp add: pre_def mid_def post_def) (metis append_take_drop_id drop_drop add.commute)
  have len: "length pre = off" "length mid = length bs" using assms(2) by (simp_all add: pre_def mid_def)
  have at: "x = a + of_nat i \<Longrightarrow> i < length buf \<Longrightarrow> x \<in> region (a + of_nat off) (length bs) \<Longrightarrow>
      off \<le> i \<and> i < off + length bs" for x i
  proof -
    assume x: "x = a + of_nat i" "i < length buf" "x \<in> region (a + of_nat off) (length bs)"
    then obtain j where j: "j < length bs" "a + of_nat i = a + of_nat off + of_nat j" by (auto simp: region_iff)
    then have "(of_nat i :: u64) = of_nat (off + j)" by (simp add: add.assoc)
    then have "unat (of_nat i :: u64) = unat (of_nat (off + j) :: u64)" by (rule arg_cong)
    then have "i mod 2 ^ 64 = (off + j) mod 2 ^ 64" by (simp only: unat_of_nat) simp
    moreover have "i < 2 ^ 64" "off + j < 2 ^ 64" using x(2) j(1) assms(2,3) by linarith+
    ultimately have "i = off + j" by simp
    with j(1) show ?thesis by simp
  qed
  have pre: "holds ?m a pre"
  proof (subst holds_cong [of _ _ _ m])
    fix x assume "x \<in> region a (length pre)"
    then obtain i where "i < off" "x = a + of_nat i" by (auto simp: region_iff len)
    with at [of x i] assms(2) show "?m x = m x" by (intro store_frame) auto
  qed (use assms(1) in \<open>simp add: buf holds_append\<close>)
  have "holds ?m (a + of_nat (off + length bs)) post"
  proof (subst holds_cong [of _ _ _ m])
    fix x assume "x \<in> region (a + of_nat (off + length bs)) (length post)"
    then obtain i where "i < length post" "x = a + of_nat (off + length bs + i)" by (auto simp: region_iff add.assoc)
    moreover from this have "off + length bs + i < length buf" by (simp add: post_def)
    ultimately show "?m x = m x" using at [of x "off + length bs + i"] by (intro store_frame) auto
  qed (use assms(1) in \<open>simp add: buf holds_append len add.assoc\<close>)
  with pre holds_store [OF assms(4), of m "a + of_nat off"] show ?thesis
    by (simp add: put_bytes_def holds_append len add.assoc flip: pre_def post_def)
qed

section \<open>Properties\<close>

text \<open>
  C27: \<open>memcpy\<close> and \<open>memset\<close> of the test runner are the byte region operations. Copying \<open>bs\<close> from a
  source that does not overlap the target into an object with content \<open>buf\<close>, at offset \<open>off\<close>,
  returns the target address, leaves \<open>put_bytes off bs buf\<close> in the object and changes nothing outside
  of the target bytes; \<open>memset\<close> does the same with a repeated byte.
\<close>

theorem runner_mem_functions:
  assumes "holds m a buf" "off + unat n \<le> length buf" "length buf \<le> 2 ^ 64"
    and "holds m s bs" "length bs = unat n" "region (a + of_nat off) (unat n) \<inter> region s (unat n) = {}"
  shows "returns (\<lambda>r m'. r = a + of_nat off \<and> holds m' a (put_bytes off bs buf) \<and>
        (\<forall>x. x \<notin> region (a + of_nat off) (unat n) \<longrightarrow> m' x = m x)) (memcpy (a + of_nat off) s n m) \<and>
    returns (\<lambda>r m'. r = a + of_nat off \<and> holds m' a (put_bytes off (replicate (unat n) (word_of_int c)) buf) \<and>
        (\<forall>x. x \<notin> region (a + of_nat off) (unat n) \<longrightarrow> m' x = m x)) (memset (a + of_nat off) c n m)"
proof
  have n: "unat n < 2 ^ 64" using unsigned_less [of n, where 'a = nat] by simp
  from assms(2) obtain k where k: "length buf = off + unat n + k" by (metis le_Suc_ex)
  have dom: "region (a + of_nat off) (unat n) \<subseteq> dom m"
    using holds_dom [OF assms(1)] unfolding k region_append by auto
  have "memcpy_loop (unat n) (a + of_nat off) s m = Ret () (store m (a + of_nat off) bs)"
    using memcpy_loop_store [OF assms(4)] assms(5,6) dom by simp
  with holds_put_bytes [OF assms(1) _ assms(3), of off bs] assms(2,5) n
  show "returns (\<lambda>r m'. r = a + of_nat off \<and> holds m' a (put_bytes off bs buf) \<and>
      (\<forall>x. x \<notin> region (a + of_nat off) (unat n) \<longrightarrow> m' x = m x)) (memcpy (a + of_nat off) s n m)"
    by (auto simp: memcpy_def intro: store_frame)
  let ?bs = "replicate (unat n) (word_of_int c :: u8)"
  have "memset_loop (unat n) (a + of_nat off) (word_of_int c) m = Ret () (store m (a + of_nat off) ?bs)"
    by (rule memset_loop_store [OF dom])
  with holds_put_bytes [OF assms(1) _ assms(3), of off ?bs] assms(2) n
  show "returns (\<lambda>r m'. r = a + of_nat off \<and> holds m' a (put_bytes off ?bs buf) \<and>
      (\<forall>x. x \<notin> region (a + of_nat off) (unat n) \<longrightarrow> m' x = m x)) (memset (a + of_nat off) c n m)"
    by (auto simp: memset_def intro: store_frame)
qed

lemma runner_mem_functions_witness:
  "returns (\<lambda>r m'. r = 0x101 \<and> holds m' 0x100 [1, 8, 9, 4])
     (memcpy 0x101 0x200 2 (store (store Map.empty 0x100 [1, 2, 3, 4]) 0x200 [8, 9]))"
proof -
  let ?m = "store (store Map.empty 0x100 [1, 2, 3, 4]) 0x200 [8, 9] :: bmem"
  have "holds ?m 0x100 [1, 2, 3, 4]" "holds ?m 0x200 [8, 9]" by simp_all
  moreover have "region (0x100 + of_nat 1) (unat (2 :: u64)) \<inter> region 0x200 (unat (2 :: u64)) = {}"
    by simp
  ultimately have "returns (\<lambda>r m'. r = 0x100 + of_nat 1 \<and> holds m' 0x100 (put_bytes 1 [8, 9] [1, 2, 3, 4]) \<and>
      (\<forall>x. x \<notin> region (0x100 + of_nat 1) (unat (2 :: u64)) \<longrightarrow> m' x = ?m x)) (memcpy (0x100 + of_nat 1) 0x200 2 ?m)"
    by (intro runner_mem_functions [THEN conjunct1]) simp_all
  then have "returns (\<lambda>r m'. r = 0x101 \<and> holds m' 0x100 [1, 8, 9, 4]) (memcpy (0x100 + of_nat 1) 0x200 2 ?m)"
    by (rule returns_mono) (simp add: put_bytes_def)
  then show ?thesis by simp
qed

text \<open>
  The string functions of the test runner. For strings that are in memory and loops that may run
  over them, \<open>strlen\<close> returns the length; \<open>strcmp\<close> is zero exactly on equal strings and negative
  exactly when the first is smaller in the dictionary order of unsigned bytes; \<open>strcpy\<close> to a place
  that does not overlap writes the string with its terminator there and nothing else.
\<close>

theorem runner_string_functions:
  assumes "cstring_at m a s" "cstring_at m b t" "length s \<le> n"
    and "region d (Suc (length s)) \<inter> region a (Suc (length s)) = {}"
    and "region d (Suc (length s)) \<subseteq> dom m" "Suc (length s) < 2 ^ 64"
  shows "strlen n a m = Ret (of_nat (length s)) m \<and>
    returns (\<lambda>r m'. m' = m \<and> (r = 0 \<longleftrightarrow> s = t) \<and> (r < 0 \<longleftrightarrow> s < t)) (strcmp n a b m) \<and>
    returns (\<lambda>r m'. r = d \<and> cstring_at m' d s \<and>
      (\<forall>x. x \<notin> region d (Suc (length s)) \<longrightarrow> m' x = m x)) (strcpy n d a m)"
proof (intro conjI)
  show "strlen n a m = Ret (of_nat (length s)) m"
    using strlen_loop_length [OF assms(1,3), of 0] by (simp add: strlen_def)
  show "returns (\<lambda>r m'. m' = m \<and> (r = 0 \<longleftrightarrow> s = t) \<and> (r < 0 \<longleftrightarrow> s < t)) (strcmp n a b m)"
    using strcmp_order [OF assms(1-3)] by (auto simp: returns_iff)
  have "holds (store m d (s @ [0])) d (s @ [0])" using assms(6) by (intro holds_store) simp
  with strcpy_loop_store [OF assms(1,3-5)] assms(1)
  show "returns (\<lambda>r m'. r = d \<and> cstring_at m' d s \<and>
      (\<forall>x. x \<notin> region d (Suc (length s)) \<longrightarrow> m' x = m x)) (strcpy n d a m)"
    by (auto simp: strcpy_def cstring_at_def intro!: store_frame)
qed

lemma runner_string_functions_witness:
  "returns (\<lambda>r m'. r < 0)
     (strcmp 2 0x100 0x200 (store (store (store Map.empty 0x100 [5, 6, 0]) 0x200 [5, 7, 0]) 0x300 [0, 0, 0]))"
proof -
  let ?m = "store (store (store Map.empty 0x100 [5, 6, 0]) 0x200 [5, 7, 0]) 0x300 [0, 0, 0] :: bmem"
  have "cstring_at ?m 0x100 [5, 6]" "cstring_at ?m 0x200 [5, 7]"
    "region 0x300 (Suc (length [5, 6 :: u8])) \<inter> region 0x100 (Suc (length [5, 6 :: u8])) = {}"
    "region 0x300 (Suc (length [5, 6 :: u8])) \<subseteq> dom ?m" by (simp_all add: cstring_at_def)
  then have "returns (\<lambda>r m'. m' = ?m \<and> (r = 0 \<longleftrightarrow> [5, 6] = [5, 7 :: u8]) \<and> (r < 0 \<longleftrightarrow> [5, 6] < [5, 7 :: u8]))
      (strcmp 2 0x100 0x200 ?m)"
    by (intro runner_string_functions [where d = "0x300", THEN conjunct2, THEN conjunct1]) simp_all
  then show ?thesis by (rule returns_mono) simp
qed

text \<open>
  The allocators on offsets: \<open>bump used limit n\<close> is the offset of the new block, if there is room.
\<close>

definition alloc_ok :: "runner_alloc \<Rightarrow> bool" where
  "alloc_ok st \<longleftrightarrow> 0 \<le> heap_allocated st \<and> heap_allocated st \<le> 80 \<and>
     0 \<le> pages_allocated st \<and> pages_allocated st \<le> 3"

lemma runner_calloc_room:
  assumes "alloc_ok st" "unat n * unat sz < 2 ^ 64 - 80"
  shows "runner_calloc heap n sz st =
    (if nat (heap_allocated st) + unat n * unat sz \<le> 80
     then (heap + word_of_int (heap_allocated st),
           st\<lparr>heap_allocated := heap_allocated st + int (unat n * unat sz)\<rparr>)
     else (0, st))"
proof -
  let ?a = "nat (heap_allocated st)" and ?k = "unat n * unat sz"
  have a: "heap_allocated st = int ?a" "?a \<le> 80" using assms(1) by (auto simp: alloc_ok_def)
  have "unat (n * sz) = ?k" using assms(2) by (simp add: unat_word_ariths(2))
  moreover have "unat (of_nat ?a :: u64) = ?a" using a(2) by (simp add: unat_of_nat)
  ultimately have u: "unat (of_nat ?a + n * sz) = ?a + ?k"
    using a(2) assms(2) by (simp add: unat_word_ariths(1))
  have "\<not> HEAP_SIZE < of_nat ?a + n * sz \<longleftrightarrow> ?a + ?k \<le> 80"
    by (simp add: word_less_nat_alt u HEAP_SIZE_def not_less)
  moreover have "c_int (of_nat ?a + n * sz) = int (?a + ?k)" if "?a + ?k \<le> 80"
    using that c_int_of_nat [of "?a + ?k"] unfolding u [symmetric] by (simp add: u)
  ultimately show ?thesis
    using a(1) by (auto simp: runner_calloc_def Let_def)
qed

lemma runner_alloc_pages_room:
  assumes "alloc_ok st" "unat count < 2 ^ 32 - 3"
  shows "runner_alloc_pages pages count st =
    (if nat (pages_allocated st) + unat count \<le> 3
     then (pages + word_of_int (pages_allocated st * 4096),
           st\<lparr>pages_allocated := pages_allocated st + int (unat count)\<rparr>)
     else (0, st))"
proof -
  let ?a = "nat (pages_allocated st)" and ?k = "unat count"
  have a: "pages_allocated st = int ?a" "?a \<le> 3" using assms(1) by (auto simp: alloc_ok_def)
  then have "unat (of_nat ?a :: u32) = ?a" by (simp add: unat_of_nat)
  then have u: "unat (of_nat ?a + count) = ?a + ?k"
    using a(2) assms(2) by (simp add: unat_word_ariths(1))
  have "\<not> PAGE_COUNT < of_nat ?a + count \<longleftrightarrow> ?a + ?k \<le> 3"
    by (simp add: word_less_nat_alt u PAGE_COUNT_def not_less)
  moreover have "c_int (of_nat ?a + count) = int (?a + ?k)" if "?a + ?k \<le> 3"
    using that c_int_of_nat_u32 [of "?a + ?k"] unfolding u [symmetric] by (simp add: u)
  ultimately show ?thesis
    using a(1) by (auto simp: runner_alloc_pages_def)
qed

text \<open>
  A run of heap requests, as the list of the blocks handed out: their offsets in the heap and sizes.
\<close>

fun calloc_run :: "u64 \<Rightarrow> (u64 \<times> u64) list \<Rightarrow> runner_alloc \<Rightarrow> (u64 \<times> nat) list" where
  "calloc_run heap [] st = []"
| "calloc_run heap ((n, sz) # reqs) st =
     (case runner_calloc heap n sz st of
        (p, st') \<Rightarrow> if p = 0 then calloc_run heap reqs st'
                    else (p - heap, unat n * unat sz) # calloc_run heap reqs st')"

lemma calloc_run_blocks:
  assumes "alloc_ok st" "list_all (\<lambda>(n, sz). unat n * unat sz < 2 ^ 64 - 80) reqs"
    and "0 < heap" "unat heap < 2 ^ 64 - 80"
  shows "list_all (\<lambda>(p, k). nat (heap_allocated st) \<le> unat p \<and> unat p + k \<le> 80) (calloc_run heap reqs st) \<and>
    sorted_wrt (\<lambda>(p, k) (q, _). unat p + k \<le> unat q) (calloc_run heap reqs st)"
  using assms(1,2)
proof (induction reqs arbitrary: st)
  case (Cons r reqs)
  obtain n sz where r: "r = (n, sz)" by (cases r)
  let ?a = "nat (heap_allocated st)" and ?k = "unat n * unat sz"
  have a: "heap_allocated st = int ?a" "?a \<le> 80" using Cons.prems(1) by (auto simp: alloc_ok_def)
  have k: "?k < 2 ^ 64 - 80" using Cons.prems(2) r by simp
  have p: "unat (of_nat ?a :: u64) = ?a" using a(2) by (simp add: unat_of_nat)
  have p2: "word_of_int (heap_allocated st) = (of_nat ?a :: u64)" by (metis a(1) of_int_of_nat_eq)
  have "unat (heap + of_nat ?a) = unat heap + ?a" using p a(2) assms(4) by (simp add: unat_word_ariths(1))
  then have nz: "heap + of_nat ?a \<noteq> 0" using assms(3) by (auto simp: word_less_nat_alt simp flip: unat_eq_zero)
  show ?case
  proof (cases "?a + ?k \<le> 80")
    case True
    let ?st = "st\<lparr>heap_allocated := heap_allocated st + int ?k\<rparr>"
    have "0 \<le> heap_allocated st + int ?k \<and> heap_allocated st + int ?k \<le> 80" using a(1) True by linarith
    then have ok: "alloc_ok ?st" using Cons.prems(1) by (simp add: alloc_ok_def)
    have "nat (heap_allocated st + int ?k) = ?a + ?k" using a(1) by linarith
    then have na: "nat (heap_allocated ?st) = ?a + ?k" by simp
    have c: "calloc_run heap (r # reqs) st = (of_nat ?a, ?k) # calloc_run heap reqs ?st"
      using runner_calloc_room [OF Cons.prems(1) k] True nz by (simp add: r p2)
    from Cons.IH [OF ok] Cons.prems(2) r have
      "list_all (\<lambda>(p, j). ?a + ?k \<le> unat p \<and> unat p + j \<le> 80) (calloc_run heap reqs ?st)"
      "sorted_wrt (\<lambda>(p, k) (q, _). unat p + k \<le> unat q) (calloc_run heap reqs ?st)"
      unfolding na by simp_all
    then show ?thesis unfolding c using True p by (auto simp: list_all_iff)
  next
    case False
    with runner_calloc_room [OF Cons.prems(1) k] Cons.IH [OF Cons.prems(1)] Cons.prems(2) r show ?thesis by simp
  qed
qed simp



text \<open>
  Without the restriction the size wraps: a request of 2 to the 64 less 8 bytes succeeds and moves the
  allocation mark back, so that later blocks overlap earlier ones.
\<close>

lemma runner_calloc_wraps:
  "runner_calloc heap 1 (- 8) \<lparr>heap_allocated = 56, pages_allocated = 0\<rparr> =
     (heap + 56, \<lparr>heap_allocated = 48, pages_allocated = 0\<rparr>)"
  by (simp add: runner_calloc_def HEAP_SIZE_def c_int_def Let_def)

end
