(* ===== verification/Runner_Comm.thy ===== *)
theory Runner_Comm
  imports Virtio_Console Runner_Sysdeps
begin

text \<open>
  The test runner's communication port, \<open>test-runner/test-runner-comm-port.c\<close> with \<open>include/utils.h\<close>: the
  command line comes from the host over the input queue of the port \<open>testrunner0\<close>, log texts and the
  exit status go to it over the output queue, in messages of 64 bytes.
\<close>

section \<open>Strings in arrays\<close>

text \<open>\<open>trusty_strcmp\<close> on the contents of two arrays; \<open>None\<close> when it runs out of one of them.\<close>

fun bstrcmp :: "bytes \<Rightarrow> bytes \<Rightarrow> int option" where
  "bstrcmp (x # xs) (y # ys) =
     (let res = uint x - uint y in if res \<noteq> 0 \<or> x = 0 then Some res else bstrcmp xs ys)"
| "bstrcmp _ _ = None"

lemma strcmp_bstrcmp:
  assumes "holds m a xs" "holds m b ys" "bstrcmp xs ys = Some r" "length xs \<le> n"
  shows "strcmp n a b m = Ret r m"
  using assms
proof (induction xs ys arbitrary: a b n rule: bstrcmp.induct)
  case (1 x xs y ys)
  then obtain n' where n: "n = Suc n'" by (cases n) auto
  from 1 show ?case by (auto simp: strcmp.simps [of "Suc n'"] Let_def n split: if_splits)
qed simp_all

section \<open>Data\<close>

definition MSG_LOG :: u8 where "MSG_LOG = 0"
definition MSG_EXIT :: u8 where "MSG_EXIT = 1"
definition TESTRUNNER0_BUF_SIZE :: u64 where "TESTRUNNER0_BUF_SIZE = 64"

text \<open>The size of \<open>struct msg\<close> without the text, and the offsets of its fields.\<close>

abbreviation (input) SIZEOF_msg :: u64 where "SIZEOF_msg \<equiv> 2"
abbreviation (input) OFF_log_size :: nat where "OFF_log_size \<equiv> 1"
abbreviation (input) OFF_log_data :: nat where "OFF_log_data \<equiv> 2"
abbreviation (input) OFF_exit_status :: nat where "OFF_exit_status \<equiv> 1"

definition testruner_msg_devname :: bytes where
  "testruner_msg_devname = cstr ''testrunner0'' @ [0]"

abbreviation comm_input :: u64 where "comm_input \<equiv> 0x51000100"
abbreviation comm_output :: u64 where "comm_output \<equiv> 0x51000200"
abbreviation comm_input_raw :: u64 where "comm_input_raw \<equiv> 0x51010000"
abbreviation comm_output_raw :: u64 where "comm_output_raw \<equiv> 0x51020000"
abbreviation msg_buf :: u64 where "msg_buf \<equiv> 0x58001000"

section \<open>Operations\<close>

text \<open>Writing bytes at an offset of a data buffer.\<close>

definition write_buf_at :: "u64 \<Rightarrow> nat \<Rightarrow> bytes \<Rightarrow> ('e, 'z) con_world_scheme \<Rightarrow> (unit, 'e, 'z) con" where
  "write_buf_at a off bs w =
     (case dmem w a of None \<Rightarrow> Fault
      | Some b \<Rightarrow> if length b < off + length bs then Fault
          else Ret () (w\<lparr>dmem := (dmem w)(a \<mapsto> put_bytes off bs b)\<rparr>))"

fun testrunner_msg_scan_loop :: "nat \<Rightarrow> nat \<Rightarrow> ('e, 'z) con_world_scheme \<Rightarrow> (int, 'e, 'z) con" where
  "testrunner_msg_scan_loop 0 i w = Ret (- 1) w"
| "testrunner_msg_scan_loop (Suc n) i w =
     (if length (con_ports w) \<le> i then Fault else
      case bstrcmp testruner_msg_devname (port_name (con_ports w ! i)) of
        None \<Rightarrow> Fault
      | Some r \<Rightarrow>
          if r = 0 then Ret (if \<not> host_connected (con_ports w ! i) then - 1 else int i) w
          else testrunner_msg_scan_loop n (Suc i) w)"

definition testrunner_msg_scan :: "('e, 'z) con_world_scheme \<Rightarrow> (int, 'e, 'z) con" where
  "testrunner_msg_scan w = testrunner_msg_scan_loop MAX_PORTS 0 w"

definition init_log :: "'e host \<Rightarrow> ('e, 'z) con_ops \<Rightarrow> ('e, 'z) con_world_scheme \<Rightarrow> (int, 'e, 'z) con" where
  "init_log H T w =
     obind (testrunner_msg_scan w) (\<lambda>port_id w.
     if port_id < 0 then Ret (- 1) w else
     obind (vq_init comm_input comm_input_raw (con_vio w) True w) (\<lambda>_ w.
     obind (vq_init comm_output comm_output_raw (con_vio w) False w) (\<lambda>_ w.
     obind (virtio_console_connect_port H T (word_of_int port_id) comm_input comm_output w) (\<lambda>_ w.
     Ret 0 w))))"

definition host_get_cmdline ::
  "'e host \<Rightarrow> ('e, 'z) con_ops \<Rightarrow> u64 \<Rightarrow> u64 \<Rightarrow> ('e, 'z) con_world_scheme \<Rightarrow> (u64, 'e, 'z) con"
where
  "host_get_cmdline H T buf sz w =
     (if vq_raw (vqs w comm_input) \<noteq> 0 then
        obind (recv_vq H (vo_kick T) comm_input buf sz w) (\<lambda>n w.
        let len = word_of_int n :: u32;
            len = ucast (min (sz - 1) (ucast len)) :: u32 in
        obind (write_buf_at buf (unat len) [0] w) (\<lambda>_ w.
        Ret (ucast len) w))
      else Ret 0 w)"

function log_buf_loop ::
  "'e host \<Rightarrow> ('e, 'z) con_ops \<Rightarrow> bytes \<Rightarrow> u64 \<Rightarrow> u64 \<Rightarrow> ('e, 'z) con_world_scheme \<Rightarrow> (unit, 'e, 'z) con"
where
  "log_buf_loop H T buf remain offset w =
     (if remain = 0 then Ret () w else
      let copied = min (TESTRUNNER0_BUF_SIZE - SIZEOF_msg) remain in
      obind (write_buf_at msg_buf OFF_log_size [ucast copied] w) (\<lambda>_ w.
      if length buf < unat offset + unat copied then Fault else
      obind (write_buf_at msg_buf OFF_log_data (get_bytes (unat offset) (unat copied) buf) w) (\<lambda>_ w.
      obind (send_vq H (vo_kick T) comm_output msg_buf TESTRUNNER0_BUF_SIZE w) (\<lambda>_ w.
      log_buf_loop H T buf (remain - copied) (offset + copied) w))))"
  by pat_completeness auto
termination
proof (relation "measure (\<lambda>(H, T, buf, remain, offset, w). unat remain)")
  fix remain copied :: u64
  assume "remain \<noteq> 0" "copied = min (TESTRUNNER0_BUF_SIZE - SIZEOF_msg) remain"
  then have "0 < unat copied" "unat copied \<le> unat remain"
    by (auto simp: TESTRUNNER0_BUF_SIZE_def min_def unat_gt_0 word_le_nat_alt)
  then have "unat (remain - copied) < unat remain"
    by (simp add: unat_sub word_le_nat_alt)
  then show "((H, T, buf, remain - copied, offset + copied, w), H, T, buf, remain, offset, w')
      \<in> measure (\<lambda>(H, T, buf, remain, offset, w). unat remain)" for H T buf offset w w' by simp
qed simp

definition log_buf ::
  "'e host \<Rightarrow> ('e, 'z) con_ops \<Rightarrow> bytes \<Rightarrow> u64 \<Rightarrow> ('e, 'z) con_world_scheme \<Rightarrow> (unit, 'e, 'z) con"
where
  "log_buf H T buf sz w =
     obind (write_buf_at msg_buf 0 [MSG_LOG] w) (\<lambda>_ w. log_buf_loop H T buf sz 0 w)"

definition host_exit :: "'e host \<Rightarrow> ('e, 'z) con_ops \<Rightarrow> u32 \<Rightarrow> ('e, 'z) con_world_scheme \<Rightarrow> (unit, 'e, 'z) con" where
  "host_exit H T code w =
     obind (write_buf_at msg_buf 0 [MSG_EXIT] w) (\<lambda>_ w.
     obind (write_buf_at msg_buf OFF_exit_status [ucast code] w) (\<lambda>_ w.
     obind (send_vq H (vo_kick T) comm_output msg_buf TESTRUNNER0_BUF_SIZE w) (\<lambda>_ w.
     Ret () w)))"

text \<open>A text is the content of the array behind the pointer.\<close>

definition log_msg :: "'e host \<Rightarrow> ('e, 'z) con_ops \<Rightarrow> string \<Rightarrow> ('e, 'z) con_world_scheme \<Rightarrow> (unit, 'e, 'z) con" where
  "log_msg H T msg w =
     log_buf H T (cstr msg @ [0]) (of_nat (length (takeWhile (\<lambda>b. b \<noteq> 0) (cstr msg @ [0])))) w"

definition abort_msg :: "'e host \<Rightarrow> ('e, 'z) con_ops \<Rightarrow> string \<Rightarrow> ('e, 'z) con_world_scheme \<Rightarrow> (unit, 'e, 'z) con" where
  "abort_msg H T msg w = obind (log_msg H T msg w) (\<lambda>_ w. host_exit H T 2 w)"

declare log_buf_loop.simps [simp del]

section \<open>Log messages\<close>

text \<open>
  The texts of at most 62 bytes a log call is cut into, the 64 byte messages that carry them when the
  message buffer held \<open>prev\<close> before, the text of a message, and sending messages one after the other.
\<close>

function log_chunks :: "bytes \<Rightarrow> bytes list" where
  "log_chunks xs = (if xs = [] then [] else take 62 xs # log_chunks (drop 62 xs))"
  by pat_completeness auto
termination by (relation "measure length") auto

declare log_chunks.simps [simp del]

definition log_message :: "bytes \<Rightarrow> bytes \<Rightarrow> bytes" where
  "log_message prev c = put_bytes OFF_log_size (of_nat (length c) # c) prev"

fun log_messages :: "bytes \<Rightarrow> bytes list \<Rightarrow> bytes list" where
  "log_messages prev [] = []"
| "log_messages prev (c # cs) = log_message prev c # log_messages (log_message prev c) cs"

definition log_text :: "bytes \<Rightarrow> bytes" where
  "log_text m = take (unat (m ! 1)) (drop 2 m)"

fun send_msgs :: "'e host \<Rightarrow> ('e, 'z) con_ops \<Rightarrow> bytes list \<Rightarrow> ('e, 'z) con_world_scheme \<Rightarrow> (unit, 'e, 'z) con" where
  "send_msgs H T [] w = Ret () w"
| "send_msgs H T (m # ms) w =
     obind (send_vq H (vo_kick T) comm_output msg_buf TESTRUNNER0_BUF_SIZE (w\<lparr>dmem := (dmem w)(msg_buf \<mapsto> m)\<rparr>)) (\<lambda>_ w.
     send_msgs H T ms w)"

lemma concat_log_chunks: "concat (log_chunks xs) = xs"
  by (induction xs rule: log_chunks.induct) (simp add: log_chunks.simps)

lemma log_chunks_length: "c \<in> set (log_chunks xs) \<Longrightarrow> c \<noteq> [] \<and> length c \<le> 62"
proof (induction xs rule: log_chunks.induct)
  case (1 xs)
  from 1(2) show ?case
    by (subst (asm) log_chunks.simps) (use 1(1) in \<open>auto split: if_splits\<close>)
qed

lemma length_log_message [simp]: "length prev = 64 \<Longrightarrow> length c \<le> 62 \<Longrightarrow> length (log_message prev c) = 64"
  by (simp add: log_message_def)

lemma log_message_parts:
  assumes "length prev = 64" "length c \<le> 62"
  shows "log_text (log_message prev c) = c" "log_message prev c ! 0 = prev ! 0"
proof -
  have n: "unat (of_nat (length c) :: u8) = length c" using assms(2) by (simp add: unat_of_nat)
  have m: "log_message prev c = prev ! 0 # of_nat (length c) # c @ drop (2 + length c) prev"
    using assms(1) by (cases prev) (simp_all add: log_message_def put_bytes_def)
  show "log_text (log_message prev c) = c" "log_message prev c ! 0 = prev ! 0"
    by (simp_all add: log_text_def m n)
qed

lemma log_messages_texts:
  assumes "length prev = 64" "\<forall>c\<in>set cs. length c \<le> 62"
  shows "map log_text (log_messages prev cs) = cs"
    "list_all (\<lambda>m. length m = 64 \<and> m ! 0 = prev ! 0) (log_messages prev cs)"
proof -
  have "map log_text (log_messages prev cs) = cs \<and>
      list_all (\<lambda>m. length m = 64 \<and> m ! 0 = prev ! 0) (log_messages prev cs)"
    using assms
  proof (induction cs arbitrary: prev)
    case (Cons c cs)
    then show ?case using Cons.IH [of "log_message prev c"] by (simp add: log_message_parts)
  qed simp
  then show "map log_text (log_messages prev cs) = cs"
    "list_all (\<lambda>m. length m = 64 \<and> m ! 0 = prev ! 0) (log_messages prev cs)" by simp_all
qed

text \<open>The host leaves the message buffer, which it may only read, as it is.\<close>

definition leaves :: "'e host \<Rightarrow> u64 \<Rightarrow> bool" where
  "leaves H a \<longleftrightarrow> (\<forall>b. host_keeps H (\<lambda>d. d a = Some b))"

lemma port_q_dmem: "port_q flags q raw (w\<lparr>dmem := d\<rparr>) = port_q flags q raw w"
  by (simp add: port_q_cong [of "w\<lparr>dmem := d\<rparr>" q w])

lemma write_buf_at_ok:
  "dmem w a = Some b \<Longrightarrow> off + length bs \<le> length b \<Longrightarrow>
   write_buf_at a off bs w = Ret () (w\<lparr>dmem := (dmem w)(a \<mapsto> put_bytes off bs b)\<rparr>)"
  by (simp add: write_buf_at_def)

context console_device begin

lemma send_leaves:
  assumes "host_ok H" "leaves H msg_buf" "port_q 0 comm_output raw w" "dmem w msg_buf = Some m"
  shows "ends (vq_live H raw) (\<lambda>_ w'. port_q 0 comm_output raw w' \<and> dmem w' msg_buf = Some m)
    (send_vq H (vo_kick (T H)) comm_output msg_buf TESTRUNNER0_BUF_SIZE w)"
  by (rule ends_mono [OF port_send [OF assms(1,3)]])
     (use assms(2,4) in \<open>auto simp: TESTRUNNER0_BUF_SIZE_def port_step_def leaves_def\<close>)

lemma log_buf_loop_messages:
  assumes "host_ok H" "leaves H msg_buf" "port_q 0 comm_output raw w" "dmem w msg_buf = Some prev" "length prev = 64"
    and "unat offset + unat remain = length buf" "length buf < 2 ^ 64"
  shows "log_buf_loop H (T H) buf remain offset w = send_msgs H (T H) (log_messages prev (log_chunks (drop (unat offset) buf))) w"
  using assms(3-6)
proof (induction "unat remain" arbitrary: remain offset w prev rule: less_induct)
  case less
  show ?case
  proof (cases "remain = 0")
    case True
    with less.prems show ?thesis by (simp add: log_buf_loop.simps log_chunks.simps)
  next
    case False
    define c where "c = take 62 (drop (unat offset) buf)"
    define copied where "copied = min (TESTRUNNER0_BUF_SIZE - SIZEOF_msg) remain"
    have n: "unat copied = min 62 (unat remain)"
      by (simp add: copied_def TESTRUNNER0_BUF_SIZE_def min_def word_le_nat_alt)
    have pos: "0 < unat remain" using False by (simp add: unat_gt_0)
    have len: "length c = unat copied" "length (drop (unat offset) buf) = unat remain"
      using less.prems(4) n by (simp_all add: c_def)
    have c: "get_bytes (unat offset) (unat copied) buf = c"
      using n len by (simp add: c_def get_bytes_def min_def)
    have u: "unat (offset + copied) = unat offset + unat copied" "unat (remain - copied) = unat remain - unat copied"
      using less.prems(4) assms(7) n by (simp_all add: unat_add_lem [THEN iffD1] unat_sub word_le_nat_alt)
    have le: "unat offset + unat copied \<le> length buf" "length c \<le> 62" using less.prems(4) n len(1) by auto
    have size: "(ucast copied :: u8) = of_nat (length c)" by (simp add: len)
    let ?w = "w\<lparr>dmem := (dmem w)(msg_buf \<mapsto> log_message prev c)\<rparr>"
    have put: "put_bytes 2 c (put_bytes 1 [of_nat (length c)] prev) = log_message prev c"
      using less.prems(3) len n put_bytes_append [of 1 "[of_nat (length c)]" c prev]
      by (simp add: log_message_def numeral_2_eq_2)
    have "log_buf_loop H (T H) buf remain offset w =
        obind (send_vq H (vo_kick (T H)) comm_output msg_buf TESTRUNNER0_BUF_SIZE ?w)
          (\<lambda>_ w. log_buf_loop H (T H) buf (remain - copied) (offset + copied) w)"
      using False less.prems(2,3) le put
      by (subst log_buf_loop.simps)
         (simp add: Let_def write_buf_at_ok [of _ _ prev] write_buf_at_ok [of _ _ "put_bytes 1 [of_nat (length c)] prev"]
           c size not_less del: One_nat_def flip: copied_def)
    also have "\<dots> = obind (send_vq H (vo_kick (T H)) comm_output msg_buf TESTRUNNER0_BUF_SIZE ?w)
        (\<lambda>_ w. send_msgs H (T H) (log_messages (log_message prev c) (log_chunks (drop (unat (offset + copied)) buf))) w)"
    proof (rule obind_cong [OF refl])
      fix a w' assume s: "send_vq H (vo_kick (T H)) comm_output msg_buf TESTRUNNER0_BUF_SIZE ?w = Ret a w'"
      have "port_q 0 comm_output raw w' \<and> dmem w' msg_buf = Some (log_message prev c)"
        using ends_on_ret [OF send_leaves [OF assms(1,2), of raw ?w "log_message prev c"]] s less.prems(1)
        by (simp add: port_q_dmem)
      then show "log_buf_loop H (T H) buf (remain - copied) (offset + copied) w' =
          send_msgs H (T H) (log_messages (log_message prev c) (log_chunks (drop (unat (offset + copied)) buf))) w'"
        using less.prems(3,4) u n pos len(1) by (intro less.hyps) simp_all
    qed
    also have "drop (unat (offset + copied)) buf = drop 62 (drop (unat offset) buf)"
      using u(1) n len(2) by (cases "62 \<le> unat remain") (simp_all add: add.commute)
    moreover have "log_chunks (drop (unat offset) buf) = c # log_chunks (drop 62 (drop (unat offset) buf))"
      using len(2) pos by (subst log_chunks.simps) (auto simp: c_def)
    ultimately show ?thesis by (simp only: log_messages.simps send_msgs.simps)
  qed
qed

end

section \<open>The port in order\<close>

definition comm_ok :: "('e, 'z) con_world_scheme \<Rightarrow> bool" where
  "comm_ok w \<longleftrightarrow> port_q VIRTQ_DESC_F_WRITE comm_input comm_input_raw w \<and> port_q 0 comm_output comm_output_raw w \<and>
     (\<exists>b. dmem w msg_buf = Some b \<and> length b = 64)"

lemma comm_ok_dmem:
  "comm_ok w \<Longrightarrow> dmem w msg_buf = Some b \<Longrightarrow> length m = length b \<Longrightarrow> comm_ok (w\<lparr>dmem := (dmem w)(msg_buf \<mapsto> m)\<rparr>)"
  by (simp add: comm_ok_def port_q_dmem)

lemma leaves_step: "port_step H q raw w w' \<Longrightarrow> leaves H a \<Longrightarrow> dmem w a = Some b \<Longrightarrow> dmem w' a = Some b"
  by (auto simp: port_step_def leaves_def)

context console_device begin

lemma comm_send:
  assumes "host_ok H" "leaves H msg_buf" "comm_ok w"
  shows "ends (vq_live H comm_output_raw) (\<lambda>_. comm_ok) (send_vq H (vo_kick (T H)) comm_output msg_buf TESTRUNNER0_BUF_SIZE w)"
proof -
  from assms(3) have o: "port_q 0 comm_output comm_output_raw w" by (simp add: comm_ok_def)
  have "comm_ok w'" if "port_q 0 comm_output comm_output_raw w'" "port_step H comm_output comm_output_raw w w'" for w'
  proof -
    have "port_q VIRTQ_DESC_F_WRITE comm_input comm_input_raw w'"
      using assms(3) that(2) by (simp add: comm_ok_def port_step_def)
    with assms(3) that leaves_step [OF that(2) assms(2)] show ?thesis by (auto simp: comm_ok_def)
  qed
  then show ?thesis
    by (intro ends_mono [OF port_send [OF assms(1) o]]) (simp_all add: TESTRUNNER0_BUF_SIZE_def)
qed

lemma send_msgs_ok:
  assumes "host_ok H" "leaves H msg_buf" "comm_ok w" "list_all (\<lambda>m. length m = 64) ms"
  shows "ends (vq_live H comm_output_raw) (\<lambda>_. comm_ok) (send_msgs H (T H) ms w)"
  using assms(3,4)
proof (induction ms arbitrary: w)
  case (Cons m ms)
  then have "comm_ok (w\<lparr>dmem := (dmem w)(msg_buf \<mapsto> m)\<rparr>)" by (auto simp: comm_ok_def port_q_dmem)
  then show ?case using Cons by (auto intro!: ends_bind [OF comm_send [OF assms(1,2)]])
qed simp

lemma log_buf_messages:
  assumes "host_ok H" "leaves H msg_buf" "comm_ok w" "dmem w msg_buf = Some b" "unat n = length buf"
  defines "ms \<equiv> log_messages (put_bytes 0 [MSG_LOG] b) (log_chunks buf)"
  shows "log_buf H (T H) buf n w = send_msgs H (T H) ms (w\<lparr>dmem := (dmem w)(msg_buf \<mapsto> put_bytes 0 [MSG_LOG] b)\<rparr>)"
    and "concat (map log_text ms) = buf" "list_all (\<lambda>m. length m = 64 \<and> m ! 0 = MSG_LOG) ms"
proof -
  have b: "length b = 64" using assms(3,4) by (auto simp: comm_ok_def)
  have n: "length buf < 2 ^ 64" using unsigned_less [of n, where 'a = nat] assms(5) by simp
  let ?w = "w\<lparr>dmem := (dmem w)(msg_buf \<mapsto> put_bytes 0 [MSG_LOG] b)\<rparr>"
  have "port_q 0 comm_output comm_output_raw ?w" using assms(3) by (simp add: comm_ok_def port_q_dmem)
  from log_buf_loop_messages [OF assms(1,2) this, of "put_bytes 0 [MSG_LOG] b" 0 n buf]
  show "log_buf H (T H) buf n w = send_msgs H (T H) ms ?w"
    using assms(4,5) b n by (simp add: log_buf_def ms_def write_buf_at_ok)
  have p: "length (put_bytes 0 [MSG_LOG] b) = 64" "put_bytes 0 [MSG_LOG] b ! 0 = MSG_LOG"
    using b by (simp_all add: put_bytes_def)
  have short: "\<forall>c\<in>set (log_chunks buf). length c \<le> 62" using log_chunks_length by blast
  show "concat (map log_text ms) = buf"
    using log_messages_texts(1) [OF p(1) short] by (simp add: ms_def concat_log_chunks)
  show "list_all (\<lambda>m. length m = 64 \<and> m ! 0 = MSG_LOG) ms"
    using log_messages_texts(2) [OF p(1) short] p(2) by (simp add: ms_def)
qed

lemma log_buf_ok:
  assumes "host_ok H" "leaves H msg_buf" "comm_ok w" "unat n = length buf"
  shows "ends (vq_live H comm_output_raw) (\<lambda>_. comm_ok) (log_buf H (T H) buf n w)"
proof -
  from assms(3) obtain b where b: "dmem w msg_buf = Some b" "length b = 64" by (auto simp: comm_ok_def)
  note m = log_buf_messages [OF assms(1-3) b(1) assms(4)]
  show ?thesis
    unfolding m(1) using m(3) b
    by (intro send_msgs_ok [OF assms(1,2) comm_ok_dmem [OF assms(3) b(1)]]) (auto simp: list_all_iff)
qed

text \<open>What follows the text in its array does not matter.\<close>

lemma log_buf_loop_take:
  assumes "unat offset + unat remain = k" "k \<le> length buf" "length buf < 2 ^ 64"
  shows "log_buf_loop H (T H) buf remain offset w = log_buf_loop H (T H) (take k buf) remain offset w"
  using assms(1)
proof (induction "unat remain" arbitrary: remain offset w rule: less_induct)
  case less
  define copied where "copied = min (TESTRUNNER0_BUF_SIZE - SIZEOF_msg) remain"
  have n: "unat copied = min 62 (unat remain)"
    by (simp add: copied_def TESTRUNNER0_BUF_SIZE_def min_def word_le_nat_alt)
  have u: "unat (offset + copied) = unat offset + unat copied" "unat (remain - copied) = unat remain - unat copied"
    using less.prems assms(2,3) n by (simp_all add: unat_add_lem [THEN iffD1] unat_sub word_le_nat_alt)
  have g: "get_bytes (unat offset) (unat copied) (take k buf) = get_bytes (unat offset) (unat copied) buf"
    using less.prems n by (simp add: get_bytes_def drop_take)
  have rest: "log_buf_loop H (T H) buf (remain - copied) (offset + copied) w' =
      log_buf_loop H (T H) (take k buf) (remain - copied) (offset + copied) w'" if "remain \<noteq> 0" for w'
    using less.prems u n that by (intro less.hyps) (auto simp: unat_gt_0)
  have le: "unat offset + unat copied \<le> k" using less.prems n by auto
  show ?case
    using rest le assms(2)
    by (subst (1 2) log_buf_loop.simps) (simp add: Let_def g not_less min_absorb2 flip: copied_def cong: obind_cong)
qed

lemma log_buf_take:
  "unat n \<le> length buf \<Longrightarrow> length buf < 2 ^ 64 \<Longrightarrow> log_buf H (T H) buf n w = log_buf H (T H) (take (unat n) buf) n w"
  by (simp add: log_buf_def log_buf_loop_take [of 0 n "unat n" buf])

lemma log_msg_ok:
  assumes "host_ok H" "leaves H msg_buf" "comm_ok w" "length s < 2 ^ 63"
  shows "ends (vq_live H comm_output_raw) (\<lambda>_. comm_ok) (log_msg H (T H) s w)"
proof -
  let ?n = "length (takeWhile (\<lambda>b. b \<noteq> 0) (cstr s @ [0]))"
  have "?n \<le> length (cstr s @ [0])" by (rule length_takeWhile_le)
  then have n: "unat (of_nat ?n :: u64) = ?n" "?n \<le> length (cstr s @ [0])" "length (cstr s @ [0]) < 2 ^ 64"
    using assms(4) by (simp_all add: cstr_def unat_of_nat)
  show ?thesis
    unfolding log_msg_def
    by (subst log_buf_take) (use n in \<open>auto intro!: log_buf_ok [OF assms(1-3)]\<close>)
qed

lemma host_exit_ok:
  assumes "host_ok H" "leaves H msg_buf" "comm_ok w" "dmem w msg_buf = Some b"
  shows "host_exit H (T H) code w = send_msgs H (T H) [put_bytes 0 [MSG_EXIT, ucast code] b] w"
    and "ends (vq_live H comm_output_raw) (\<lambda>_. comm_ok) (host_exit H (T H) code w)"
proof -
  have b: "length b = 64" using assms(3,4) by (auto simp: comm_ok_def)
  have "put_bytes 1 [ucast code] (put_bytes 0 [MSG_EXIT] b) = put_bytes 0 [MSG_EXIT, ucast code] b"
    using put_bytes_append [of 0 "[MSG_EXIT]" "[ucast code]" b] b by simp
  then show e: "host_exit H (T H) code w = send_msgs H (T H) [put_bytes 0 [MSG_EXIT, ucast code] b] w"
    using assms(4) b by (simp add: host_exit_def write_buf_at_def ext [of "send_msgs H (T H) []" "Ret ()"])
  show "ends (vq_live H comm_output_raw) (\<lambda>_. comm_ok) (host_exit H (T H) code w)"
    unfolding e using b by (intro send_msgs_ok [OF assms(1-3)]) simp
qed

lemma abort_msg_ok:
  assumes "host_ok H" "leaves H msg_buf" "comm_ok w" "length s < 2 ^ 63"
  shows "ends (vq_live H comm_output_raw) (\<lambda>_. comm_ok) (abort_msg H (T H) s w)"
  unfolding abort_msg_def
proof (rule ends_bind [OF log_msg_ok [OF assms]])
  fix w' :: "('e, 'z) con_world_scheme"
  assume ok: "comm_ok w'"
  then obtain b where "dmem w' msg_buf = Some b" by (auto simp: comm_ok_def)
  then show "ends (vq_live H comm_output_raw) (\<lambda>_. comm_ok) (host_exit H (T H) 2 w')"
    by (rule host_exit_ok(2) [OF assms(1,2) ok])
qed

end

section \<open>Finding the port\<close>

text \<open>\<open>named s p\<close>: the port's array holds the string \<open>s\<close> with its terminating zero.\<close>

definition named :: "bytes \<Rightarrow> port \<Rightarrow> bool" where
  "named s p \<longleftrightarrow> take (Suc (length s)) (port_name p) = s @ [0]"

lemma bstrcmp_named:
  assumes "0 \<notin> set s" "0 \<in> set ys"
  shows "\<exists>r. bstrcmp (s @ [0]) ys = Some r \<and> (r = 0 \<longleftrightarrow> take (Suc (length s)) ys = s @ [0])"
  using assms
proof (induction s arbitrary: ys)
  case Nil
  then show ?case by (cases ys) (auto simp: Let_def uint_0_iff)
next
  case (Cons x s)
  then obtain y ys' where ys: "ys = y # ys'" by (cases ys) auto
  show ?case
  proof (cases "x = y")
    case True
    with Cons.prems ys have "0 \<in> set ys'" "0 \<notin> set s" "x \<noteq> 0" by auto
    with Cons.IH [of ys'] True ys show ?thesis by (simp add: Let_def)
  next
    case False
    with ys show ?thesis by (simp add: Let_def word_uint_eq_iff)
  qed
qed

lemma port_name_cmp:
  assumes "ports_ok ps" "i < length ps" "0 \<notin> set s"
  shows "\<exists>r. bstrcmp (s @ [0]) (port_name (ps ! i)) = Some r \<and> (r = 0 \<longleftrightarrow> named s (ps ! i))"
  using assms bstrcmp_named [OF assms(3), of "port_name (ps ! i)"]
  by (simp add: ports_ok_def port_ok_def list_all_length named_def)

lemma testrunner_name: "testruner_msg_devname = cstr ''testrunner0'' @ [0]" "0 \<notin> set (cstr ''testrunner0'')"
  by (simp_all add: testruner_msg_devname_def cstr_def)

lemma testrunner_msg_scan_find:
  assumes "ports_ok (con_ports w)"
  shows "testrunner_msg_scan w = Ret (case find (\<lambda>i. named (cstr ''testrunner0'') (con_ports w ! i)) [0..<16] of
      None \<Rightarrow> - 1 | Some i \<Rightarrow> if host_connected (con_ports w ! i) then int i else - 1) w"
proof -
  let ?P = "\<lambda>i. named (cstr ''testrunner0'') (con_ports w ! i)"
  have "testrunner_msg_scan_loop n i w = Ret (case find ?P [i..<16] of
      None \<Rightarrow> - 1 | Some i \<Rightarrow> if host_connected (con_ports w ! i) then int i else - 1) w"
    if "i + n = 16" for n i
    using that
  proof (induction n arbitrary: i)
    case (Suc n)
    then have i: "i < length (con_ports w)" "[i..<16] = i # [Suc i..<16]"
      using assms by (simp_all add: ports_ok_def MAX_PORTS_def upt_conv_Cons)
    obtain r where "bstrcmp testruner_msg_devname (port_name (con_ports w ! i)) = Some r" "r = 0 \<longleftrightarrow> ?P i"
      using port_name_cmp [OF assms i(1) testrunner_name(2)] unfolding testrunner_name(1) by blast
    with Suc i show ?case by auto
  qed simp
  from this [of 0 16] show ?thesis by (simp add: testrunner_msg_scan_def MAX_PORTS_def)
qed

section \<open>Starting the log\<close>

text \<open>Initialising two queues of a port: nothing of the console changes.\<close>

lemma con_state_init:
  assumes "con_state H \<beta> n k ps w" "foreign q raw"
  shows "con_state H \<beta> n k ps (after_init q raw vio flags r w)"
proof -
  let ?w = "after_init q raw vio flags r w"
  have "vqs ?w cmd_input = vqs w cmd_input" "vqs ?w cmd_output = vqs w cmd_output"
    "raws ?w cmd_input_raw = raws w cmd_input_raw" "raws ?w cmd_output_raw = raws w cmd_output_raw"
    "vw_host ?w = vw_host w" "dmem ?w = dmem w" "con_ports ?w = con_ports w"
    using assms(2) by (auto simp: after_init_def foreign_def)
  moreover from assms(1) have c: "cmd_in n k w" "cmd_out w" "budget H \<beta> w" "vq_raw (vqs w cmd_input) = cmd_input_raw"
    "vq_raw (vqs w cmd_output) = cmd_output_raw"
    by (simp_all add: con_state_def cmd_in_def cmd_out_def)
  ultimately have "cmd_in n k ?w" "cmd_out ?w" "budget H \<beta> ?w"
    by (intro cmd_in_cong [OF _ _ c(1)] cmd_out_cong [OF _ _ c(2)] budget_cong [OF _ _ _ c(3)], simp_all)+
  then show ?thesis
    using assms(1) by (simp add: con_state_def after_init_def)
qed

lemma port_q_init:
  assumes "raw_static q raw w" "raws w raw = Some r"
  shows "port_q flags q raw (after_init q raw vio flags r w)"
    and "q' \<noteq> q \<Longrightarrow> raw' \<noteq> raw \<Longrightarrow> port_q flags' q' raw' w \<Longrightarrow> port_q flags' q' raw' (after_init q raw vio flags r w)"
    and "q' \<noteq> q \<Longrightarrow> raw' \<noteq> raw \<Longrightarrow> raw_static q' raw' w \<Longrightarrow> raw_static q' raw' (after_init q raw vio flags r w)"
  using assms after_init_ok [where r = r and flags = flags and q = q and raw = raw and vio = vio and w = w]
  by (auto simp: port_q_def raw_static_def after_init_def vq_ok_def idle_def)

definition port_static :: "u64 \<Rightarrow> u64 \<Rightarrow> u64 \<Rightarrow> u64 \<Rightarrow> ('e, 'z) vio_world_scheme \<Rightarrow> bool" where
  "port_static qi ri qo ro w \<longleftrightarrow> raw_static qi ri w \<and> raw_static qo ro w \<and>
     foreign qi ri \<and> foreign qo ro \<and> qi \<noteq> qo \<and> ri \<noteq> ro"

lemma port_queues_init:
  assumes "con_ok w" "port_static qi ri qo ro w"
  shows "\<exists>w1 w2. vq_init qi ri vio True w = Ret () w1 \<and> vq_init qo ro vio False w1 = Ret () w2 \<and> con_ok w2 \<and>
    port_q VIRTQ_DESC_F_WRITE qi ri w2 \<and> port_q 0 qo ro w2 \<and> con_ports w2 = con_ports w \<and> con_vio w2 = con_vio w \<and> dmem w2 = dmem w"
proof -
  from assms(2) obtain r1 r2 where r: "raws w ri = Some r1" "raw_size r1" "raws w ro = Some r2" "raw_size r2"
    by (auto simp: port_static_def raw_static_def)
  note p = assms(2) [unfolded port_static_def]
  let ?w1 = "after_init qi ri vio VIRTQ_DESC_F_WRITE r1 w"
  let ?w2 = "after_init qo ro vio 0 r2 ?w1"
  have r2: "raws ?w1 ro = Some r2" using r p by (auto simp: after_init_def)
  have i: "vq_init qi ri vio True w = Ret () ?w1" "vq_init qo ro vio False ?w1 = Ret () ?w2"
    using vq_init_ok [OF r(1,2)] vq_init_ok [OF r2 r(4)] by simp_all
  have s1: "raw_static qo ro ?w1" using port_q_init(3) [of qi ri w r1 qo ro] p r by blast
  have "con_state H (\<lambda>\<mu>. backlog \<mu> w) 32 32 (con_ports w) ?w2" for H
    using assms(1) p by (intro con_state_init) (simp_all add: con_ok_state [of w H])
  moreover have "port_q VIRTQ_DESC_F_WRITE qi ri ?w2" "port_q 0 qo ro ?w2"
    using port_q_init(1) [of qi ri w r1] port_q_init(1) [OF s1 r2] port_q_init(2) [OF s1 r2, of qi ri] p r by auto
  moreover have "con_ports ?w2 = con_ports w" "con_vio ?w2 = con_vio w" "dmem ?w2 = dmem w"
    by (simp_all add: after_init_def)
  ultimately show ?thesis
    using i assms(1) by (intro exI [of _ ?w1] exI [of _ ?w2]) (simp add: con_ok_def con_state_def)
qed

context console_device begin

lemma connect_queues:
  assumes "con_host H" "con_ok w" "port_q VIRTQ_DESC_F_WRITE qi ri w" "port_q 0 qo ro w" "foreign qi ri" "foreign qo ro" "port < 16"
  shows "ends (vq_live H cmd_output_raw) (\<lambda>_ w'. con_ok w' \<and> port_q VIRTQ_DESC_F_WRITE qi ri w' \<and> port_q 0 qo ro w' \<and>
      con_ports w' = (con_ports w)[unat port := (con_ports w ! unat port)\<lparr>guest_connected := True\<rparr>])
    (virtio_console_connect_port H (T H) port qi qo w)"
  using connect_port_ok [OF assms(1,2,7), of qi qo] connect_port_apart [OF assms(1,2,5,3), of port qi qo]
    connect_port_apart [OF assms(1,2,6,4), of port qi qo]
  by (cases "virtio_console_connect_port H (T H) port qi qo w") auto

text \<open>The common part of \<open>init_log\<close> and \<open>init_virtio_rpmb\<close>: the queues of a port are made and it is connected.\<close>

lemma open_port:
  assumes "con_host H" "con_ok w" "port_static qi ri qo ro w" "i < 16"
  shows "ends (vq_live H cmd_output_raw) (\<lambda>_ w'. con_ok w' \<and> port_q VIRTQ_DESC_F_WRITE qi ri w' \<and> port_q 0 qo ro w' \<and>
      con_ports w' = (con_ports w)[i := (con_ports w ! i)\<lparr>guest_connected := True\<rparr>])
    (obind (vq_init qi ri (con_vio w) True w) (\<lambda>_ w.
     obind (vq_init qo ro (con_vio w) False w) (\<lambda>_ w.
     virtio_console_connect_port H (T H) (word_of_int (int i)) qi qo w)))"
proof -
  from assms(4) have u: "unat (word_of_int (int i) :: u64) = i" "(word_of_int (int i) :: u64) < 16"
    by (simp_all add: unat_of_nat word_less_nat_alt)
  obtain w1 w2 where w: "vq_init qi ri (con_vio w) True w = Ret () w1" "vq_init qo ro (con_vio w) False w1 = Ret () w2"
    "con_ok w2" "port_q VIRTQ_DESC_F_WRITE qi ri w2" "port_q 0 qo ro w2" "con_ports w2 = con_ports w"
    using port_queues_init [OF assms(2,3), of "con_vio w"] by blast
  have "con_vio w1 = con_vio w"
    using w(1) assms(3) vq_init_ok [of w ri _ qi "con_vio w" True]
    by (auto simp: port_static_def raw_static_def after_init_def)
  moreover have "foreign qi ri" "foreign qo ro" using assms(3) by (simp_all add: port_static_def)
  ultimately show ?thesis
    using w(1,2) connect_queues [OF assms(1) w(3-5) _ _ u(2), unfolded u(1) w(6)] by simp
qed

end

lemma port_stepD: "port_step H q raw w w' \<Longrightarrow> host_keeps H D \<Longrightarrow> D (dmem w) \<Longrightarrow> D (dmem w')"
  using port_step_def [THEN iffD1, THEN conjunct2, THEN conjunct1, THEN spec [of _ D]] by blast

context console_device begin

lemma init_log_ok:
  assumes "con_host H" "con_ok w" "port_static comm_input comm_input_raw comm_output comm_output_raw w"
  shows "ends (vq_live H cmd_output_raw) (\<lambda>r w'. con_ok w' \<and>
      (case find (\<lambda>i. named (cstr ''testrunner0'') (con_ports w ! i)) [0..<16] of
         None \<Rightarrow> r = - 1 \<and> w' = w
       | Some i \<Rightarrow> if \<not> host_connected (con_ports w ! i) then r = - 1 \<and> w' = w
           else r = 0 \<and> port_q VIRTQ_DESC_F_WRITE comm_input comm_input_raw w' \<and> port_q 0 comm_output comm_output_raw w' \<and>
             con_ports w' = (con_ports w)[i := (con_ports w ! i)\<lparr>guest_connected := True\<rparr>]))
    (init_log H (T H) w)"
proof -
  have ps: "ports_ok (con_ports w)" using assms(2) by (simp add: con_ok_def)
  let ?found = "find (\<lambda>i. named (cstr ''testrunner0'') (con_ports w ! i)) [0..<16]"
  show ?thesis
  proof (cases "\<exists>i. ?found = Some i \<and> host_connected (con_ports w ! i)")
    case False
    with assms(2) show ?thesis
      by (auto simp: init_log_def testrunner_msg_scan_find [OF ps] split: option.split)
  next
    case True
    then obtain i where i: "?found = Some i" "host_connected (con_ports w ! i)" by blast
    then have "i < 16" by (auto simp: find_Some_iff)
    have "init_log H (T H) w = obind
        (obind (vq_init comm_input comm_input_raw (con_vio w) True w) (\<lambda>_ w.
         obind (vq_init comm_output comm_output_raw (con_vio w) False w) (\<lambda>_ w.
         virtio_console_connect_port H (T H) (word_of_int (int i)) comm_input comm_output w))) (\<lambda>_ w. Ret 0 w)"
      using i by (simp add: init_log_def testrunner_msg_scan_find [OF ps] obind_assoc)
    then show ?thesis
      by (simp only:, intro ends_bind [OF open_port [OF assms \<open>i < 16\<close>]]) (use i in auto)
  qed
qed

lemma host_get_cmdline_ok:
  assumes "host_ok H" "leaves H msg_buf" "host_keeps H (\<lambda>d. map_option length (d buf) = Some (unat n))"
    and "comm_ok w" "map_option length (dmem w buf) = Some (unat n)" "n \<noteq> 0" "buf \<noteq> msg_buf"
  shows "ends (vq_live H comm_input_raw) (\<lambda>l w'. l < n \<and> comm_ok w' \<and>
      (\<exists>b. dmem w' buf = Some b \<and> length b = unat n \<and> b ! unat l = 0)) (host_get_cmdline H (T H) buf n w)"
proof -
  let ?Q = "\<lambda>l w'. l < n \<and> comm_ok w' \<and> (\<exists>b. dmem w' buf = Some b \<and> length b = unat n \<and> b ! unat l = 0)"
  have i: "port_q VIRTQ_DESC_F_WRITE comm_input comm_input_raw w" using assms(4) by (simp add: comm_ok_def)
  have fin: "ends l ?Q (let len = ucast (min (n - 1) (ucast (word_of_int (uint k) :: u32))) :: u32 in
      obind (write_buf_at buf (unat len) [0] w') (\<lambda>_ w. Ret (ucast len) w))"
    if "port_q VIRTQ_DESC_F_WRITE comm_input comm_input_raw w'" "port_step H comm_input comm_input_raw w w'"
    for l and k :: u32 and w' :: "('e, 'z) con_world_scheme"
  proof -
    define m where "m = min (n - 1) (ucast k)"
    have m: "unat (ucast m :: u32) = unat m" "unat m < unat n" "(ucast (ucast m :: u32) :: u64) = m"
    proof -
      have "unat (n - 1) < unat n" using assms(6) by (simp add: unat_minus_one unat_gt_0)
      moreover have "unat m \<le> unat (n - 1)" "unat m \<le> unat k"
        by (simp_all add: m_def min_def word_le_nat_alt unsigned_ucast_eq)
      moreover have "unat k < 2 ^ 32" using unsigned_less [of k, where 'a = nat] by simp
      ultimately show "unat m < unat n" "unat (ucast m :: u32) = unat m" by (simp_all add: unsigned_ucast_eq take_bit_nat_eq_self)
      then show "(ucast (ucast m :: u32) :: u64) = m"
        by (simp add: word_unat_eq_iff unsigned_ucast_eq unsigned_take_bit_eq)
    qed
    have "port_q 0 comm_output comm_output_raw w'" using assms(4) that(2) by (simp add: comm_ok_def port_step_def)
    moreover obtain b where b: "dmem w msg_buf = Some b" "length b = 64" using assms(4) by (auto simp: comm_ok_def)
    ultimately have ok: "comm_ok w'" using that(1) leaves_step [OF that(2) assms(2) b(1)] b(2) by (simp add: comm_ok_def)
    have "map_option length (dmem w' buf) = Some (unat n)" by (rule port_stepD [OF that(2) assms(3,5)])
    then obtain c where c: "dmem w' buf = Some c" "length c = unat n" by auto
    have "comm_ok (w'\<lparr>dmem := (dmem w')(buf \<mapsto> put_bytes (unat m) [0] c)\<rparr>)"
      using ok assms(7) by (simp add: comm_ok_def port_q_dmem)
    with c m show ?thesis
      by (simp add: write_buf_at_def m_def [symmetric] word_less_nat_alt put_bytes_def nth_append)
  qed
  have "vq_raw (vqs w comm_input) \<noteq> 0" using i by (simp add: port_q_def)
  then have "host_get_cmdline H (T H) buf n w =
      obind (recv_vq H (vo_kick (T H)) comm_input buf n w) (\<lambda>k w.
      let len = ucast (min (n - 1) (ucast (word_of_int k :: u32))) :: u32 in
      obind (write_buf_at buf (unat len) [0] w) (\<lambda>_ w. Ret (ucast len) w))"
    by (simp add: host_get_cmdline_def Let_def)
  then show ?thesis
    using fin by (auto intro!: ends_bind [OF port_recv [OF assms(1) i assms(6)]])
qed

end

section \<open>A port in use\<close>

text \<open>The obliging host, a console with a port named testrunner0, and the message buffer.\<close>

definition comm_world :: "unit con_world" where
  "comm_world = (let w = console_up () in
     w\<lparr>dmem := (dmem w)(msg_buf \<mapsto> replicate 64 0),
       con_ports := (con_ports w)[2 := blank_port\<lparr>host_connected := True,
         port_name := cstr ''testrunner0'' @ replicate 53 0\<rparr>]\<rparr>)"

lemma demo_host_leaves: "leaves demo_host a" "con_host demo_host" "vq_live demo_host a"
  using demo_host_ok demo_host_progress [of a]
  by (auto simp: leaves_def host_keeps_def con_host_def vq_live_def) (auto simp: demo_host_def)

lemma comm_world_ok: "con_ok comm_world" "comm_ok comm_world"
proof -
  let ?ps = "(replicate 16 blank_port)[2 := blank_port\<lparr>host_connected := True, port_name := cstr ''testrunner0'' @ replicate 53 0\<rparr>]"
  let ?w = "console_up ()"
  have p: "con_ports ?w = replicate 16 blank_port" by (simp add: console_up_def console_boot_def)
  have "ports_ok ?ps" using console_up_ok(1) [of "()"]
    by (intro ports_ok_update) (simp_all add: con_ok_def p port_ok_def cstr_def blank_port_def MAX_PORT_NAME_SIZE_def)
  moreover have "cmd_in 32 32 comm_world" "cmd_out comm_world"
    using console_up_ok(1) [of "()"] cmd_in_cong [of comm_world ?w] cmd_out_cong [of comm_world ?w]
    by (simp_all add: con_ok_def comm_world_def Let_def)
  ultimately show "con_ok comm_world"
    using console_up_ok(1) [of "()"] by (simp add: con_ok_def comm_world_def Let_def p rows_ok_local)
  show "comm_ok comm_world"
    using console_up_ok(2,3) [of "()"] port_q_cong [of comm_world _ ?w]
    by (simp add: comm_ok_def comm_world_def Let_def)
qed

section \<open>Properties\<close>

text \<open>
  Starting the log. On a console in order, \<open>init_log\<close> looks for the first port whose name is
  testrunner0. If there is none, or the host has not connected it, it returns -1 and changes nothing;
  otherwise it returns 0, and the two queues of the port are ready and the port is connected.
\<close>

theorem init_log_finds_port:
  assumes "con_host H" "T = mmio_ops H \<or> T = pci_ops log junk H" "con_ok w"
    and "port_static comm_input comm_input_raw comm_output comm_output_raw w"
  shows "ends (vq_live H cmd_output_raw) (\<lambda>r w'. con_ok w' \<and>
      (case find (\<lambda>i. named (cstr ''testrunner0'') (con_ports w ! i)) [0..<16] of
         None \<Rightarrow> r = - 1 \<and> w' = w
       | Some i \<Rightarrow> if \<not> host_connected (con_ports w ! i) then r = - 1 \<and> w' = w
           else r = 0 \<and> port_q VIRTQ_DESC_F_WRITE comm_input comm_input_raw w' \<and> port_q 0 comm_output comm_output_raw w' \<and>
             con_ports w' = (con_ports w)[i := (con_ports w ! i)\<lparr>guest_connected := True\<rparr>]))
    (init_log H T w)"
  using assms(2) mmio_console.init_log_ok [OF assms(1,3,4)] pci_console.init_log_ok [OF assms(1,3,4), of log junk] by blast

lemma init_log_finds_port_witness:
  "returns (\<lambda>r w'. r = 0 \<and> con_ok w' \<and> port_q 0 comm_output comm_output_raw w' \<and> guest_connected (con_ports w' ! 2))
    (init_log demo_host (mmio_ops demo_host) comm_world)"
proof -
  have s: "port_static comm_input comm_input_raw comm_output comm_output_raw comm_world"
    by (simp add: port_static_def foreign_def raw_static_def raw_size_def)
       (simp add: comm_world_def console_up_def demo_raw_def Let_def)
  have p: "con_ports comm_world = (replicate 16 blank_port)[2 := blank_port\<lparr>host_connected := True,
      port_name := cstr ''testrunner0'' @ replicate 53 0\<rparr>]"
    by (simp add: comm_world_def console_up_def console_boot_def Let_def)
  have n: "con_ports comm_world ! 0 = blank_port" "con_ports comm_world ! Suc 0 = blank_port"
    "con_ports comm_world ! Suc (Suc 0) = blank_port\<lparr>host_connected := True, port_name := cstr ''testrunner0'' @ replicate 53 0\<rparr>"
    by (simp_all add: p numeral_2_eq_2)
  have nb: "\<not> named (cstr ''testrunner0'') blank_port" by (simp add: named_def cstr_def blank_port_def)
  have nx: "named (cstr ''testrunner0'') (blank_port\<lparr>host_connected := True, port_name := cstr ''testrunner0'' @ replicate 53 0\<rparr>)"
    by (simp add: named_def cstr_def)
  have f: "find (\<lambda>i. named (cstr ''testrunner0'') (con_ports comm_world ! i)) [0..<16] = Some 2"
    by (simp add: upt_conv_Cons n nb nx numeral_2_eq_2)
  have h: "host_connected (con_ports comm_world ! 2)" and len: "length (con_ports comm_world) = 16" by (simp_all add: p)
  show ?thesis
    using init_log_finds_port [OF demo_host_leaves(2) disjI1 [OF refl] comm_world_ok(1) s] h
    by (auto simp: demo_host_leaves(3) ends_returns f len elim!: returns_mono)
qed

text \<open>
  C36: what the log sends. With the port in order and a host that does not write into the message buffer,
  logging a text is sending the 64 byte messages of its pieces one after the other; every message has
  the type of a log message, and the texts in the messages, put together, are the text that was logged.
\<close>

theorem log_buf_sends:
  assumes "host_ok H" "leaves H msg_buf" "T = mmio_ops H \<or> T = pci_ops log junk H"
    and "comm_ok w" "dmem w msg_buf = Some b" "unat n = length buf"
  shows "\<exists>ms. log_buf H T buf n w = send_msgs H T ms (w\<lparr>dmem := (dmem w)(msg_buf \<mapsto> put_bytes 0 [MSG_LOG] b)\<rparr>) \<and>
    ms = log_messages (put_bytes 0 [MSG_LOG] b) (log_chunks buf) \<and>
    concat (map log_text ms) = buf \<and> list_all (\<lambda>m. length m = 64 \<and> m ! 0 = MSG_LOG) ms"
  using assms(3) mmio_console.log_buf_messages [OF assms(1,2,4-6)] pci_console.log_buf_messages(1) [OF assms(1,2,4-6), of log junk]
  by auto

lemma log_buf_sends_witness:
  "\<exists>ms. log_buf demo_host (mmio_ops demo_host) (replicate 70 0x61) 70 comm_world =
     send_msgs demo_host (mmio_ops demo_host) ms (comm_world\<lparr>dmem := (dmem comm_world)(msg_buf \<mapsto> replicate 64 0)\<rparr>) \<and>
   length ms = 2 \<and> concat (map log_text ms) = replicate 70 0x61"
proof -
  have b: "dmem comm_world msg_buf = Some (replicate 64 0)" by (simp add: comm_world_def Let_def)
  have "length (log_messages prev (log_chunks (replicate 70 0x61))) = 2" for prev by (simp add: log_chunks.simps)
  moreover have "put_bytes 0 [MSG_LOG] (replicate 64 0) = replicate 64 0"
    by (simp add: put_bytes_def MSG_LOG_def flip: replicate_Suc)
  ultimately show ?thesis
    using log_buf_sends [OF demo_host_ok demo_host_leaves(1) disjI1 [OF refl] comm_world_ok(2) b, where n = 70 and buf = "replicate 70 0x61"] by auto
qed

text \<open>
  C37: the command line. With a buffer of \<open>n\<close> bytes, \<open>n\<close> positive, the length that is returned is below \<open>n\<close>
  whatever the host reported, and the buffer has a zero there; if the host answers on the port, the
  call returns.
\<close>

theorem host_get_cmdline_terminated:
  assumes "host_ok H" "leaves H msg_buf" "host_keeps H (\<lambda>d. map_option length (d buf) = Some (unat n))"
    and "T = mmio_ops H \<or> T = pci_ops log junk H" "comm_ok w"
    and "map_option length (dmem w buf) = Some (unat n)" "n \<noteq> 0" "buf \<noteq> msg_buf"
  shows "ends (vq_live H comm_input_raw) (\<lambda>l w'. l < n \<and> comm_ok w' \<and>
      (\<exists>b. dmem w' buf = Some b \<and> length b = unat n \<and> b ! unat l = 0)) (host_get_cmdline H T buf n w)"
  using assms(4) mmio_console.host_get_cmdline_ok [OF assms(1-3,5-8)]
    pci_console.host_get_cmdline_ok [OF assms(1-3,5-8), of log junk] by blast

lemma host_get_cmdline_terminated_witness:
  "returns (\<lambda>l w'. l < 72 \<and> (\<exists>b. dmem w' (cmsg_buf 0) = Some b \<and> b ! unat l = 0))
    (host_get_cmdline demo_host (mmio_ops demo_host) (cmsg_buf 0) 72 comm_world)"
proof -
  have a: "cmsg_buf 0 < 0x58000000" using cmsg_buf_less [of 0] by simp
  have "host_keeps demo_host (\<lambda>d. map_option length (d (cmsg_buf 0)) = Some (unat (72 :: u64)))"
    by (simp add: host_keeps_def demo_host_def)
  moreover have "map_option length (dmem comm_world (cmsg_buf 0)) = Some (unat (72 :: u64))" "cmsg_buf 0 \<noteq> msg_buf"
    using a by (auto simp: comm_world_def Let_def console_up_def console_boot_def)
  ultimately have "ends (vq_live demo_host comm_input_raw) (\<lambda>l w'. l < 72 \<and> comm_ok w' \<and>
      (\<exists>b. dmem w' (cmsg_buf 0) = Some b \<and> length b = unat (72 :: u64) \<and> b ! unat l = 0))
      (host_get_cmdline demo_host (mmio_ops demo_host) (cmsg_buf 0) 72 comm_world)"
    by (intro host_get_cmdline_terminated [OF demo_host_ok demo_host_leaves(1) _ disjI1 [OF refl] comm_world_ok(2)]) simp_all
  then show ?thesis by (auto simp: demo_host_leaves(3) ends_returns elim!: returns_mono)
qed

end
