(* ===== verification/Runner_Storage.thy ===== *)
theory Runner_Storage
  imports Runner_Comm Rpmb_Proxy
begin

text \<open>
  The RPMB storage of the test runner, \<open>test-runner/test-runner-storage.c\<close>: \<open>rpmb_storage_send\<close>, which the
  storage proxy calls, passes the frames to the host over the queues of the port \<open>rpmb0\<close>. Frames are
  given by their addresses, since only the host reads them.
\<close>

section \<open>Operations\<close>

definition rpmb_devname :: bytes where
  "rpmb_devname = cstr ''rpmb0'' @ [0]"

abbreviation rpmb_input :: u64 where "rpmb_input \<equiv> 0x52000100"
abbreviation rpmb_output :: u64 where "rpmb_output \<equiv> 0x52000200"
abbreviation rpmb_input_raw :: u64 where "rpmb_input_raw \<equiv> 0x52010000"
abbreviation rpmb_output_raw :: u64 where "rpmb_output_raw \<equiv> 0x52020000"
abbreviation read_count_addr :: u64 where "read_count_addr \<equiv> 0x58002000"
abbreviation cmd_count_addr :: u64 where "cmd_count_addr \<equiv> 0x58002010"

fun rpmb_scan_loop :: "nat \<Rightarrow> nat \<Rightarrow> ('e, 'z) con_world_scheme \<Rightarrow> (int, 'e, 'z) con" where
  "rpmb_scan_loop 0 i w = Ret (- 1) w"
| "rpmb_scan_loop (Suc n) i w =
     (if length (con_ports w) \<le> i then Fault else
      case bstrcmp rpmb_devname (port_name (con_ports w ! i)) of
        None \<Rightarrow> Fault
      | Some r \<Rightarrow>
          if r = 0 then obind (c_assert (host_connected (con_ports w ! i)) w) (\<lambda>_ w. Ret (int i) w)
          else rpmb_scan_loop n (Suc i) w)"

definition rpmb_scan :: "('e, 'z) con_world_scheme \<Rightarrow> (int, 'e, 'z) con" where
  "rpmb_scan w = rpmb_scan_loop MAX_PORTS 0 w"

definition init_virtio_rpmb :: "'e host \<Rightarrow> ('e, 'z) con_ops \<Rightarrow> ('e, 'z) con_world_scheme \<Rightarrow> (int, 'e, 'z) con" where
  "init_virtio_rpmb H T w =
     obind (rpmb_scan w) (\<lambda>rpmb_id w.
     if rpmb_id < 0 then Ret rpmb_id w else
     obind (vq_init rpmb_input rpmb_input_raw (con_vio w) True w) (\<lambda>_ w.
     obind (vq_init rpmb_output rpmb_output_raw (con_vio w) False w) (\<lambda>_ w.
     obind (virtio_console_connect_port H T (word_of_int rpmb_id) rpmb_input rpmb_output w) (\<lambda>_ w.
     Ret 0 w))))"

definition send_virtio_rpmb ::
  "'e host \<Rightarrow> ('e, 'z) con_ops \<Rightarrow> u64 \<Rightarrow> u64 \<Rightarrow> ('e, 'z) con_world_scheme \<Rightarrow> (int, 'e, 'z) con"
where
  "send_virtio_rpmb H T data len w = send_vq H (vo_kick T) rpmb_output data len w"

definition recv_virtio_rpmb ::
  "'e host \<Rightarrow> ('e, 'z) con_ops \<Rightarrow> u64 \<Rightarrow> u64 \<Rightarrow> ('e, 'z) con_world_scheme \<Rightarrow> (int, 'e, 'z) con"
where
  "recv_virtio_rpmb H T data len w = recv_vq H (vo_kick T) rpmb_input data len w"

text \<open>One transfer of \<open>rpmb_storage_send\<close> with its checks; \<open>k\<close> is what follows.\<close>

definition checked ::
  "u64 \<Rightarrow> (int, 'e, 'z) con \<Rightarrow> (('e, 'z) con_world_scheme \<Rightarrow> (int, 'e, 'z) con) \<Rightarrow> (int, 'e, 'z) con"
where
  "checked len m k =
     obind m (\<lambda>ret w.
     let ret = c_int (word_of_int ret :: u64) in
     if ret < 0 then Ret TRUSTY_ERR_GENERIC w else
     obind (c_assert (word_of_int ret = len) w) (\<lambda>_ w. k w))"

definition runner_rpmb_storage_send ::
  "'e host \<Rightarrow> ('e, 'z) con_ops \<Rightarrow> u64 \<Rightarrow> u64 \<Rightarrow> u64 \<Rightarrow> u64 \<Rightarrow> u64 \<Rightarrow> u64 \<Rightarrow>
   ('e, 'z) con_world_scheme \<Rightarrow> (int, 'e, 'z) con"
where
  "runner_rpmb_storage_send H T rel_write_data rel_write_size write_data write_size rd_buf read_size w =
     (let read_count = ucast (read_size div ucast MMC_BLOCK_SIZE) :: u16;
          cmd_count = ucast ((rel_write_size + write_size) div ucast MMC_BLOCK_SIZE) :: u16;
          w = w\<lparr>dmem := (dmem w)(read_count_addr \<mapsto> le16 read_count, cmd_count_addr \<mapsto> le16 cmd_count)\<rparr> in
      obind (c_assert (rel_write_size mod ucast MMC_BLOCK_SIZE = 0) w) (\<lambda>_ w.
      obind (c_assert (write_size mod ucast MMC_BLOCK_SIZE = 0) w) (\<lambda>_ w.
      checked 2 (send_virtio_rpmb H T read_count_addr 2 w) (\<lambda>w.
      checked 2 (send_virtio_rpmb H T cmd_count_addr 2 w) (\<lambda>w.
      checked rel_write_size (send_virtio_rpmb H T rel_write_data rel_write_size w) (\<lambda>w.
      checked write_size (send_virtio_rpmb H T write_data write_size w) (\<lambda>w.
      checked read_size (recv_virtio_rpmb H T rd_buf read_size w) (\<lambda>w.
      Ret 0 w))))))))"

section \<open>Exchanges with the device\<close>

text \<open>
  \<open>rpmb_ok w\<close>: both queues of the port are in their invariant. \<open>send_all\<close> sends a list of buffers, each given
  by address and size.
\<close>

definition rpmb_ok :: "('e, 'z) con_world_scheme \<Rightarrow> bool" where
  "rpmb_ok w \<longleftrightarrow> port_q VIRTQ_DESC_F_WRITE rpmb_input rpmb_input_raw w \<and> port_q 0 rpmb_output rpmb_output_raw w"

lemma rpmb_ok_dmem [simp]: "rpmb_ok (w\<lparr>dmem := d\<rparr>) = rpmb_ok w"
  by (simp add: rpmb_ok_def port_q_dmem)

fun send_all :: "'e host \<Rightarrow> ('e, 'z) con_ops \<Rightarrow> (u64 \<times> u64) list \<Rightarrow> ('e, 'z) con_world_scheme \<Rightarrow> (unit, 'e, 'z) con" where
  "send_all H T [] w = Ret () w"
| "send_all H T ((a, n) # bs) w = obind (send_virtio_rpmb H T a n w) (\<lambda>_ w. send_all H T bs w)"

lemma rpmb_ok_step:
  assumes "rpmb_ok w"
  shows "port_q 0 rpmb_output rpmb_output_raw w' \<Longrightarrow> port_step H rpmb_output rpmb_output_raw w w' \<Longrightarrow> rpmb_ok w'"
    and "port_q VIRTQ_DESC_F_WRITE rpmb_input rpmb_input_raw w' \<Longrightarrow> port_step H rpmb_input rpmb_input_raw w w' \<Longrightarrow> rpmb_ok w'"
  using assms by (simp_all add: rpmb_ok_def port_step_def)

text \<open>An \<open>int\<close> that is made of a size.\<close>

lemma c_int_size:
  assumes "unat (n :: u64) < 2 ^ 31"
  shows "c_int n = int (unat n)" "sint n = int (unat n)"
proof -
  show "c_int n = int (unat n)" using c_int_of_nat [OF assms] by simp
  have "k < 2 ^ 31 \<Longrightarrow> sint (of_nat k :: u64) = int k" for k
    by (simp add: signed_of_nat signed_take_bit_int_eq_self_iff)
  from this [OF assms] show "sint n = int (unat n)" by simp
qed

lemma sint_u32:
  "uint (k :: u32) < 2 ^ 31 \<Longrightarrow> sint k = uint k" "2 ^ 31 \<le> uint k \<Longrightarrow> sint k < 0"
proof -
  have "n < 2 ^ 31 \<Longrightarrow> sint (of_nat n :: u32) = int n" for n
    by (simp add: signed_of_nat signed_take_bit_int_eq_self_iff)
  then have small: "nat u < 2 ^ 31 \<Longrightarrow> 0 \<le> u \<Longrightarrow> sint (word_of_int u :: u32) = u" for u
    by (metis int_nat_eq of_int_of_nat_eq)
  show "sint k = uint k" if "uint k < 2 ^ 31"
    using small [OF _ unsigned_greater_eq [of k]] that by (simp only: nat_less_iff unsigned_greater_eq) simp
  assume "2 ^ 31 \<le> uint k"
  moreover have "uint k < 2 ^ 32" using unsigned_less [of k, where 'a = int] by simp
  ultimately have "uint k div 2 ^ 31 = 1"
    by (intro int_div_pos_eq [where r = "uint k - 2 ^ 31"]) simp_all
  then have "bit (uint k) 31" by (simp add: bit_iff_odd)
  then show "sint k < 0" by (simp add: sint_uint)
qed

lemma checked_Ret:
  "unat n < 2 ^ 31 \<Longrightarrow> checked n (Ret (sint n) w) k = k w"
  by (simp add: checked_def c_int_size c_assert_def Let_def)

lemma int_unat_u: "int (unat x) = uint x" "(word_of_int (uint y) :: u64) = ucast y"
  by simp_all

lemma checked_received:
  "checked n (Ret (uint (k :: u32)) w) f = (if 2 ^ 31 \<le> uint k then Ret TRUSTY_ERR_GENERIC w else if uint k = uint n then f w else Abort w)"
proof -
  have "uint (word_of_int (uint k) :: u64) = uint k"
    using arg_cong [OF unat_ucast_u32 [of k], of int] by (simp only: int_unat_u)
  then have "(word_of_int (uint k) :: u64) = n \<longleftrightarrow> uint k = uint n"
    by (subst word_uint_eq_iff) (simp only:)
  moreover have "c_int (word_of_int (uint k) :: u64) = sint k"
  proof -
    have "ucast (ucast k :: u64) = k" by (rule bit_word_eqI) (simp add: bit_ucast_iff)
    then show ?thesis by (simp add: c_int_def)
  qed
  ultimately show ?thesis
    using sint_u32 [of k] by (auto simp: checked_def c_assert_def Let_def)
qed
context console_device begin

lemma rpmb_send:
  assumes "host_ok H" "rpmb_ok w"
  shows "ends (vq_live H rpmb_output_raw) (\<lambda>n w'. n = sint len \<and> rpmb_ok w') (send_virtio_rpmb H (T H) a len w)"
proof (cases "len = 0")
  case True
  with assms(2) show ?thesis by (simp add: send_virtio_rpmb_def send_vq_def)
next
  case False
  have "port_q 0 rpmb_output rpmb_output_raw w" using assms(2) by (simp add: rpmb_ok_def)
  from port_send [OF assms(1) this False] show ?thesis
    unfolding send_virtio_rpmb_def by (rule ends_mono) (use rpmb_ok_step(1) [OF assms(2)] in blast)
qed

lemma rpmb_recv:
  assumes "host_ok H" "rpmb_ok w"
  shows "ends (vq_live H rpmb_input_raw) (\<lambda>n w'. (\<exists>k :: u32. n = uint k) \<and> rpmb_ok w') (recv_virtio_rpmb H (T H) a len w)"
proof (cases "len = 0")
  case True
  with assms(2) show ?thesis by (auto simp: recv_virtio_rpmb_def recv_vq_def intro: exI [of _ 0])
next
  case False
  have "port_q VIRTQ_DESC_F_WRITE rpmb_input rpmb_input_raw w" using assms(2) by (simp add: rpmb_ok_def)
  from port_recv [OF assms(1) this False] show ?thesis
    unfolding recv_virtio_rpmb_def by (rule ends_mono) (use rpmb_ok_step(2) [OF assms(2)] in blast)
qed

lemma send_all_ok:
  assumes "host_ok H" "rpmb_ok w"
  shows "ends (vq_live H rpmb_output_raw) (\<lambda>_. rpmb_ok) (send_all H (T H) bs w)"
  using assms(2)
proof (induction bs arbitrary: w)
  case (Cons b bs)
  then show ?case by (cases b) (auto intro!: ends_bind [OF rpmb_send [OF assms(1)]])
qed simp

text \<open>The checks after a send always pass; after the receive they compare what the host reports.\<close>

lemma checked_send:
  assumes "host_ok H" "rpmb_ok w" "unat len < 2 ^ 31"
    and "\<And>w'. rpmb_ok w' \<Longrightarrow> k w' = k' w'"
  shows "checked len (send_virtio_rpmb H (T H) a len w) k = obind (send_virtio_rpmb H (T H) a len w) (\<lambda>_ w. k' w)"
proof (cases "send_virtio_rpmb H (T H) a len w")
  case (Ret n w')
  with ends_on_ret [OF rpmb_send [OF assms(1,2), of len a]] have "n = sint len" "rpmb_ok w'" by simp_all
  with Ret assms(3,4) show ?thesis by (simp add: checked_Ret)
qed (simp_all add: checked_def)

lemma checked_recv:
  assumes "host_ok H" "rpmb_ok w"
  shows "checked len (recv_virtio_rpmb H (T H) a len w) k = obind (recv_virtio_rpmb H (T H) a len w) (\<lambda>n w.
    if 2 ^ 31 \<le> n then Ret TRUSTY_ERR_GENERIC w else if n = uint len then k w else Abort w)"
proof (cases "recv_virtio_rpmb H (T H) a len w")
  case (Ret n w')
  with ends_on_ret [OF rpmb_recv [OF assms, of a len]] obtain j :: u32 where "n = uint j" by auto
  with Ret show ?thesis by (simp add: checked_received)
qed (simp_all add: checked_def)

lemma send_protocol:
  assumes "host_ok H" "rpmb_ok w" "512 dvd unat rel_write_size" "512 dvd unat write_size"
    and "unat rel_write_size < 2 ^ 31" "unat write_size < 2 ^ 31"
  shows "runner_rpmb_storage_send H (T H) rel_write_data rel_write_size write_data write_size rd_buf read_size w =
    obind (send_all H (T H) [(read_count_addr, 2), (cmd_count_addr, 2), (rel_write_data, rel_write_size), (write_data, write_size)]
      (w\<lparr>dmem := (dmem w)(read_count_addr \<mapsto> le16 (of_nat (unat read_size div 512)),
         cmd_count_addr \<mapsto> le16 (of_nat ((unat rel_write_size + unat write_size) div 512)))\<rparr>)) (\<lambda>_ w.
    obind (recv_virtio_rpmb H (T H) rd_buf read_size w) (\<lambda>n w.
      if 2 ^ 31 \<le> n then Ret TRUSTY_ERR_GENERIC w else if n = uint read_size then Ret 0 w else Abort w))"
proof -
  have block: "ucast MMC_BLOCK_SIZE = (512 :: u64)" by (simp add: MMC_BLOCK_SIZE_def)
  have cnt: "(ucast (n div 512 :: u64) :: u16) = of_nat (unat n div 512)" for n :: u64
  proof -
    have "unat n div 512 = unat (n div 512)" by (simp add: unat_div)
    then show ?thesis by (simp only: of_nat_unat)
  qed
  have sum: "unat (rel_write_size + write_size) = unat rel_write_size + unat write_size"
    using assms(5,6) by (simp add: unat_add_lem [THEN iffD1])
  have m: "rel_write_size mod 512 = 0" "write_size mod 512 = 0"
    using assms(3,4) by (simp_all add: word_unat_eq_iff unat_mod)
  have two: "unat (2 :: u64) < 2 ^ 31" by simp
  let ?d = "(dmem w)(read_count_addr \<mapsto> le16 (of_nat (unat read_size div 512)),
         cmd_count_addr \<mapsto> le16 (of_nat ((unat rel_write_size + unat write_size) div 512)))"
  have d: "rpmb_ok (w\<lparr>dmem := ?d\<rparr>)" using assms(2) by simp
  show ?thesis
    unfolding runner_rpmb_storage_send_def block Let_def cnt sum m c_assert_def simp_thms if_True obind.simps send_all.simps obind_assoc
    by (rule checked_send [OF assms(1) d two], rule checked_send [OF assms(1) _ two], assumption,
        rule checked_send [OF assms(1) _ assms(5)], assumption, rule checked_send [OF assms(1) _ assms(6)], assumption,
        rule checked_recv [OF assms(1)], assumption)
qed

end
section \<open>Opening the port\<close>

lemma rpmb_name: "rpmb_devname = cstr ''rpmb0'' @ [0]" "0 \<notin> set (cstr ''rpmb0'')"
  by (simp_all add: rpmb_devname_def cstr_def)

lemma rpmb_scan_find:
  assumes "ports_ok (con_ports w)"
  shows "rpmb_scan w = (case find (\<lambda>i. named (cstr ''rpmb0'') (con_ports w ! i)) [0..<16] of
      None \<Rightarrow> Ret (- 1) w | Some i \<Rightarrow> if host_connected (con_ports w ! i) then Ret (int i) w else Abort w)"
proof -
  let ?P = "\<lambda>i. named (cstr ''rpmb0'') (con_ports w ! i)"
  have "rpmb_scan_loop n i w = (case find ?P [i..<16] of
      None \<Rightarrow> Ret (- 1) w | Some i \<Rightarrow> if host_connected (con_ports w ! i) then Ret (int i) w else Abort w)"
    if "i + n = 16" for n i
    using that
  proof (induction n arbitrary: i)
    case (Suc n)
    then have i: "i < length (con_ports w)" "[i..<16] = i # [Suc i..<16]"
      using assms by (simp_all add: ports_ok_def MAX_PORTS_def upt_conv_Cons)
    obtain r where "bstrcmp rpmb_devname (port_name (con_ports w ! i)) = Some r" "r = 0 \<longleftrightarrow> ?P i"
      using port_name_cmp [OF assms i(1) rpmb_name(2)] unfolding rpmb_name(1) by blast
    with Suc i show ?case by (auto simp: c_assert_def)
  qed simp
  from this [of 0 16] show ?thesis by (simp add: rpmb_scan_def MAX_PORTS_def)
qed

context console_device begin

lemma init_virtio_rpmb_ok:
  assumes "con_host H" "con_ok w" "port_static rpmb_input rpmb_input_raw rpmb_output rpmb_output_raw w"
  shows "case find (\<lambda>i. named (cstr ''rpmb0'') (con_ports w ! i)) [0..<16] of
      None \<Rightarrow> init_virtio_rpmb H (T H) w = Ret (- 1) w
    | Some i \<Rightarrow> if \<not> host_connected (con_ports w ! i) then init_virtio_rpmb H (T H) w = Abort w
        else ends (vq_live H cmd_output_raw) (\<lambda>r w'. r = 0 \<and> con_ok w' \<and> rpmb_ok w' \<and>
          con_ports w' = (con_ports w)[i := (con_ports w ! i)\<lparr>guest_connected := True\<rparr>]) (init_virtio_rpmb H (T H) w)"
proof -
  have ps: "ports_ok (con_ports w)" using assms(2) by (simp add: con_ok_def)
  have "ends (vq_live H cmd_output_raw) (\<lambda>r w'. r = 0 \<and> con_ok w' \<and> rpmb_ok w' \<and>
      con_ports w' = (con_ports w)[i := (con_ports w ! i)\<lparr>guest_connected := True\<rparr>]) (init_virtio_rpmb H (T H) w)"
    if i: "find (\<lambda>i. named (cstr ''rpmb0'') (con_ports w ! i)) [0..<16] = Some i" "host_connected (con_ports w ! i)" for i
  proof -
    from i(1) have "i < 16" by (auto simp: find_Some_iff)
    have "init_virtio_rpmb H (T H) w = obind
        (obind (vq_init rpmb_input rpmb_input_raw (con_vio w) True w) (\<lambda>_ w.
         obind (vq_init rpmb_output rpmb_output_raw (con_vio w) False w) (\<lambda>_ w.
         virtio_console_connect_port H (T H) (word_of_int (int i)) rpmb_input rpmb_output w))) (\<lambda>_ w. Ret 0 w)"
      using i by (simp add: init_virtio_rpmb_def rpmb_scan_find [OF ps])
    then show ?thesis
      by (simp only:, intro ends_bind [OF open_port [OF assms \<open>i < 16\<close>]]) (simp add: rpmb_ok_def)
  qed
  then show ?thesis
    by (auto simp: init_virtio_rpmb_def rpmb_scan_find [OF ps] split: option.split)
qed

end

section \<open>Properties\<close>

text \<open>A console in order with a port named rpmb0, and the queues of that port.\<close>

definition rpmb_world :: "unit con_world" where
  "rpmb_world = (let w = console_up () in
     w\<lparr>vqs := (vqs w)(rpmb_input := (vqs w comm_input)\<lparr>vq_raw := rpmb_input_raw\<rparr>,
         rpmb_output := (vqs w comm_output)\<lparr>vq_raw := rpmb_output_raw\<rparr>),
       raws := (raws w)(rpmb_input_raw \<mapsto> demo_raw 2 0, rpmb_output_raw \<mapsto> demo_raw 0 0),
       con_ports := (con_ports w)[1 := blank_port\<lparr>host_connected := True,
         port_name := cstr ''rpmb0'' @ replicate 59 0\<rparr>]\<rparr>)"

lemma rpmb_world_ok: "con_ok rpmb_world" "rpmb_ok rpmb_world"
proof -
  let ?ps = "(replicate 16 blank_port)[1 := blank_port\<lparr>host_connected := True, port_name := cstr ''rpmb0'' @ replicate 59 0\<rparr>]"
  let ?w = "console_up ()"
  have p: "con_ports ?w = replicate 16 blank_port" by (simp add: console_up_def console_boot_def)
  have ps: "ports_ok ?ps" using console_up_ok(1) [of "()"]
    by (intro ports_ok_update) (simp_all add: con_ok_def p port_ok_def cstr_def blank_port_def MAX_PORT_NAME_SIZE_def)
  have q: "vqs rpmb_world cmd_input = vqs ?w cmd_input" "vqs rpmb_world cmd_output = vqs ?w cmd_output"
    by (simp_all add: rpmb_world_def Let_def)
  have r: "vq_raw (vqs ?w cmd_input) = cmd_input_raw" "vq_raw (vqs ?w cmd_output) = cmd_output_raw"
    by (simp_all add: console_up_def)
  have "raws rpmb_world cmd_input_raw = raws ?w cmd_input_raw" "raws rpmb_world cmd_output_raw = raws ?w cmd_output_raw"
    by (simp_all add: rpmb_world_def Let_def)
  then have "cmd_in 32 32 rpmb_world" "cmd_out rpmb_world"
    using console_up_ok(1) [of "()"] cmd_in_cong [of rpmb_world ?w] cmd_out_cong [of rpmb_world ?w] q r
    by (simp_all add: con_ok_def)
  moreover have "con_ports rpmb_world = ?ps" "dmem rpmb_world = dmem ?w" by (simp_all add: rpmb_world_def p Let_def)
  ultimately show "con_ok rpmb_world"
    using console_up_ok(1) [of "()"] ps by (simp add: con_ok_def)
  show "rpmb_ok rpmb_world"
    by (simp add: rpmb_ok_def port_q_def vq_ok_def idle_def rpmb_world_def console_up_def demo_raw_def raw_ok_def
      list_all_iff VIRTQ_DESC_F_WRITE_def Let_def)
qed
text \<open>
  Opening the storage port. On a console in order, \<open>init_virtio_rpmb\<close> looks for the first port whose
  name is rpmb0. If there is none, it returns -1 and changes nothing; if the host has not connected it,
  the assertion fails; otherwise it returns 0, both queues of the port are ready and the port is
  connected.
\<close>

theorem init_virtio_rpmb_finds_port:
  assumes "con_host H" "T = mmio_ops H \<or> T = pci_ops log start H" "con_ok w"
    and "port_static rpmb_input rpmb_input_raw rpmb_output rpmb_output_raw w"
  shows "case find (\<lambda>i. named (cstr ''rpmb0'') (con_ports w ! i)) [0..<16] of
      None \<Rightarrow> init_virtio_rpmb H T w = Ret (- 1) w
    | Some i \<Rightarrow> if \<not> host_connected (con_ports w ! i) then init_virtio_rpmb H T w = Abort w
        else ends (vq_live H cmd_output_raw) (\<lambda>r w'. r = 0 \<and> con_ok w' \<and> rpmb_ok w' \<and>
          con_ports w' = (con_ports w)[i := (con_ports w ! i)\<lparr>guest_connected := True\<rparr>]) (init_virtio_rpmb H T w)"
  using assms(2) mmio_console.init_virtio_rpmb_ok [OF assms(1,3,4)] pci_console.init_virtio_rpmb_ok [OF assms(1,3,4), of log start]
  by blast

lemma init_virtio_rpmb_finds_port_witness:
  "returns (\<lambda>r w'. r = 0 \<and> rpmb_ok w') (init_virtio_rpmb demo_host (mmio_ops demo_host) rpmb_world)"
proof -
  have s: "port_static rpmb_input rpmb_input_raw rpmb_output rpmb_output_raw rpmb_world"
    by (simp add: port_static_def foreign_def raw_static_def raw_size_def)
       (simp add: rpmb_world_def console_up_def demo_raw_def Let_def)
  let ?p = "blank_port\<lparr>host_connected := True, port_name := cstr ''rpmb0'' @ replicate 59 0\<rparr>"
  have p: "con_ports rpmb_world = (replicate 16 blank_port)[1 := ?p]"
    by (simp add: rpmb_world_def console_up_def console_boot_def Let_def)
  have n: "con_ports rpmb_world ! 0 = blank_port" "con_ports rpmb_world ! Suc 0 = ?p" by (simp_all add: p)
  have nb: "\<not> named (cstr ''rpmb0'') blank_port" and nx: "named (cstr ''rpmb0'') ?p"
    by (simp_all add: named_def cstr_def blank_port_def)
  have f: "find (\<lambda>i. named (cstr ''rpmb0'') (con_ports rpmb_world ! i)) [0..<16] = Some 1"
    by (simp add: upt_conv_Cons n nb nx)
  have h: "host_connected (con_ports rpmb_world ! 1)" by (simp add: p)
  show ?thesis
    using init_virtio_rpmb_finds_port [OF demo_host_leaves(2) disjI1 [OF refl] rpmb_world_ok(1) s] h
    by (auto simp: demo_host_leaves(3) ends_returns f elim!: returns_mono)
qed


end
