(* ===== verification/Console_Frame.thy ===== *)
theory Console_Frame
  imports Runner_Storage
begin

text \<open>
  What the console driver leaves alone. Initialising the console and connecting a port work on the two
  control queues, their buffers, and three messages on the stack; the queues of the ports keep their state
  and every other data buffer is changed by the host at most. This is what lets the ports be opened one
  after the other.
\<close>

section \<open>The frame\<close>

text \<open>
  \<open>own_queues w\<close>: the control queues have their raw queues. \<open>spares H w w'\<close>: the other queues are the same
  except for their number at the device, and conditions on the data that the host keeps and that do not
  speak of the messages on the stack are kept.
\<close>

definition own_queues :: "('e, 'z) vio_world_scheme \<Rightarrow> bool" where
  "own_queues w \<longleftrightarrow> vq_raw (vqs w cmd_input) = cmd_input_raw \<and> vq_raw (vqs w cmd_output) = cmd_output_raw"

definition stack_msgs :: "u64 set" where
  "stack_msgs = {dev_ready_addr, connect_msg_addr, msg_send_addr}"

definition off_stack :: "(data_mem \<Rightarrow> bool) \<Rightarrow> bool" where
  "off_stack D \<longleftrightarrow> (\<forall>d a m. a \<in> stack_msgs \<longrightarrow> D d \<longrightarrow> D (d(a \<mapsto> m)))"

definition same_queue :: "virtq \<Rightarrow> virtq \<Rightarrow> bool" where
  "same_queue v v' \<longleftrightarrow> vq_num_bufs v' = vq_num_bufs v \<and> vq_raw v' = vq_raw v \<and> vq_old_used_idx v' = vq_old_used_idx v"

definition spares :: "'e host \<Rightarrow> ('e, 'z) vio_world_scheme \<Rightarrow> ('e, 'z) vio_world_scheme \<Rightarrow> bool" where
  "spares H w w' \<longleftrightarrow>
     (\<forall>q. q \<noteq> cmd_input \<longrightarrow> q \<noteq> cmd_output \<longrightarrow> same_queue (vqs w q) (vqs w' q)) \<and>
     (\<forall>a. a \<noteq> cmd_input_raw \<longrightarrow> a \<noteq> cmd_output_raw \<longrightarrow> map_option shape (raws w' a) = map_option shape (raws w a)) \<and>
     (\<forall>D. host_keeps H D \<longrightarrow> off_stack D \<longrightarrow> D (dmem w) \<longrightarrow> D (dmem w'))"

lemma spares_refl [simp]: "spares H w w"
  by (simp add: spares_def same_queue_def)

lemma spares_data: "spares H w w' \<Longrightarrow> host_keeps H D \<Longrightarrow> off_stack D \<Longrightarrow> D (dmem w) \<Longrightarrow> D (dmem w')"
  using spares_def [THEN iffD1, THEN conjunct2, THEN conjunct2, THEN spec [of _ D]] by blast

lemma spares_trans:
  assumes "spares H w1 w2" "spares H w2 w3"
  shows "spares H w1 w3"
  unfolding spares_def
proof (intro conjI allI impI)
  fix D assume "host_keeps H D" "off_stack D" "D (dmem w1)"
  then show "D (dmem w3)" using spares_data [OF assms(1)] spares_data [OF assms(2)] by blast
qed (use assms in \<open>simp_all add: spares_def same_queue_def\<close>)

definition sparing :: "'e host \<Rightarrow> ('e, 'z) vio_world_scheme \<Rightarrow> ('e, 'z) vio_world_scheme \<Rightarrow> bool" where
  "sparing H w w' \<longleftrightarrow> (own_queues w \<longrightarrow> own_queues w' \<and> spares H w w')"

lemma sparing_refl [simp]: "sparing H w w"
  by (simp add: sparing_def)

lemma transp_sparing [simp]: "transp (sparing H)"
  by (rule transpI) (auto simp: sparing_def intro: spares_trans)

section \<open>Steps\<close>

abbreviation cmd_queue :: "u64 \<Rightarrow> bool" where
  "cmd_queue q \<equiv> q = cmd_input \<or> q = cmd_output"

lemma sparing_run:
  assumes "host_run H w w'" "host_ok H"
  shows "spares H w w'" "sparing H w w'"
proof -
  have g: "guest w w'" by (rule host_run_guest [OF assms])
  show "spares H w w'"
    unfolding spares_def
  proof (intro conjI allI impI)
    fix D assume "host_keeps H D" "D (dmem w)"
    then show "D (dmem w')" by (rule host_run_data [OF assms(1)])
  qed (use g in \<open>simp_all add: guest_def polite_def same_queue_def\<close>)
  with g show "sparing H w w'" by (simp add: sparing_def own_queues_def guest_def)
qed

lemma sparing_put: "cmd_queue q \<Longrightarrow> sparing H w (put_raw q r w)"
  by (auto simp: sparing_def own_queues_def spares_def put_raw_def same_queue_def)

lemma sparing_vqs: "cmd_queue q \<Longrightarrow> vq_raw v = vq_raw (vqs w q) \<Longrightarrow> sparing H w (w\<lparr>vqs := (vqs w)(q := v)\<rparr>)"
  by (auto simp: sparing_def own_queues_def spares_def same_queue_def)

lemma sparing_id: "sparing H w (set_queue_id q idx w)" "spares H w (set_queue_id q idx w)"
  by (auto simp: sparing_def own_queues_def spares_def same_queue_def set_queue_id_def)

lemma sparing_msg: "a \<in> stack_msgs \<Longrightarrow> sparing H w (w\<lparr>dmem := (dmem w)(a \<mapsto> m)\<rparr>)"
  by (auto simp: sparing_def own_queues_def spares_def same_queue_def off_stack_def)

lemma sparing_vars: "sparing H w (w\<lparr>con_ports := ps\<rparr>)" "sparing H w (w\<lparr>con_vio := v\<rparr>)"
  by (auto simp: sparing_def own_queues_def spares_def same_queue_def)

lemma sparing_bind:
  "keeps (sparing H) w m \<Longrightarrow> (\<And>a w'. keeps (sparing H) w' (f a w')) \<Longrightarrow> keeps (sparing H) w (obind m f)"
  by (rule keeps_obind) simp_all

lemma returns_sparing:
  "returns (\<lambda>_. host_run H w) m \<Longrightarrow> host_ok H \<Longrightarrow> keeps (sparing H) w m"
  by (cases m) (simp_all add: sparing_run)

text \<open>The operations on queues, for the control queues.\<close>

lemma sparing_reads:
  "keeps (sparing H) w (get_raw q w)" "keeps (sparing H) w (vq_slot q idx w)"
  "keeps (sparing H) w' (read_buf_at a off n w')" "keeps (sparing H) w'' (c_assert b w'')"
  "keeps (sparing H) w' (upd_port i f w')"
  by (auto simp: get_raw_def vq_slot_def read_buf_at_def c_assert_def upd_port_def sparing_vars split: option.split)

lemma sparing_queue_ops:
  assumes "cmd_queue q"
  shows "keeps (sparing H) w (vq_set_buf flags q i data len w)" "keeps (sparing H) w (vq_make_avail q i w)"
    "keeps (sparing H) w (vq_adv q w)"
  unfolding vq_set_buf_def vq_make_avail_def vq_adv_def Let_def
  by (intro sparing_bind sparing_reads keeps_if; simp add: sparing_put sparing_vqs assms)+

lemma sparing_wait:
  assumes "host_ok H"
  shows "keeps (sparing H) w (vq_ready H q w)" "keeps (sparing H) w (vq_wait_loop n H q w)"
proof -
  have ready: "keeps (sparing H) w (vq_ready H q w)" for w :: "('a, 'b) vio_world_scheme"
    unfolding vq_ready_def Let_def
    by (rule keeps_from [OF transp_sparing sparing_run(2) [OF host_run.polled [OF host_run.idle] assms]])
       (intro sparing_bind sparing_reads, simp)
  then show "keeps (sparing H) w (vq_ready H q w)" .
  show "keeps (sparing H) w (vq_wait_loop n H q w)"
  proof (induction n arbitrary: w)
    case 0
    show ?case by (subst vq_wait_loop.simps) (intro sparing_bind ready keeps_if; simp)
  next
    case (Suc n)
    then show ?case by (subst vq_wait_loop.simps) (intro sparing_bind ready keeps_if; simp)
  qed
qed

section \<open>The console driver\<close>

lemma sparing_fields:
  "keeps (sparing H) w (msg_id msg w)" "keeps (sparing H) w (msg_event msg w)"
  by (auto simp: msg_id_def msg_event_def intro!: sparing_bind sparing_reads)

lemma sparing_release: "keeps (sparing H) w (release_control_msg idx w)"
  unfolding release_control_msg_def vq_set_buf_w_def
  by (intro sparing_bind sparing_queue_ops disjI1 refl)

lemma sparing_setup_loop: "keeps (sparing H) w (control_setup_loop n idx w)"
proof (induction n arbitrary: idx w)
  case (Suc n)
  show ?case
    unfolding control_setup_loop.simps vq_set_buf_w_def
    by (intro sparing_bind sparing_queue_ops Suc.IH disjI1 refl)
qed simp

context console_device begin

lemma sparing_kick: "host_ok H \<Longrightarrow> keeps (sparing H) w (vo_kick (T H) q w)"
  by (rule returns_sparing [OF kick_run])

lemma sparing_send:
  assumes "host_ok H" "cmd_queue q"
  shows "keeps (sparing H) w (send_vq H (vo_kick (T H)) q data len w)"
  unfolding send_vq_def vq_set_buf_r_def vq_wait_def Let_def
  by (intro keeps_if sparing_bind sparing_reads sparing_queue_ops [OF assms(2)] sparing_kick [OF assms(1)]
      sparing_wait [OF assms(1)]; simp)

lemma sparing_send_control:
  assumes "host_ok H" "a \<in> stack_msgs"
  shows "keeps (sparing H) w (send_control_msg H (T H) a msg w)"
  unfolding send_control_msg_def Let_def
  by (rule keeps_from [OF transp_sparing sparing_msg [OF assms(2), where m = "bytes_of_console_control msg"]])
     (intro sparing_bind sparing_send [OF assms(1)]; simp)

lemma sparing_attach:
  assumes "host_ok H"
  shows "keeps (sparing H) w (vo_attach (T H) q idx w)"
  by (rule keeps_from [OF transp_sparing sparing_id(1) returns_sparing [OF attach_run assms]])

lemma sparing_connect:
  assumes "host_ok H"
  shows "keeps (sparing H) w (virtio_console_connect_port H (T H) port qi qo w)"
  unfolding virtio_console_connect_port_def port_open_def
  by (intro sparing_bind sparing_attach sparing_send_control sparing_reads assms; simp add: stack_msgs_def)

lemma sparing_scan_loop:
  assumes "host_ok H"
  shows "keeps (sparing H) w (control_scan_loop n H (T H) w)"
proof -
  have get: "keeps (sparing H) w (get_control_msg H (T H) w)" for w :: "('e, 'z) con_world_scheme"
    unfolding get_control_msg_def vq_quick_ready_def
    by (intro sparing_bind sparing_reads sparing_wait [OF assms] keeps_if sparing_kick [OF assms] sparing_queue_ops; simp)
  have handle: "keeps (sparing H) w (handle_control_msg H (T H) m w)" for m and w :: "('e, 'z) con_world_scheme"
    unfolding handle_control_msg_def port_ready_def Let_def
    by (cases m, simp only: prod.case) (intro sparing_bind sparing_fields sparing_reads keeps_if sparing_release
        sparing_send_control [OF assms]; simp add: stack_msgs_def)
  show ?thesis
  proof (induction n arbitrary: w)
    case 0
    show ?case
      by (subst control_scan_loop.simps) (intro sparing_bind get; auto intro!: sparing_bind handle split: option.split)
  next
    case (Suc n)
    then show ?case
      by (subst control_scan_loop.simps) (intro sparing_bind get; auto intro!: sparing_bind handle split: option.split)
  qed
qed

lemma sparing_control_scan:
  assumes "host_ok H"
  shows "keeps (sparing H) w (control_scan H (T H) w)"
  unfolding control_scan_def Let_def
  by (rule keeps_from [OF transp_sparing sparing_vars(1) [where ps = "map reset_port (con_ports w)"]])
     (intro sparing_bind sparing_send_control [OF assms] sparing_scan_loop [OF assms]; simp add: stack_msgs_def)

end
lemma spares_after_init:
  "cmd_queue q \<Longrightarrow> raw = cmd_input_raw \<or> raw = cmd_output_raw \<Longrightarrow> spares H w (after_init q raw vio flags r w)"
  by (auto simp: spares_def same_queue_def after_init_def)

context console_device begin

lemma spares_setup:
  assumes "host_ok H" "raw_static cmd_input cmd_input_raw w" "raw_static cmd_output cmd_output_raw w"
  shows "on_ret (\<lambda>_ w'. spares H w w') (control_setup H (T H) vio w)"
proof -
  from assms(2,3) obtain r1 r2 where r: "raws w cmd_input_raw = Some r1" "raw_size r1"
    "raws w cmd_output_raw = Some r2" "raw_size r2" by (auto simp: raw_static_def)
  let ?w1 = "after_init cmd_input cmd_input_raw vio VIRTQ_DESC_F_WRITE r1 w"
  let ?w2 = "after_init cmd_output cmd_output_raw vio 0 r2 ?w1"
  have r2: "raws ?w1 cmd_output_raw = Some r2" using r by (simp add: after_init_def)
  have i: "vq_init cmd_input cmd_input_raw vio True w = Ret () ?w1" "vq_init cmd_output cmd_output_raw vio False ?w1 = Ret () ?w2"
    using vq_init_ok [OF r(1,2)] vq_init_ok [OF r2 r(4)] by simp_all
  have "spares H w ?w2" by (rule spares_trans [OF spares_after_init spares_after_init]) simp_all
  moreover have "own_queues ?w2" by (simp add: own_queues_def after_init_def)
  moreover have "keeps (sparing H) ?w2 (obind (vo_attach (T H) cmd_input VIRTIO_CONSOLE_CTRL_RX ?w2) (\<lambda>_ w.
      obind (vo_attach (T H) cmd_output VIRTIO_CONSOLE_CTRL_TX w) (\<lambda>_ w.
      control_setup_loop (unat (vq_num_bufs (vqs w cmd_input))) 0 w)))"
    by (intro sparing_bind sparing_attach sparing_setup_loop assms(1))
  ultimately show ?thesis
    unfolding control_setup_def i obind.simps
    by (intro on_retI) (auto simp: sparing_def dest!: keeps_Ret intro: spares_trans)
qed

lemma own_setup:
  assumes "con_host H" "con_static w"
  shows "on_ret (\<lambda>_ w'. own_queues w') (control_setup H (T H) vio w)"
proof -
  have "budget H (\<lambda>\<mu>. backlog \<mu> w) w" by (simp add: budget_def)
  from ends_on_ret [OF control_setup_ok [OF assms this], THEN conjunct1] show ?thesis
    by (rule on_ret_mono) (simp add: con_state_def cmd_in_def cmd_out_def own_queues_def)
qed

lemma spares_init:
  assumes H: "con_host H" and s: "con_static w"
  shows "on_ret (\<lambda>r w'. r = 0 \<or> spares H w w') (init_virtio_console H (T H) w)"
proof -
  have h: "host_ok H" using H by (simp add: con_host_def)
  define Q where "Q = (\<lambda>(r :: u64) (w' :: ('e, 'z) con_world_scheme). r = 0 \<or> spares H w w')"
  define S where "S w' \<longleftrightarrow> con_static w' \<and> spares H w w'" for w' :: "('e, 'z) con_world_scheme"
  have run: "S w'" if "host_run H w1 w'" "S w1" for w1 w'
    using that con_static_run [OF _ that(1) H] spares_trans [OF _ sparing_run(1) [OF that(1) h]] by (simp add: S_def)
  have step: "on_ret Q (obind m f)"
    if "returns (\<lambda>_. host_run H w1) m" "S w1" "\<And>a w'. S w' \<Longrightarrow> on_ret Q (f a w')"
    for m w1 and f :: "_ \<Rightarrow> _ \<Rightarrow> (u64, 'e, 'z) con"
    using that run [OF _ that(2)] by (auto simp: returns_iff)
  have rest: "on_ret Q (obind (control_setup H (T H) vio w1) (\<lambda>_ w.
      obind (vo_or_status (T H) vio VIRTIO_STATUS_DRIVER_OK (w\<lparr>con_vio := vio\<rparr>)) (\<lambda>_ w.
      obind (control_scan H (T H) w) (\<lambda>_ w. Ret console_addr w))))" if "S w1" for vio w1
  proof (rule on_ret_bindI)
    fix u w2 assume c: "control_setup H (T H) vio w1 = Ret u w2"
    have "keeps (sparing H) w2 (obind (vo_or_status (T H) vio VIRTIO_STATUS_DRIVER_OK (w2\<lparr>con_vio := vio\<rparr>)) (\<lambda>_ w.
        obind (control_scan H (T H) w) (\<lambda>_ w. Ret console_addr w)))"
      by (rule keeps_from [OF transp_sparing sparing_vars(2) [where v = vio]])
         (intro sparing_bind returns_sparing [OF or_status_run] sparing_control_scan h; simp)
    moreover have "own_queues w2" "spares H w w2"
      using that on_retD [OF own_setup [OF H] c] on_retD [OF spares_setup [OF h] c] spares_trans
      by (auto simp: S_def con_static_def)
    ultimately show "on_ret Q (obind (vo_or_status (T H) vio VIRTIO_STATUS_DRIVER_OK (w2\<lparr>con_vio := vio\<rparr>)) (\<lambda>_ w.
        obind (control_scan H (T H) w) (\<lambda>_ w. Ret console_addr w)))"
      by (intro on_retI) (auto simp: Q_def sparing_def dest!: keeps_Ret intro: spares_trans)
  qed
  have found: "on_ret (\<lambda>vio w1. vio = 0 \<or> S w1) (vo_probe_console (T H) w)"
    by (rule on_ret_mono [OF probe_run]) (use run [of w] s in \<open>auto simp: S_def\<close>)
  have assert: "on_ret Q (obind (c_assert b w1) f)" if "on_ret Q (f () w1)" for b w1 and f :: "_ \<Rightarrow> _ \<Rightarrow> (u64, 'e, 'z) con"
    using that by (simp add: c_assert_def)
  have Q0: "Q 0 w'" for w' by (simp add: Q_def)
  show ?thesis
    unfolding init_virtio_console_def Let_def Q_def [symmetric]
    by (rule on_ret_bindI)
       (use on_retD [OF found] in \<open>auto simp: Q0 simp del: on_ret_obind intro!: step [OF reset_run] step [OF or_status_run]
         step [OF get_features_run] step [OF set_features_run] step [OF get_status_run] step [OF page_size_run] assert rest\<close>)
qed

end
section \<open>The ports\<close>

lemma spares_static:
  assumes "spares H w w'" "foreign q raw" "raw_static q raw w"
  shows "raw_static q raw w'"
proof -
  have v: "vq_old_used_idx (vqs w' q) = vq_old_used_idx (vqs w q)" "map_option shape (raws w' raw) = map_option shape (raws w raw)"
    using assms(1,2) by (simp_all add: spares_def same_queue_def foreign_def)
  from assms(3) obtain r where r: "raws w raw = Some r" "raw_size r" "va_idx (vr_avail r) = 0" by (auto simp: raw_static_def)
  with v(2) obtain r' where "raws w' raw = Some r'" "shape r' = shape r" by auto
  with r v(1) assms(3) show ?thesis by (simp add: raw_static_def raw_size_def)
qed

lemma spares_port_static: "spares H w w' \<Longrightarrow> port_static qi ri qo ro w \<Longrightarrow> port_static qi ri qo ro w'"
  by (auto simp: port_static_def intro: spares_static)

lemma con_ok_own: "con_ok w \<Longrightarrow> own_queues w"
  by (simp add: con_ok_def cmd_in_def cmd_out_def own_queues_def)

lemma off_stack_at: "a \<notin> stack_msgs \<Longrightarrow> off_stack (\<lambda>d. P (d a))"
  by (auto simp: off_stack_def fun_upd_def)

context console_device begin

lemma init_log_data:
  assumes "con_host H" "con_ok w" "port_static comm_input comm_input_raw comm_output comm_output_raw w"
    and "host_keeps H D" "off_stack D" "D (dmem w)"
  shows "on_ret (\<lambda>_ w'. D (dmem w')) (init_log H (T H) w)"
proof -
  have ps: "ports_ok (con_ports w)" using assms(2) by (simp add: con_ok_def)
  obtain w1 w2 where i: "vq_init comm_input comm_input_raw (con_vio w) True w = Ret () w1"
    "vq_init comm_output comm_output_raw (con_vio w) False w1 = Ret () w2" "con_ok w2" "dmem w2 = dmem w"
    using port_queues_init [OF assms(2,3), of "con_vio w"] by blast
  have vio: "con_vio w1 = con_vio w"
    using i(1) assms(3) vq_init_ok [of w comm_input_raw _ comm_input "con_vio w" True]
    by (auto simp: port_static_def raw_static_def after_init_def)
  have "on_ret (\<lambda>_ w'. D (dmem w')) (virtio_console_connect_port H (T H) p comm_input comm_output w2)" for p
  proof (rule on_retI)
    fix u w3 assume "virtio_console_connect_port H (T H) p comm_input comm_output w2 = Ret u w3"
    then have "spares H w2 w3"
      using assms(1) keeps_Ret [OF sparing_connect] con_ok_own [OF i(3)] by (auto simp: con_host_def sparing_def)
    then show "D (dmem w3)" by (rule spares_data [OF _ assms(4,5)]) (simp add: i(4) assms(6))
  qed
  then show ?thesis
    using assms(6) i(1,2) vio by (auto simp: init_log_def testrunner_msg_scan_find [OF ps] split: option.split)
qed

end
end
