(* ===== verification/Boot_Image.thy ===== *)
theory Boot_Image
  imports Tipc_Prelude
begin

text \<open>
  Loading the next operating system in the test runner, \<open>test-runner/arm64/boot.c\<close>: the byte order
  reversal and the requests to the firmware configuration device, whose interface is big-endian. The
  device is a parameter.
\<close>

section \<open>Byte order\<close>

function rev_loop :: "nat \<Rightarrow> u64 \<Rightarrow> u64 \<Rightarrow> u64" where
  "rev_loop shift msk val =
     (if 8 \<le> shift then
        let msk = msk XOR push_bit shift msk;
            val = (drop_bit shift val AND msk) OR push_bit shift (val AND msk)
        in rev_loop (shift div 2) msk val
      else val)"
  by auto
termination by (relation "measure fst") auto

declare rev_loop.simps [simp del]

definition rev_bits :: "u64 \<Rightarrow> nat \<Rightarrow> u64" where
  "rev_bits val bits = rev_loop (bits div 2) (- 1) val"

definition rev16 :: "u16 \<Rightarrow> u16" where
  "rev16 val = ucast (rev_bits (ucast val) 16)"

definition rev32 :: "u32 \<Rightarrow> u32" where
  "rev32 val = ucast (rev_bits (ucast val) 32)"

definition rev64 :: "u64 \<Rightarrow> u64" where
  "rev64 val = rev_bits val 64"

section \<open>The firmware configuration device\<close>

definition LOAD_ADDR :: u64 where "LOAD_ADDR = 0x40080000"
definition DTB_ADDR :: u64 where "DTB_ADDR = 0x40000000"
definition INITRD_ADDR :: u64 where "INITRD_ADDR = 0x48000000"
definition FW_CFG_KERNEL_SIZE :: u16 where "FW_CFG_KERNEL_SIZE = 0x08"
definition FW_CFG_KERNEL_DATA :: u16 where "FW_CFG_KERNEL_DATA = 0x11"
definition FW_CFG_INITRD_SIZE :: u16 where "FW_CFG_INITRD_SIZE = 0x0b"
definition FW_CFG_INITRD_DATA :: u16 where "FW_CFG_INITRD_DATA = 0x12"
definition FW_CFG_DMA_CTL_READ :: u32 where "FW_CFG_DMA_CTL_READ = 0x02"
definition FW_CFG_DMA_CTL_SELECT :: u32 where "FW_CFG_DMA_CTL_SELECT = 0x08"

text \<open>
  The registers of the device: a write to \<open>cfg_ctl\<close>, a read of \<open>cfg_data32\<close>, and a write to
  \<open>cfg_dma\<close>, at which the device sees the 16 bytes of the descriptor \<open>dma\<close> in memory and leaves a
  new value of its first word.
\<close>

record 'e fw_cfg =
  cfg_ctl :: "u16 \<Rightarrow> 'e \<Rightarrow> 'e"
  cfg_data32 :: "'e \<Rightarrow> u32 \<times> 'e"
  cfg_dma :: "u64 \<Rightarrow> bytes \<Rightarrow> 'e \<Rightarrow> u32 \<times> 'e"

record dma_desc =
  dma_control :: u32
  dma_length :: u32
  dma_address :: u64

definition dma_desc_bytes :: "dma_desc \<Rightarrow> bytes" where
  "dma_desc_bytes d = le32 (dma_control d) @ le32 (dma_length d) @ le64 (dma_address d)"

text \<open>\<open>dma\<close> is the address of the descriptor; \<open>d\<close> its uninitialised content.\<close>

definition load_image ::
  "'e fw_cfg \<Rightarrow> u64 \<Rightarrow> dma_desc \<Rightarrow> u64 \<Rightarrow> u16 \<Rightarrow> u16 \<Rightarrow> 'e \<Rightarrow> bool \<times> 'e"
where
  "load_image D dma d addr cfg_data cfg_size e =
     (let d = d\<lparr>dma_control :=
                 rev32 (FW_CFG_DMA_CTL_READ OR FW_CFG_DMA_CTL_SELECT OR push_bit 16 (ucast cfg_data))\<rparr>;
          e = cfg_ctl D (rev16 cfg_size) e;
          (v, e) = cfg_data32 D e;
          d = d\<lparr>dma_length := rev32 v\<rparr>
      in if dma_length d = 0 then (False, e)
         else
           let d = d\<lparr>dma_address := rev64 addr\<rparr>;
               (control, e) = cfg_dma D (rev64 dma) (dma_desc_bytes d) e;
               d = d\<lparr>dma_control := control\<rparr>
           in if dma_control d \<noteq> 0 then (False, e) else (True, e))"

text \<open>\<open>boot_next\<close> returns, or jumps to an entry point with one argument and does not return.\<close>

datatype boot_end = Returned | Jump u64 u64

definition boot_next :: "'e fw_cfg \<Rightarrow> u64 \<Rightarrow> dma_desc \<Rightarrow> 'e \<Rightarrow> boot_end \<times> 'e" where
  "boot_next D dma d e =
     (let (ok, e) = load_image D dma d LOAD_ADDR FW_CFG_KERNEL_DATA FW_CFG_KERNEL_SIZE e
      in if \<not> ok then (Returned, e)
         else let (_, e) = load_image D dma d INITRD_ADDR FW_CFG_INITRD_DATA FW_CFG_INITRD_SIZE e
              in (Jump LOAD_ADDR DTB_ADDR, e))"

section \<open>Byte reversal\<close>

lemma rev_masks:
  "(- 1 :: u64) XOR push_bit 32 (- 1) = 0xFFFFFFFF" "(- 1 :: u64) XOR push_bit 16 (- 1) = 0xFFFF"
  "(- 1 :: u64) XOR push_bit 8 (- 1) = 0xFF" "(0xFFFFFFFF :: u64) XOR push_bit 16 0xFFFFFFFF = 0x0000FFFF0000FFFF"
  "(0xFFFF :: u64) XOR push_bit 8 0xFFFF = 0xFF00FF"
  "(0x0000FFFF0000FFFF :: u64) XOR push_bit 8 0x0000FFFF0000FFFF = 0x00FF00FF00FF00FF"
  by (simp_all add: push_bit_eq_mult)

lemma rev_step:
  "8 \<le> shift \<Longrightarrow> msk XOR push_bit shift msk = m \<Longrightarrow>
   rev_loop shift msk val = rev_loop (shift div 2) m (drop_bit shift val AND m OR push_bit shift (val AND m))"
  by (subst rev_loop.simps) (simp add: Let_def)

lemma rev_done: "rev_loop 4 msk val = val"
  by (simp add: rev_loop.simps)

text \<open>One round exchanges neighbouring fields of \<open>shift\<close> bits.\<close>

definition exchange :: "nat \<Rightarrow> u64 \<Rightarrow> u64 \<Rightarrow> u64" where
  "exchange shift m x = (drop_bit shift x AND m OR push_bit shift (x AND m))"

lemma bit_exchange:
  "bit (exchange shift m x) i \<longleftrightarrow>
     bit x (shift + i) \<and> bit m i \<or> shift \<le> i \<and> i < 64 \<and> bit x (i - shift) \<and> bit m (i - shift)"
  by (auto simp: exchange_def bit_or_iff bit_and_iff bit_drop_bit_eq bit_push_bit_iff)

lemma rev_exchange:
  "rev64 x = exchange 8 0x00FF00FF00FF00FF (exchange 16 0x0000FFFF0000FFFF (exchange 32 0xFFFFFFFF x))"
  "rev32 y = ucast (exchange 8 0xFF00FF (exchange 16 0xFFFF (ucast y)))"
  "rev16 z = ucast (exchange 8 0xFF (ucast z))"
  by (simp_all add: rev64_def rev32_def rev16_def rev_bits_def rev_step [OF _ rev_masks(1)]
      rev_step [OF _ rev_masks(2)] rev_step [OF _ rev_masks(3)] rev_step [OF _ rev_masks(4)]
      rev_step [OF _ rev_masks(5)] rev_step [OF _ rev_masks(6)] rev_done exchange_def)

lemma byte_eqI:
  assumes "\<And>i. i < 8 \<Longrightarrow> bit (x :: u64) (a + i) = bit (y :: u64) (b + i)" "a \<le> 56" "b \<le> 56"
  shows "(ucast (drop_bit a x) :: u8) = ucast (drop_bit b y)"
  using assms by (intro bit_word_eqI) (simp add: bit_ucast_iff bit_drop_bit_eq)

lemma less_8_cases: "(i :: nat) < 8 \<Longrightarrow> i = 0 \<or> i = 1 \<or> i = 2 \<or> i = 3 \<or> i = 4 \<or> i = 5 \<or> i = 6 \<or> i = 7"
  by arith

text \<open>The byte that a round with fields of \<open>w\<close> bytes moves to position \<open>k\<close>.\<close>

definition partner :: "nat \<Rightarrow> nat \<Rightarrow> nat" where
  "partner w k = (if even (k div w) then k + w else k - w)"

lemma byte_exchange:
  assumes "0 < w" "i < 8" "k < n" "n \<le> 8" "\<And>j. j < 8 * n \<Longrightarrow> bit m j \<longleftrightarrow> even (j div (8 * w))"
  shows "bit (exchange (8 * w) m x) (8 * k + i) = bit x (8 * partner w k + i)"
proof -
  have d: "(8 * k + i) div (8 * w) = k div w"
    using assms(2) by (simp add: div_mult2_eq)
  have m: "bit m (8 * k + i) \<longleftrightarrow> even (k div w)" using assms by (simp add: d)
  show ?thesis
  proof (cases "w \<le> k")
    case True
    then have "8 * k + i - 8 * w = 8 * (k - w) + i" by simp
    moreover have "(8 * (k - w) + i) div (8 * w) = (k - w) div w" using assms(2) by (simp add: div_mult2_eq)
    moreover have "(k - w) div w = k div w - 1" "0 < k div w"
      using True assms(1) by (simp_all add: le_div_geq div_greater_zero_iff)
    ultimately have "bit m (8 * k + i - 8 * w) \<longleftrightarrow> odd (k div w)" using assms(2,3,5) by (simp add: even_diff_nat)
    with m True assms(2-4) show ?thesis
      by (auto simp: bit_exchange partner_def algebra_simps)
  next
    case False
    then have "k div w = 0" "\<not> 8 * w \<le> 8 * k + i" using assms(2) by simp_all
    with m show ?thesis by (simp add: bit_exchange partner_def algebra_simps)
  qed
qed

lemma rev_mask_bits:
  "list_all (\<lambda>j. bit (0x00FF00FF00FF00FF :: u64) j = even (j div 8)) [0..<64]"
  "list_all (\<lambda>j. bit (0x0000FFFF0000FFFF :: u64) j = even (j div 16)) [0..<64]"
  "list_all (\<lambda>j. bit (0x00000000FFFFFFFF :: u64) j = even (j div 32)) [0..<64]"
  "list_all (\<lambda>j. bit (0xFF00FF :: u64) j = even (j div 8)) [0..<32]"
  "list_all (\<lambda>j. bit (0xFFFF :: u64) j = even (j div 16)) [0..<32]"
  "list_all (\<lambda>j. bit (0xFF :: u64) j = even (j div 8)) [0..<16]"
  by code_simp+

lemma partner_bound: "k < 8 \<Longrightarrow> w = 1 \<or> w = 2 \<or> w = 4 \<Longrightarrow> partner w k < 8"
  by (drule less_8_cases) (auto simp: partner_def)

lemma bit_rev64:
  assumes "i < 8" "k < 8"
  shows "bit (rev64 x) (8 * k + i) = bit x (8 * (7 - k) + i)"
proof -
  have 1: "partner 1 k < 8" "partner 2 (partner 1 k) < 8" using assms(2) by (simp_all add: partner_bound)
  have "partner 4 (partner 2 (partner 1 k)) = 7 - k"
    using less_8_cases [OF assms(2)] by (elim disjE) (simp_all add: partner_def)
  moreover have "bit (exchange (8 * 1) 0x00FF00FF00FF00FF y) (8 * k + i) = bit y (8 * partner 1 k + i)" for y
    using assms rev_mask_bits(1) by (intro byte_exchange [where n = 8]) (auto simp: list_all_iff)
  moreover have "bit (exchange (8 * 2) 0x0000FFFF0000FFFF y) (8 * partner 1 k + i) =
      bit y (8 * partner 2 (partner 1 k) + i)" for y
    using assms 1 rev_mask_bits(2) by (intro byte_exchange [where n = 8]) (auto simp: list_all_iff)
  moreover have "bit (exchange (8 * 4) 0xFFFFFFFF y) (8 * partner 2 (partner 1 k) + i) =
      bit y (8 * partner 4 (partner 2 (partner 1 k)) + i)" for y
    using assms 1 rev_mask_bits(3) by (intro byte_exchange [where n = 8]) (auto simp: list_all_iff)
  ultimately show ?thesis by (simp add: rev_exchange)
qed

lemma bit_rev32:
  assumes "i < 8" "k < 4"
  shows "bit (rev32 x) (8 * k + i) = bit x (8 * (3 - k) + i)"
proof -
  have k: "k = 0 \<or> k = 1 \<or> k = 2 \<or> k = 3" using assms(2) by arith
  then have p: "partner 1 k < 4" "partner 2 (partner 1 k) = 3 - k" by (elim disjE; simp add: partner_def)+
  have "bit (exchange (8 * 1) 0xFF00FF y) (8 * k + i) = bit y (8 * partner 1 k + i)" for y
    using assms rev_mask_bits(4) by (intro byte_exchange [where n = 4]) (auto simp: list_all_iff)
  moreover have "bit (exchange (8 * 2) 0xFFFF y) (8 * partner 1 k + i) = bit y (8 * (3 - k) + i)" for y
    unfolding p(2) [symmetric]
    using assms p(1) rev_mask_bits(5) by (intro byte_exchange [where n = 4]) (auto simp: list_all_iff)
  moreover have "8 * (3 - k) + i < 64" using assms by simp
  ultimately show ?thesis using assms by (simp add: rev_exchange bit_ucast_iff)
qed

lemma bit_rev16:
  assumes "i < 8" "k < 2"
  shows "bit (rev16 x) (8 * k + i) = bit x (8 * (1 - k) + i)"
proof -
  have p: "partner 1 k = 1 - k" using assms(2) by (auto simp: partner_def less_2_cases_iff)
  have "bit (exchange (8 * 1) 0xFF y) (8 * k + i) = bit y (8 * (1 - k) + i)" for y
    unfolding p [symmetric]
    using assms rev_mask_bits(6) by (intro byte_exchange [where n = 2]) (auto simp: list_all_iff)
  moreover have "8 * (1 - k) + i < 64" using assms by simp
  ultimately show ?thesis using assms by (simp add: rev_exchange bit_ucast_iff)
qed

lemma le_bytes_revI:
  fixes x y :: "'a::len word"
  assumes "\<And>i k. i < 8 \<Longrightarrow> k < n \<Longrightarrow> bit y (8 * k + i) = bit x (8 * (n - 1 - k) + i)"
  shows "le_bytes n y = rev (le_bytes n x)"
proof (rule nth_equalityI)
  fix k assume "k < length (le_bytes n y)"
  then have k: "k < n" by simp
  with assms [of _ k] show "le_bytes n y ! k = rev (le_bytes n x) ! k"
    by (intro bit_word_eqI) (auto simp: nth_le_bytes rev_nth bit_ucast_iff bit_drop_bit_eq)
qed simp

lemma rev_bytes:
  "le16 (rev16 z) = rev (le16 z)" "le32 (rev32 y) = rev (le32 y)" "le64 (rev64 x) = rev (le64 x)"
  by (rule le_bytes_revI; simp add: bit_rev16 bit_rev32 bit_rev64)+

section \<open>Properties\<close>

text \<open>
  C28: the masking loop of \<open>rev\<close> reverses the byte order. For all three widths the bytes of the result
  in memory are the bytes of the argument in reverse order.
\<close>

theorem rev_reverses_bytes:
  "le16 (rev16 z) = rev (le16 z) \<and> le32 (rev32 y) = rev (le32 y) \<and> le64 (rev64 x) = rev (le64 x)"
  using rev_bytes by blast

text \<open>
  A request to the device: the register value and the descriptor are those of a big-endian machine
  that asks for \<open>len\<close> bytes of the item \<open>key\<close> at \<open>addr\<close>.
\<close>

definition dma_request :: "u16 \<Rightarrow> u32 \<Rightarrow> u64 \<Rightarrow> bytes" where
  "dma_request key len addr =
     rev (le32 (push_bit 16 (ucast key) OR 0x0A)) @ rev (le32 len) @ rev (le64 addr)"

lemma rev_zero: "rev32 v = 0 \<longleftrightarrow> v = 0"
proof -
  have "rev32 v = 0 \<longleftrightarrow> le32 (rev32 v) = le32 0" by (metis le_word_le32)
  also have "\<dots> \<longleftrightarrow> le32 v = le32 0" by (metis rev_bytes(2) rev_rev_ident le_bytes_zero rev_replicate)
  also have "\<dots> \<longleftrightarrow> v = 0" by (metis le_word_le32)
  finally show ?thesis .
qed

lemma load_image_request:
  "load_image D dma d addr key size_key e =
     (let e = cfg_ctl D (le_word (rev (le16 size_key))) e; (len, e) = cfg_data32 D e in
      if len = 0 then (False, e)
      else let (control, e) = cfg_dma D (le_word (rev (le64 dma))) (dma_request key len addr) e
           in (control = 0, e))"
proof -
  have r: "rev16 size_key = le_word (rev (le16 size_key))" "rev64 dma = le_word (rev (le64 dma))"
    by (metis rev_bytes(1) le_word_le16) (metis rev_bytes(3) le_word_le64)
  have c: "FW_CFG_DMA_CTL_READ OR FW_CFG_DMA_CTL_SELECT OR push_bit 16 (ucast key) = push_bit 16 (ucast key) OR 0x0A"
    by (simp add: FW_CFG_DMA_CTL_READ_def FW_CFG_DMA_CTL_SELECT_def or.commute flip: or.assoc)
  show ?thesis
    unfolding r [symmetric]
    by (simp add: load_image_def Let_def dma_desc_bytes_def rev_bytes dma_request_def c rev_zero split: prod.splits)
qed

text \<open>
  Booting the next system. The kernel is requested first: its size item is selected, and unless
  the size is 0 the device gets one DMA request in its own byte order for the kernel data, of this
  size, at the load address. Only if the device reports success is the initial RAM disk requested in
  the same way, whatever the result, and the kernel entered with the address of the device tree.
\<close>

theorem boot_next_requests:
  "boot_next D dma d e =
     (let request = (\<lambda>key size_key addr e.
            let e = cfg_ctl D (le_word (rev (le16 size_key))) e; (len, e) = cfg_data32 D e in
            if len = 0 then (False, e)
            else let (control, e) = cfg_dma D (le_word (rev (le64 dma))) (dma_request key len addr) e
                 in (control = 0, e));
          (ok, e) = request 0x11 0x08 0x40080000 e
      in if ok then (Jump 0x40080000 0x40000000, snd (request 0x12 0x0b 0x48000000 e)) else (Returned, e))"
  by (simp add: boot_next_def load_image_request Let_def split_def LOAD_ADDR_def FW_CFG_KERNEL_DATA_def
      FW_CFG_KERNEL_SIZE_def INITRD_ADDR_def FW_CFG_INITRD_DATA_def FW_CFG_INITRD_SIZE_def DTB_ADDR_def)

end
