(* ===== verification/Runner_Main.thy ===== *)
theory Runner_Main
  imports Console_Frame Hwbcc Boot_Image
begin

text \<open>
  The main program of the test runner, \<open>test-runner/test-runner.c\<close>, and its entry from the 64 bit ARM
  start code, \<open>test-runner/arm64/arch.c\<close>. It drives everything else: the console and its two ports on
  one side, Trusty with the storage proxy and the clients on the other, and the loader of the next
  system. The console's state is part of the environment \<open>env\<close> of the library's state, since the storage
  driver that the proxy calls uses the console's queues.
\<close>

section \<open>State and parameters\<close>

type_synonym ('t, 'v) outside = "'t \<times> 'v con_world"

record ('t, 'v) run_world = "('t, 'v) outside hwbcc_world" +
  rw_trusty_dev :: trusty_dev
  rw_doorbell_irq :: u32

text \<open>
  The parameters: the host and the transport of the console, the platform and the storage driver of the
  library, the start of the secondary processors (assembler), the firmware device with the address and
  the initial content of the descriptor on the stack, the iterations granted to the two endless loops,
  the register writes of the start code, the status that stands for success at the certificate chain
  service, and the version of the interrupt controller, which the build sets.
\<close>

record ('t, 'v) runner =
  rn_host :: "'v host"
  rn_ops :: "('v, unit) con_ops"
  rn_platform :: "('t, 'v) outside platform"
  rn_rpmb :: "('t, 'v) outside rpmb_impl"
  rn_start_cpus :: "'t \<Rightarrow> int \<times> 't"
  rn_fw :: "'t fw_cfg"
  rn_dma :: u64
  rn_desc :: dma_desc
  rn_fuel :: nat
  rn_reg_write :: "u64 \<Rightarrow> u32 \<Rightarrow> 't \<Rightarrow> 't"
  rn_igrpen1 :: "u64 \<Rightarrow> 't \<Rightarrow> 't"
  rn_no_error :: u32
  rn_gic_version :: nat

text \<open>An operation of the console inside of the whole state.\<close>

definition via_con ::
  "('v con_world \<Rightarrow> ('a, 'v con_world) outcome) \<Rightarrow> (('t, 'v) outside, 'z) machine_scheme \<Rightarrow>
   ('a, (('t, 'v) outside, 'z) machine_scheme) outcome"
where
  "via_con f w =
     (case f (snd (env w)) of
        Ret a c \<Rightarrow> Ret a (w\<lparr>env := (fst (env w), c)\<rparr>)
      | Abort c \<Rightarrow> Abort (w\<lparr>env := (fst (env w), c)\<rparr>)
      | Fault \<Rightarrow> Fault
      | NoFuel \<Rightarrow> NoFuel)"

definition via_outside ::
  "('t \<Rightarrow> 'a \<times> 't) \<Rightarrow> (('t, 'v) outside, 'z) machine_scheme \<Rightarrow> ('a, (('t, 'v) outside, 'z) machine_scheme) outcome"
where
  "via_outside f w = (case f (fst (env w)) of (a, t) \<Rightarrow> Ret a (w\<lparr>env := (t, snd (env w))\<rparr>))"

text \<open>All messages of the main program end with a newline.\<close>

abbreviation run_log ::
  "('t, 'v) runner \<Rightarrow> string \<Rightarrow> ('t, 'v) run_world \<Rightarrow> (unit, ('t, 'v) run_world) outcome"
where
  "run_log R msg \<equiv> via_con (log_msg (rn_host R) (rn_ops R) (msg @ [CHR 0x0A]))"

abbreviation run_ops :: "('t, 'v) runner \<Rightarrow> (('t, 'v) outside, 'z proxy_world_ext) ops_table" where
  "run_ops R \<equiv> tipc_ops (rn_platform R) (rn_rpmb R)"

section \<open>The command line\<close>

text \<open>\<open>starts_with\<close> on the contents of the arrays; \<open>None\<close> when it runs out of one of them.\<close>

fun starts_with :: "bytes \<Rightarrow> bytes \<Rightarrow> nat \<Rightarrow> bool option" where
  "starts_with s1 s2 0 = Some False"
| "starts_with (x # xs) s2 (Suc n) =
     (if x = 0 then Some True
      else case s2 of [] \<Rightarrow> None | y # ys \<Rightarrow> if x \<noteq> y then Some False else starts_with xs ys n)"
| "starts_with [] s2 (Suc n) = None"

definition boottest_cmd :: bytes where
  "boottest_cmd = cstr ''boottest '' @ [0]"

text \<open>The array \<open>cmdline\<close> on the stack; the string at an offset of it.\<close>

abbreviation (input) cmdline_addr :: u64 where "cmdline_addr \<equiv> 0x58003000"
abbreviation (input) SIZEOF_cmdline :: u64 where "SIZEOF_cmdline \<equiv> 256"

definition string_from :: "nat \<Rightarrow> bytes \<Rightarrow> cstring option" where
  "string_from off b = (if 0 \<in> set (drop off b) then Some (takeWhile (\<lambda>x. x \<noteq> 0) (drop off b)) else None)"

section \<open>Stages of the main program\<close>

text \<open>Secondary processors lend their time to Trusty for ever.\<close>

fun boot_secondary :: "('t, 'v) runner \<Rightarrow> nat \<Rightarrow> ('t, 'v) run_world \<Rightarrow> (boot_end, ('t, 'v) run_world) outcome" where
  "boot_secondary R 0 w = NoFuel"
| "boot_secondary R (Suc n) w =
     obind (trusty_dev_nop (rn_platform R) w) (\<lambda>ret w.
     obind (if 0 \<le> ret then sys_call (rn_platform R) (C_idle (ret \<noteq> 0)) w
            else via_con (abort_msg (rn_host R) (rn_ops R) (''Secondary cpu unexpected error code'' @ [CHR 0x0A])) w) (\<lambda>_ w.
     boot_secondary R n w))"

text \<open>
  The command line is fetched. \<open>None\<close>: the console or its log did not come up; otherwise whether a test
  was requested.
\<close>

definition boot_cmdline ::
  "('t, 'v) runner \<Rightarrow> ('t, 'v) run_world \<Rightarrow> (bool option, ('t, 'v) run_world) outcome"
where
  "boot_cmdline R w =
     obind (via_con (init_virtio_console (rn_host R) (rn_ops R)) w) (\<lambda>console w.
     if console = 0 then Ret None w else
     obind (via_con (init_log (rn_host R) (rn_ops R)) w) (\<lambda>ret w.
     if ret \<noteq> 0 then Ret None w else
     obind (via_con (host_get_cmdline (rn_host R) (rn_ops R) cmdline_addr SIZEOF_cmdline) w) (\<lambda>cmdline_len w.
     case dmem (snd (env w)) cmdline_addr of
       None \<Rightarrow> Fault
     | Some cmdline \<Rightarrow>
         (case starts_with boottest_cmd cmdline (unat cmdline_len) of
            None \<Rightarrow> Fault
          | Some b \<Rightarrow> Ret (Some b) w))))"

text \<open>The devices and the storage proxy are started; the result is the IPC device, unless that failed.\<close>

definition boot_devices ::
  "('t, 'v) runner \<Rightarrow> ('t, 'v) run_world \<Rightarrow> (trusty_ipc_dev option, ('t, 'v) run_world) outcome"
where
  "boot_devices R w =
     obind (trusty_dev_init (rn_platform R) (rw_trusty_dev w) 0 w) (\<lambda>(ret, tdev) w.
     let w = w\<lparr>rw_trusty_dev := tdev\<rparr> in
     if ret \<noteq> 0 then Ret None w else
     obind (trusty_ipc_dev_create (rn_platform R) tdev (of_nat PAGE_SIZE) w) (\<lambda>(ret, od) w.
     if ret \<noteq> 0 then Ret None w else
     case od of None \<Rightarrow> Fault | Some ipc_dev \<Rightarrow>
     obind (via_con (init_virtio_rpmb (rn_host R) (rn_ops R)) w) (\<lambda>ret w.
     if ret = 0 then
       obind (rpmb_storage_proxy_init (rn_platform R) (rn_rpmb R) ipc_dev 0 w) (\<lambda>ret w.
       if ret \<noteq> 0 then obind (run_log R ''Failed to initialize storage proxy'' w) (\<lambda>_ w. Ret None w)
       else Ret (Some ipc_dev) w)
     else
       obind (run_log R ''Could not find serial port rpmb0, skipping storage proxy.'' w) (\<lambda>_ w.
       Ret (Some ipc_dev) w))))"

text \<open>The stages below return whether the main program goes on.\<close>

definition KM_VERIFIED_BOOT_UNVERIFIED :: u32 where "KM_VERIFIED_BOOT_UNVERIFIED = 2"

definition boot_keymaster ::
  "('t, 'v) runner \<Rightarrow> trusty_ipc_dev \<Rightarrow> ('t, 'v) run_world \<Rightarrow> (bool, ('t, 'v) run_world) outcome"
where
  "boot_keymaster R ipc_dev w =
     obind (km_tipc_init (rn_platform R) (rn_rpmb R) ipc_dev w) (\<lambda>ret w.
     if ret \<noteq> 0 then obind (run_log R ''km_tipc_init failed'' w) (\<lambda>_ w. Ret False w) else
     obind (trusty_set_boot_params (rn_platform R) (rn_rpmb R) 0 0 KM_VERIFIED_BOOT_UNVERIFIED False None 0 None 0 w) (\<lambda>ret w.
     if ret \<noteq> 0 then obind (run_log R ''trusty_set_boot_params failed'' w) (\<lambda>_ w. Ret False w) else
     obind (km_tipc_shutdown (rn_platform R) w) (\<lambda>_ w. Ret True w)))"

definition HWBCC_MAX_RESP_PAYLOAD_SIZE :: nat where "HWBCC_MAX_RESP_PAYLOAD_SIZE = 1024"

definition bcc_handover_size :: u64 where
  "bcc_handover_size =
     (let UDS_encoded_size = 45;
          bcc_entry_encoded_size = 463;
          bcc_encoded_size = UDS_encoded_size + bcc_entry_encoded_size + 1;
          DICE_CDI_SIZE = 32
      in 2 * DICE_CDI_SIZE + bcc_encoded_size + 8)"

definition boot_hwbcc ::
  "('t, 'v) runner \<Rightarrow> trusty_ipc_dev \<Rightarrow> ('t, 'v) run_world \<Rightarrow> (bool, ('t, 'v) run_world) outcome"
where
  "boot_hwbcc R ipc_dev w =
     (let P = rn_platform R; I = rn_rpmb R; no_error = rn_no_error R;
          complain = (\<lambda>b msg w. if b then run_log R msg w else Ret () w) in
      obind (hwbcc_tipc_init P I ipc_dev w) (\<lambda>ret w.
      if ret \<noteq> 0 then obind (run_log R ''hwbcc_tipc_init failed.'' w) (\<lambda>_ w. Ret False w) else
      obind (hwbcc_get_dice_artifacts P I no_error 0 (uninit P HWBCC_MAX_RESP_PAYLOAD_SIZE)
        (of_nat HWBCC_MAX_RESP_PAYLOAD_SIZE) 0 w) (\<lambda>(ret, dice_artifacts, resp_payload_size) w.
      obind (complain (ret \<noteq> 0) ''hwbcc_get_dice_artifacts failed.'' w) (\<lambda>_ w.
      obind (complain (resp_payload_size \<noteq> bcc_handover_size)
        ''hwbcc_get_dice_artifacts failed with incorrect response size.'' w) (\<lambda>_ w.
      obind (hwbcc_ns_deprivilege P I no_error w) (\<lambda>ret w.
      obind (complain (ret \<noteq> 0) ''hwbcc_ns_deprivilege failed.'' w) (\<lambda>_ w.
      obind (hwbcc_tipc_shutdown P w) (\<lambda>_ w.
      obind (hwbcc_tipc_init P I ipc_dev w) (\<lambda>ret w.
      if ret \<noteq> 0 then obind (run_log R ''hwbcc_tipc_init failed.'' w) (\<lambda>_ w. Ret False w) else
      obind (hwbcc_get_dice_artifacts P I no_error 0 (replicate HWBCC_MAX_RESP_PAYLOAD_SIZE 0)
        (of_nat HWBCC_MAX_RESP_PAYLOAD_SIZE) 0 w) (\<lambda>(ret, dice_artifacts, resp_payload_size) w.
      obind (complain (ret = 0) ''hwbcc_ns_deprivilege is broken.'' w) (\<lambda>_ w.
      obind (hwbcc_tipc_shutdown P w) (\<lambda>_ w. Ret True w))))))))))))"
section \<open>Running a test\<close>

definition TEST_PASSED :: u8 where "TEST_PASSED = 0"
definition TEST_FAILED :: u8 where "TEST_FAILED = 1"
definition TEST_MESSAGE :: u8 where "TEST_MESSAGE = 2"

abbreviation (input) test_chan :: u64 where "test_chan \<equiv> 0x500"
abbreviation (input) SIZEOF_test_result :: nat where "SIZEOF_test_result \<equiv> 256"

text \<open>A message of the test server: its size or an error, and the array \<open>test_result\<close>.\<close>

definition recv_result ::
  "('t, 'v) runner \<Rightarrow> bytes \<Rightarrow> ('t, 'v) run_world \<Rightarrow> (int \<times> bytes, ('t, 'v) run_world) outcome"
where
  "recv_result R test_result w =
     obind (trusty_ipc_recv (rn_platform R) (run_ops R) test_chan
       [\<lparr>iov_base = test_result, iov_len = of_nat SIZEOF_test_result\<rparr>] True w)
       (\<lambda>(ret, iovs) w. Ret (ret, iov_base (iovs ! 0)) w)"

text \<open>The loop over the messages; its result is the status byte, unless the protocol was broken.\<close>

fun boot_results ::
  "('t, 'v) runner \<Rightarrow> nat \<Rightarrow> bytes \<Rightarrow> ('t, 'v) run_world \<Rightarrow> (u8 option \<times> bytes, ('t, 'v) run_world) outcome"
where
  "boot_results R 0 test_result w = NoFuel"
| "boot_results R (Suc n) test_result w =
     obind (recv_result R test_result w) (\<lambda>(ret, test_result) w.
     if ret \<le> 0 \<or> int SIZEOF_test_result \<le> ret then Ret (None, test_result) w
     else if test_result ! 0 = TEST_PASSED then Ret (Some (test_result ! 0), test_result) w
     else if test_result ! 0 = TEST_FAILED then Ret (Some (test_result ! 0), test_result) w
     else if test_result ! 0 = TEST_MESSAGE then
       obind (via_con (log_buf (rn_host R) (rn_ops R) (drop 1 test_result) (word_of_int (ret - 1))) w) (\<lambda>_ w.
       boot_results R n test_result w)
     else Ret (None, test_result) w)"

definition boot_report ::
  "('t, 'v) runner \<Rightarrow> ('t, 'v) run_world \<Rightarrow> (boot_end, ('t, 'v) run_world) outcome"
where
  "boot_report R w =
     obind (boot_results R (rn_fuel R) (uninit (rn_platform R) SIZEOF_test_result) w) (\<lambda>(verdict, test_result) w.
     case verdict of
       None \<Rightarrow> Ret Returned w
     | Some b \<Rightarrow>
         let status = of_bool (b \<noteq> TEST_PASSED) in
         obind (recv_result R test_result w) (\<lambda>(ret, test_result) w.
         if ret \<noteq> TRUSTY_ERR_CHANNEL_CLOSED then Ret Returned w else
         obind (via_con (host_exit (rn_host R) (rn_ops R) status) w) (\<lambda>_ w. Ret Returned w)))"

text \<open>The name of the test server follows the command; the rest is a dialogue with the server.\<close>

definition boot_tests ::
  "('t, 'v) runner \<Rightarrow> trusty_ipc_dev \<Rightarrow> ('t, 'v) run_world \<Rightarrow> (boot_end, ('t, 'v) run_world) outcome"
where
  "boot_tests R ipc_dev w =
     obind (via_outside (rn_start_cpus R) w) (\<lambda>ret w.
     if ret \<noteq> 0 then obind (run_log R ''Failed to start secondary CPUs'' w) (\<lambda>_ w. Ret Returned w) else
     obind (trusty_ipc_chan_init test_chan ipc_dev w) (\<lambda>_ w.
     case Option.bind (dmem (snd (env w)) cmdline_addr) (string_from (length boottest_cmd - 1)) of
       None \<Rightarrow> Fault
     | Some port \<Rightarrow>
         obind (trusty_ipc_connect (rn_platform R) (run_ops R) test_chan port True w) (\<lambda>chan w.
         if chan < 0 then obind (run_log R ''Failed to connect to test server'' w) (\<lambda>_ w. Ret Returned w)
         else boot_report R w)))"

text \<open>The main program on one processor.\<close>

definition boot ::
  "('t, 'v) runner \<Rightarrow> int \<Rightarrow> ('t, 'v) run_world \<Rightarrow> (boot_end, ('t, 'v) run_world) outcome"
where
  "boot R cpu w =
     (if cpu \<noteq> 0 then boot_secondary R (rn_fuel R) w else
      obind (boot_cmdline R w) (\<lambda>req w.
      case req of
        None \<Rightarrow> Ret Returned w
      | Some False \<Rightarrow> via_outside (boot_next (rn_fw R) (rn_dma R) (rn_desc R)) w
      | Some True \<Rightarrow>
          obind (boot_devices R w) (\<lambda>od w.
          case od of None \<Rightarrow> Ret Returned w | Some ipc_dev \<Rightarrow>
          obind (boot_keymaster R ipc_dev w) (\<lambda>ok w.
          if \<not> ok then Ret Returned w else
          obind (boot_hwbcc R ipc_dev w) (\<lambda>ok w.
          if \<not> ok then Ret Returned w else boot_tests R ipc_dev w)))))"

section \<open>The entry from the start code\<close>

definition GICD_BASE :: u64 where "GICD_BASE = 0x08000000"
definition GICD_CTLR :: u64 where "GICD_CTLR = GICD_BASE + 0x000"
definition GICR_BASE :: u64 where "GICR_BASE = 0x080A0000"
definition GICR_SGI_BASE :: u64 where "GICR_SGI_BASE = GICR_BASE + 0x10000"
definition GICR_ISENABLER0 :: u64 where "GICR_ISENABLER0 = GICR_SGI_BASE + 0x0100"
definition GICR_CPU_OFFSET :: "int \<Rightarrow> u64" where "GICR_CPU_OFFSET cpu = word_of_int (cpu * 0x20000)"
definition TRUSTY_IRQ_TYPE_DOORBELL :: u64 where "TRUSTY_IRQ_TYPE_DOORBELL = 2"

definition GICDREG_WRITE ::
  "('t, 'v) runner \<Rightarrow> u64 \<Rightarrow> u32 \<Rightarrow> ('t, 'v) run_world \<Rightarrow> (unit, ('t, 'v) run_world) outcome"
where
  "GICDREG_WRITE R reg v w = via_outside (\<lambda>t. ((), rn_reg_write R reg v t)) w"

definition GICRREG_WRITE ::
  "('t, 'v) runner \<Rightarrow> int \<Rightarrow> u64 \<Rightarrow> u32 \<Rightarrow> ('t, 'v) run_world \<Rightarrow> (unit, ('t, 'v) run_world) outcome"
where
  "GICRREG_WRITE R cpu reg v w = via_outside (\<lambda>t. ((), rn_reg_write R (reg + GICR_CPU_OFFSET cpu) v t)) w"

definition boot_arm64 ::
  "('t, 'v) runner \<Rightarrow> int \<Rightarrow> ('t, 'v) run_world \<Rightarrow> (boot_end, ('t, 'v) run_world) outcome"
where
  "boot_arm64 R cpu w =
     (if 2 < rn_gic_version R then
        obind (if cpu = 0 then
                 obind (GICDREG_WRITE R GICD_CTLR 2 w) (\<lambda>_ w.
                 obind (smc (rn_platform R) (ucast SMC_FC_GET_NEXT_IRQ) 0 TRUSTY_IRQ_TYPE_DOORBELL 0 w) (\<lambda>r w.
                 Ret () (w\<lparr>rw_doorbell_irq := ucast r\<rparr>)))
               else Ret () w) (\<lambda>_ w.
        if 32 \<le> rw_doorbell_irq w then Ret Returned w else
        obind (GICRREG_WRITE R cpu GICR_ISENABLER0 (push_bit (unat (rw_doorbell_irq w)) 1) w) (\<lambda>_ w.
        obind (GICRREG_WRITE R cpu GICR_ISENABLER0 (push_bit 0 1) w) (\<lambda>_ w.
        obind (via_outside (\<lambda>t. ((), rn_igrpen1 R 1 t)) w) (\<lambda>_ w. boot R cpu w))))
      else boot R cpu w)"

section \<open>Lemmas\<close>

lemma starts_with_string:
  assumes "0 \<notin> set s" "n \<le> length xs"
  shows "starts_with (s @ [0]) xs n = Some (length s < n \<and> take (length s) xs = s)"
  using assms
proof (induction s arbitrary: xs n)
  case Nil
  then show ?case by (cases n) auto
next
  case (Cons x s)
  show ?case
  proof (cases n)
    case (Suc m)
    with Cons.prems obtain y ys where "xs = y # ys" by (cases xs) auto
    with Cons Suc show ?thesis by auto
  qed simp
qed

text \<open>\<open>env_only w w'\<close>: the states differ in the environment at most.\<close>

definition env_only :: "('e, 'z) machine_scheme \<Rightarrow> ('e, 'z) machine_scheme \<Rightarrow> bool" where
  "env_only w w' \<longleftrightarrow> (\<exists>e. w' = w\<lparr>env := e\<rparr>)"

lemma env_only_trans: "env_only w1 w2 \<Longrightarrow> env_only w2 w3 \<Longrightarrow> env_only w1 w3"
  by (auto simp: env_only_def)

lemma env_only_refl [simp]: "env_only w w"
  unfolding env_only_def by (rule exI [of _ "env w"]) simp

lemma env_only_fields: "env_only w w' \<Longrightarrow> calls w' = calls w \<and> shm w' = shm w \<and> machine.more w' = machine.more w"
  by (auto simp: env_only_def)

lemma via_con_only: "on_ret (\<lambda>_ w'. env_only w w') (via_con f w)"
  by (auto simp: via_con_def env_only_def split: outcome.split)

lemma via_outside_only: "returns (\<lambda>_ w'. env_only w w') (via_outside f w)"
  by (auto simp: via_outside_def env_only_def split: prod.split)

lemma env_only_bind:
  assumes "on_ret (\<lambda>_ w'. env_only w w') m" "\<And>a w'. on_ret (\<lambda>_ w''. env_only w' w'') (f a w')"
  shows "on_ret (\<lambda>_ w'. env_only w w') (obind m f)"
  using assms(1) by (auto intro!: on_retI simp: obind_eq_Ret dest!: on_retD [OF assms(2)] intro: env_only_trans)

lemma boot_cmdline_only: "on_ret (\<lambda>_ w'. env_only w w') (boot_cmdline R w)"
  unfolding boot_cmdline_def
  by (intro env_only_bind via_con_only on_ret_if) (auto split: option.split)

lemma boot_tests_Returned: "on_ret (\<lambda>r _. r = Returned) (boot_tests R dev w)"
  by (rule on_retI)
     (auto simp: boot_tests_def boot_report_def obind_eq_Ret Let_def split: if_splits option.splits prod.splits)

lemma boot_secondary_forever: "boot_secondary R n w \<noteq> Ret r w'"
proof (induction n arbitrary: w)
  case (Suc n)
  then show ?case by (simp add: obind_eq_Ret)
qed simp

section \<open>A dialogue with the test server\<close>

text \<open>
  \<open>session R buf w ms v buf' w'\<close>: from the state \<open>w\<close>, with \<open>buf\<close> in the array, the server sends the
  messages \<open>ms\<close>, each of which is logged, and then either the verdict \<open>v\<close> or something that is not part of
  the protocol.
\<close>

definition in_protocol :: "int \<Rightarrow> bool" where
  "in_protocol ret \<longleftrightarrow> 0 < ret \<and> ret < 256"

inductive session ::
  "('t, 'v) runner \<Rightarrow> bytes \<Rightarrow> ('t, 'v) run_world \<Rightarrow> bytes list \<Rightarrow> u8 option \<Rightarrow> bytes \<Rightarrow> ('t, 'v) run_world \<Rightarrow> bool"
  for R
where
  broken: "recv_result R buf w = Ret (ret, buf') w' \<Longrightarrow>
     \<not> in_protocol ret \<or> buf' ! 0 \<notin> {TEST_PASSED, TEST_FAILED, TEST_MESSAGE} \<Longrightarrow> session R buf w [] None buf' w'"
| verdict: "recv_result R buf w = Ret (ret, buf') w' \<Longrightarrow> in_protocol ret \<Longrightarrow>
     buf' ! 0 \<in> {TEST_PASSED, TEST_FAILED} \<Longrightarrow> session R buf w [] (Some (buf' ! 0)) buf' w'"
| message: "recv_result R buf w = Ret (ret, buf1) w1 \<Longrightarrow> in_protocol ret \<Longrightarrow> buf1 ! 0 = TEST_MESSAGE \<Longrightarrow>
     via_con (log_buf (rn_host R) (rn_ops R) (drop 1 buf1) (word_of_int (ret - 1))) w1 = Ret () w2 \<Longrightarrow>
     session R buf1 w2 ms v buf' w' \<Longrightarrow> session R buf w (take (nat ret - 1) (drop 1 buf1) # ms) v buf' w'"

lemma test_codes [simp]: "TEST_PASSED \<noteq> TEST_FAILED" "TEST_PASSED \<noteq> TEST_MESSAGE" "TEST_FAILED \<noteq> TEST_MESSAGE"
  "TEST_FAILED \<noteq> TEST_PASSED" "TEST_MESSAGE \<noteq> TEST_PASSED" "TEST_MESSAGE \<noteq> TEST_FAILED"
  by (simp_all add: TEST_PASSED_def TEST_FAILED_def TEST_MESSAGE_def)

inductive_cases session_Cons: "session R buf w (m # ms) v buf' w'"
inductive_cases session_Nil: "session R buf w [] v buf' w'"

lemma session_results:
  "session R buf w ms v buf' w' \<Longrightarrow> length ms < n \<Longrightarrow> boot_results R n buf w = Ret (v, buf') w'"
proof (induction arbitrary: n rule: session.induct)
  case (broken buf w ret buf' w')
  then obtain m where "n = Suc m" by (cases n) auto
  with broken show ?case by (auto simp: in_protocol_def)
next
  case (verdict buf w ret buf' w')
  then obtain m where "n = Suc m" by (cases n) auto
  with verdict show ?case by (auto simp: in_protocol_def)
next
  case (message buf w ret buf1 w1 w2 ms v buf' w')
  then obtain m where "n = Suc m" by (cases n) auto
  with message show ?case by (auto simp: in_protocol_def)
qed

lemma results_session:
  "boot_results R n buf w = Ret (v, buf') w' \<Longrightarrow> \<exists>ms. length ms < n \<and> session R buf w ms v buf' w'"
proof (induction n arbitrary: buf w)
  case (Suc n)
  then obtain ret buf1 w1 where r: "recv_result R buf w = Ret (ret, buf1) w1"
    by (auto simp: obind_eq_Ret)
  show ?case
  proof (cases "in_protocol ret \<and> buf1 ! 0 = TEST_MESSAGE")
    case True
    with Suc.prems r obtain w2 where
      l: "via_con (log_buf (rn_host R) (rn_ops R) (drop 1 buf1) (word_of_int (ret - 1))) w1 = Ret () w2"
      "boot_results R n buf1 w2 = Ret (v, buf') w'"
      by (auto simp: in_protocol_def obind_eq_Ret split: if_splits)
    from Suc.IH [OF l(2)] obtain ms where "length ms < n" "session R buf1 w2 ms v buf' w'" by blast
    with session.message [OF r _ _ l(1)] True show ?thesis
      by (intro exI [of _ "take (nat ret - 1) (drop 1 buf1) # ms"]) simp
  next
    case False
    with Suc.prems r session.verdict [OF r] session.broken [OF r] have "session R buf w [] v buf' w'"
      by (auto simp: in_protocol_def split: if_splits)
    then show ?thesis by (intro exI [of _ "[]"]) simp
  qed
qed simp

lemma boot_results_session:
  "boot_results R n buf w = Ret (v, buf') w' \<longleftrightarrow> (\<exists>ms. length ms < n \<and> session R buf w ms v buf' w')"
  using session_results results_session by blast
section \<open>The command line, on a real console\<close>

text \<open>The static objects of the test runner, and what is asked of the host beside the console.\<close>

definition runner_static :: "('v, 'z) con_world_scheme \<Rightarrow> bool" where
  "runner_static c \<longleftrightarrow> con_static c \<and> port_static comm_input comm_input_raw comm_output comm_output_raw c \<and>
     map_option length (dmem c msg_buf) = Some 64 \<and> map_option length (dmem c cmdline_addr) = Some 256"

definition runner_host :: "'v host \<Rightarrow> bool" where
  "runner_host H \<longleftrightarrow> con_host H \<and> leaves H msg_buf \<and>
     host_keeps H (\<lambda>d. map_option length (d cmdline_addr) = Some 256)"

definition requested :: "bytes \<Rightarrow> nat \<Rightarrow> bool" where
  "requested cl n \<longleftrightarrow> 9 < n \<and> take 9 cl = cstr ''boottest ''"

lemma boottest_string: "boottest_cmd = cstr ''boottest '' @ [0]" "0 \<notin> set (cstr ''boottest '')" "length (cstr ''boottest '') = 9"
  by (simp_all add: boottest_cmd_def cstr_def)

lemma starts_with_boottest: "n \<le> length cl \<Longrightarrow> starts_with boottest_cmd cl n = Some (requested cl n)"
  unfolding boottest_string(1) by (simp add: starts_with_string [OF boottest_string(2)] boottest_string(3) requested_def)

lemma via_con_boots:
  "boots l Q (f (snd (env w))) \<Longrightarrow> boots l (\<lambda>a w'. Q a (snd (env w')) \<and> env_only w w') (via_con f w)"
  by (auto simp: via_con_def boots_def env_only_def split: outcome.splits)

context console_device begin

lemma init_console_boots:
  assumes "runner_host H" "runner_static c" "no_fault (vo_probe_console (T H) c)" "l \<Longrightarrow> offers (T H) H c"
  shows "boots l (\<lambda>r c'. r \<noteq> 0 \<longrightarrow> con_ok c' \<and> port_static comm_input comm_input_raw comm_output comm_output_raw c' \<and>
      map_option length (dmem c' msg_buf) = Some 64 \<and> map_option length (dmem c' cmdline_addr) = Some 256)
    (init_virtio_console H (T H) c)"
proof -
  have H: "con_host H" "leaves H msg_buf" "host_keeps H (\<lambda>d. map_option length (d cmdline_addr) = Some 256)"
    and c: "con_static c" "port_static comm_input comm_input_raw comm_output comm_output_raw c"
    "map_option length (dmem c msg_buf) = Some 64" "map_option length (dmem c cmdline_addr) = Some 256"
    using assms(1,2) by (simp_all add: runner_host_def runner_static_def)
  have rest: "port_static comm_input comm_input_raw comm_output comm_output_raw c' \<and>
      map_option length (dmem c' msg_buf) = Some 64 \<and> map_option length (dmem c' cmdline_addr) = Some 256"
    if "spares H c c'" for c'
  proof (intro conjI)
    show "port_static comm_input comm_input_raw comm_output comm_output_raw c'"
      using that c(2) by (rule spares_port_static)
    obtain b where b: "dmem c msg_buf = Some b" using c(3) by auto
    have "dmem c' msg_buf = Some b"
      by (rule spares_data [OF that _ off_stack_at]) (use H(2) b in \<open>auto simp: leaves_def stack_msgs_def\<close>)
    with c(3) b show "map_option length (dmem c' msg_buf) = Some 64" by simp
    show "map_option length (dmem c' cmdline_addr) = Some 256"
      by (rule spares_data [OF that H(3) off_stack_at]) (use c(4) in \<open>auto simp: stack_msgs_def\<close>)
  qed
  have "boots l (\<lambda>r c'. if r = 0 then \<not> l else r = console_addr \<and> con_ok c') (init_virtio_console H (T H) c)"
    by (rule init_ok [OF H(1) c(1) assms(3,4)])
  with spares_init [OF H(1) c(1)] rest show ?thesis
    by (cases "init_virtio_console H (T H) c") (auto split: if_splits)
qed

lemma init_log_boots:
  assumes "runner_host H" "con_ok c" "port_static comm_input comm_input_raw comm_output comm_output_raw c"
    and "map_option length (dmem c msg_buf) = Some 64" "map_option length (dmem c cmdline_addr) = Some 256"
    and "l \<Longrightarrow> vq_live H cmd_output_raw"
  shows "boots l (\<lambda>r c'. r = 0 \<longrightarrow> comm_ok c' \<and> map_option length (dmem c' cmdline_addr) = Some 256) (init_log H (T H) c)"
proof -
  have H: "con_host H" "leaves H msg_buf" "host_keeps H (\<lambda>d. map_option length (d cmdline_addr) = Some 256)"
    using assms(1) by (simp_all add: runner_host_def)
  obtain b where b: "dmem c msg_buf = Some b" "length b = 64" using assms(4) by auto
  have "on_ret (\<lambda>_ c'. dmem c' msg_buf = Some b) (init_log H (T H) c)"
    by (rule init_log_data [OF H(1) assms(2,3) _ off_stack_at]) (use H(2) b in \<open>auto simp: leaves_def stack_msgs_def\<close>)
  moreover have "on_ret (\<lambda>_ c'. map_option length (dmem c' cmdline_addr) = Some 256) (init_log H (T H) c)"
    by (rule init_log_data [OF H(1) assms(2,3) H(3) off_stack_at]) (use assms(5) in \<open>auto simp: stack_msgs_def\<close>)
  moreover note ends_weaken [OF init_log_ok [OF H(1) assms(2,3)] assms(6), where l' = l]
  ultimately show ?thesis
    by (cases "init_log H (T H) c") (auto simp: comm_ok_def b(2) split: option.splits if_splits)
qed

end
text \<open>The three steps together.\<close>

definition fetched :: "bool option \<Rightarrow> ('v, 'z) con_world_scheme \<Rightarrow> bool" where
  "fetched r c \<longleftrightarrow> (\<forall>b. r = Some b \<longrightarrow> comm_ok c \<and>
     (\<exists>cl n. dmem c cmdline_addr = Some cl \<and> length cl = 256 \<and> n < 256 \<and> cl ! n = 0 \<and> b = requested cl n))"

lemma boot_cmdline_boots:
  fixes R :: "('t, 'v) runner"
  assumes T: "rn_ops R = mmio_ops (rn_host R) \<or> rn_ops R = pci_ops log start (rn_host R)"
    and H: "runner_host (rn_host R)" and c: "runner_static (snd (env w))"
    and probe: "no_fault (vo_probe_console (rn_ops R) (snd (env w)))"
    and live: "l \<Longrightarrow> offers (rn_ops R) (rn_host R) (snd (env w)) \<and> vq_live (rn_host R) comm_input_raw"
  shows "boots l (\<lambda>r w'. fetched r (snd (env w'))) (boot_cmdline R w)"
proof -
  let ?H = "rn_host R" and ?T = "rn_ops R"
  let ?ready = "\<lambda>c. con_ok c \<and> port_static comm_input comm_input_raw comm_output comm_output_raw c \<and>
      map_option length (dmem c msg_buf) = Some 64 \<and> map_option length (dmem c cmdline_addr) = Some 256"
  have out: "l \<Longrightarrow> vq_live ?H cmd_output_raw" using live by (simp add: offers_def)
  have init: "boots l (\<lambda>r c'. r \<noteq> 0 \<longrightarrow> ?ready c') (init_virtio_console ?H ?T (snd (env w)))"
    using T mmio_console.init_console_boots [OF H c, of l] pci_console.init_console_boots [OF H c, of log start l] probe live
    by auto
  have log: "boots l (\<lambda>r c'. r = 0 \<longrightarrow> comm_ok c' \<and> map_option length (dmem c' cmdline_addr) = Some 256) (init_log ?H ?T c')"
    if "?ready c'" for c'
    using T mmio_console.init_log_boots [OF H, of c' l] pci_console.init_log_boots [OF H, of c' l log start] that out
    by (elim disjE) simp_all
  have h: "host_ok ?H" "leaves ?H msg_buf" "host_keeps ?H (\<lambda>d. map_option length (d cmdline_addr) = Some (unat (256 :: u64)))"
    using H by (simp_all add: runner_host_def con_host_def)
  have cmd: "boots l (\<lambda>n c''. n < 256 \<and> comm_ok c'' \<and> (\<exists>b. dmem c'' cmdline_addr = Some b \<and> length b = 256 \<and> b ! unat n = 0))
      (host_get_cmdline ?H ?T cmdline_addr 256 c')"
    if "comm_ok c'" "map_option length (dmem c' cmdline_addr) = Some 256" for c'
  proof -
    have "map_option length (dmem c' cmdline_addr) = Some (unat (256 :: u64))" "(256 :: u64) \<noteq> 0" "cmdline_addr \<noteq> msg_buf"
      using that(2) by simp_all
    note g = mmio_console.host_get_cmdline_ok [OF h that(1) this] pci_console.host_get_cmdline_ok [OF h that(1) this, of log start]
    have "ends (vq_live ?H comm_input_raw) (\<lambda>n c''. n < 256 \<and> comm_ok c'' \<and>
        (\<exists>b. dmem c'' cmdline_addr = Some b \<and> length b = unat (256 :: u64) \<and> b ! unat n = 0)) (host_get_cmdline ?H ?T cmdline_addr 256 c')"
      using T g by auto
    then have "ends l (\<lambda>n c''. n < 256 \<and> comm_ok c'' \<and>
        (\<exists>b. dmem c'' cmdline_addr = Some b \<and> length b = unat (256 :: u64) \<and> b ! unat n = 0)) (host_get_cmdline ?H ?T cmdline_addr 256 c')"
      by (rule ends_weaken) (use live in blast)
    then show ?thesis by (intro boots_ends) simp
  qed
  have fin: "boots l (\<lambda>r w'. fetched r (snd (env w')))
      (case dmem (snd (env w3)) cmdline_addr of None \<Rightarrow> Fault
       | Some cl \<Rightarrow> (case starts_with boottest_cmd cl (unat n) of None \<Rightarrow> Fault | Some b \<Rightarrow> Ret (Some b) w3))"
    if "n < 256" "comm_ok (snd (env w3))" "dmem (snd (env w3)) cmdline_addr = Some b" "length b = 256" "b ! unat n = 0"
    for n :: u64 and w3 :: "('t, 'v) run_world" and b
  proof -
    have n: "unat n < 256" using that(1) by (simp add: word_less_nat_alt)
    then show ?thesis using that(2-5) starts_with_boottest [of "unat n" b] by (auto simp: fetched_def)
  qed
  have vinit: "boots l (\<lambda>r w'. (r \<noteq> 0 \<longrightarrow> ?ready (snd (env w'))) \<and> env_only w w') (via_con (init_virtio_console ?H ?T) w)"
    by (rule via_con_boots, rule init)
  have vlog: "boots l (\<lambda>r w'. (r = 0 \<longrightarrow> comm_ok (snd (env w')) \<and> map_option length (dmem (snd (env w')) cmdline_addr) = Some 256) \<and>
      env_only w1 w') (via_con (init_log ?H ?T) w1)" if "?ready (snd (env w1))" for w1 :: "('t, 'v) run_world"
    by (rule via_con_boots, rule log [OF that])
  have vcmd: "boots l (\<lambda>n w'. (n < 256 \<and> comm_ok (snd (env w')) \<and>
      (\<exists>b. dmem (snd (env w')) cmdline_addr = Some b \<and> length b = 256 \<and> b ! unat n = 0)) \<and> env_only w2 w')
      (via_con (host_get_cmdline ?H ?T cmdline_addr 256) w2)"
    if "comm_ok (snd (env w2))" "map_option length (dmem (snd (env w2)) cmdline_addr) = Some 256" for w2 :: "('t, 'v) run_world"
    by (rule via_con_boots, rule cmd [OF that])
  have none: "fetched None c'" for c' :: "'v con_world" by (simp add: fetched_def)
  show ?thesis
    unfolding boot_cmdline_def
  proof (rule boots_bind [OF vinit], goal_cases)
    case (1 r w1)
    show ?case
    proof (cases "r = 0")
      case False
      with 1 have "?ready (snd (env w1))" by blast
      note vlog = vlog [OF this]
      show ?thesis
        unfolding if_not_P [OF False]
      proof (rule boots_bind [OF vlog], goal_cases)
        case (1 ret w2)
        then show ?case by (auto simp: none intro!: boots_bind [OF vcmd] fin)
      qed
    qed (simp add: none)
  qed
qed
section \<open>Properties\<close>


text \<open>A host with a console that sends no control messages and serves every other queue.\<close>

definition quiet_host :: "unit host" where
  "quiet_host =
     \<lparr>reg_write = (\<lambda>_ _ _ s. s),
      reg_read = (\<lambda>_ a s. (if a = 0xa000000 then 0x74726976 else if a = 0xa000008 then 3
        else if a = 0xa000010 then 2 else if a = 0xa000070 then 15 else 0, s)),
      host_poll = (\<lambda>(e, r, d). (e, \<lambda>a. if a = cmd_input_raw then r a else map_option serve_raw (r a), d)),
      host_fuel = 0\<rparr>"

definition quiet_boot :: "unit con_world" where
  "quiet_boot = (let c = console_boot () in
     c\<lparr>raws := (raws c)(comm_input_raw \<mapsto> demo_raw 0 0, comm_output_raw \<mapsto> demo_raw 0 0),
       dmem := (dmem c)(msg_buf \<mapsto> replicate 64 0, cmdline_addr \<mapsto> replicate 256 0)\<rparr>)"

lemma quiet_host_ok:
  "runner_host quiet_host" "a \<noteq> cmd_input_raw \<Longrightarrow> vq_live quiet_host a" "host_delivers quiet_host (\<lambda>_. 0)"
proof -
  have "polite r (\<lambda>a. if a = cmd_input_raw then r a else map_option serve_raw (r a))" for r
    by (simp add: polite_def serve_raw_def option.map_comp comp_def min_plus_diff)
  then have "host_ok quiet_host" by (simp add: host_ok_def quiet_host_def)
  then show "runner_host quiet_host"
    by (simp add: runner_host_def con_host_def leaves_def host_keeps_def) (simp add: quiet_host_def)
  have "host_progress quiet_host (\<lambda>_. 0) a" if "a \<noteq> cmd_input_raw"
    using that by (auto simp: host_progress_def quiet_host_def serve_raw_def)
  then show "vq_live quiet_host a" if "a \<noteq> cmd_input_raw" using that by (auto simp: vq_live_def)
  show "host_delivers quiet_host (\<lambda>_. 0)" by (simp add: host_delivers_def quiet_host_def unread_def)
qed

lemma quiet_boot_static: "runner_static quiet_boot"
proof -
  have "rows_ok (dmem quiet_boot)" "ports_ok (con_ports quiet_boot)"
    using console_boot_static [of "()"] rows_ok_local
    by (simp_all add: con_static_def quiet_boot_def Let_def)
  moreover have "raw_static q raw quiet_boot" if "raw \<in> {cmd_input_raw, cmd_output_raw, comm_input_raw, comm_output_raw}" for q raw
    using that by (auto simp: raw_static_def raw_size_def quiet_boot_def console_boot_def demo_raw_def Let_def)
  ultimately have "con_static quiet_boot" "port_static comm_input comm_input_raw comm_output comm_output_raw quiet_boot"
    by (simp_all add: con_static_def port_static_def foreign_def)
  moreover have "dmem quiet_boot msg_buf = Some (replicate 64 0)" "dmem quiet_boot cmdline_addr = Some (replicate 256 0)"
    by (simp_all add: quiet_boot_def Let_def)
  ultimately show ?thesis by (simp add: runner_static_def)
qed

lemma quiet_probe: "\<exists>w'. mmio_probe_console quiet_host w = Ret 0xa000000 w'"
  unfolding mmio_probe_console_def
  by (subst mmio_probe_loop.simps)
     (simp add: io_read_32_def io_read_def quiet_host_def VIRTIO_MMIO_BASE_def VIRTIO_MMIO_MAGIC_def
       VIRTIO_DEVICE_ID_CONSOLE_def Let_def)

lemma quiet_offers: "offers (mmio_ops quiet_host) quiet_host quiet_boot"
proof -
  have "agrees (mmio_ops quiet_host) 0xa000000"
    by (simp add: agrees_def mmio_ops_def mmio_get_features_def mmio_get_status_def io_defs io_read_def io_write_def
      quiet_host_def Let_def DESIRED_FEATURES_def VIRTIO_CONSOLE_F_MULTIPORT_def VIRTIO_STATUS_FEATURES_OK_def)
  moreover have "backlog (\<lambda>_. 0) quiet_boot \<le> host_fuel quiet_host"
    by (simp add: backlog_def unread_def quiet_boot_def console_boot_def demo_raw_def Let_def)
  moreover have "vq_live quiet_host cmd_output_raw" by (simp add: quiet_host_ok(2))
  ultimately show ?thesis
    using quiet_probe [of quiet_boot] quiet_host_ok(3) by (auto simp: offers_def) (auto simp: mmio_ops_def)
qed


text \<open>
  C31: who leaves the main program, and how. Only the first processor does; and when the next system is
  started then the state of the library is untouched: no monitor call was made, no memory was allocated
  or shared and no channel was opened.
\<close>

theorem boot_next_untouched:
  "on_ret (\<lambda>r w'. cpu = 0 \<and> (r = Returned \<or> env_only w w')) (boot R cpu w)"
proof (cases "cpu = 0")
  case False
  then show ?thesis by (auto simp: boot_def boot_secondary_forever intro: on_retI)
next
  case True
  have tests: "boot_tests R dev w1 = Ret r w2 \<Longrightarrow> r = Returned" for dev w1 r w2
    using on_retD [OF boot_tests_Returned] .
  have next_os: "via_outside f w1 = Ret r w2 \<Longrightarrow> env_only w w1 \<Longrightarrow> env_only w w2"
    for f :: "'a \<Rightarrow> boot_end \<times> 'a" and w1 r w2
    using via_outside_only [of w1 f] by (auto simp: returns_iff intro: env_only_trans)
  show ?thesis
    by (rule on_retI)
       (use True in \<open>auto simp: boot_def obind_eq_Ret split: if_splits option.splits bool.splits
         dest: tests next_os on_retD [OF boot_cmdline_only]\<close>)
qed

end
