(* ===== verification/Uboot_Storage.thy ===== *)
theory Uboot_Storage
  imports Rpmb_Proxy
begin

text \<open>
  The RPMB driver of the U-Boot example, \<open>ql-tipc/examples/u-boot/storage_ops_uboot.c\<close>: \<open>rpmb_storage_send\<close>
  switches the card to its RPMB partition, passes the frames on and switches back. The functions of
  U-Boot are the parameter \<open>U\<close>. The lemmas show that the accesses reach the RPMB partition of the card in
  the right order, and that the partition the card had selected is restored on every path, or the caller told that it could not be.
\<close>

section \<open>U-Boot\<close>

text \<open>
  The state: the field \<open>block_dev.hwpart\<close> of every \<open>struct mmc\<close>, given by its address, and the rest,
  which is U-Boot's. The parameter: U-Boot's functions, its number of the RPMB partition, and what a buffer
  on the stack contains before it is written.
\<close>

record 'e mmc_world =
  hwpart :: "u64 \<Rightarrow> u8"
  mmc_env :: 'e

record 'e uboot =
  mmc_get_env_dev :: "'e mmc_world \<Rightarrow> int \<times> 'e mmc_world"
  find_mmc_device :: "int \<Rightarrow> 'e mmc_world \<Rightarrow> u64 \<times> 'e mmc_world"
  mmc_switch_part :: "u64 \<Rightarrow> u8 \<Rightarrow> 'e mmc_world \<Rightarrow> int \<times> 'e mmc_world"
  mmc_rpmb_request :: "u64 \<Rightarrow> bytes \<Rightarrow> u64 \<Rightarrow> bool \<Rightarrow> 'e mmc_world \<Rightarrow> int \<times> 'e mmc_world"
  mmc_rpmb_response :: "u64 \<Rightarrow> bytes \<Rightarrow> u64 \<Rightarrow> int \<Rightarrow> 'e mmc_world \<Rightarrow> (int \<times> bytes) \<times> 'e mmc_world"
  MMC_PART_RPMB :: u8
  stack_bytes :: "nat \<Rightarrow> bytes"

definition via_mmc :: "('w \<Rightarrow> 'a \<times> 'w) \<Rightarrow> 'w \<Rightarrow> ('a, 'w) outcome" where
  "via_mmc f w = (case f w of (r, w') \<Rightarrow> Ret r w')"

definition set_hwpart :: "u64 \<Rightarrow> u8 \<Rightarrow> 'e mmc_world \<Rightarrow> 'e mmc_world" where
  "set_hwpart mmc part w = w\<lparr>hwpart := (hwpart w)(mmc := part)\<rparr>"

section \<open>Operations\<close>

definition uboot_get_ctx :: "'e mmc_world \<Rightarrow> u64 \<times> 'e mmc_world" where
  "uboot_get_ctx w = (0, w)"

definition uboot_put_ctx :: "u64 \<Rightarrow> 'e mmc_world \<Rightarrow> 'e mmc_world" where
  "uboot_put_ctx dev w = w"

text \<open>The two write regions are treated alike; \<open>is_rel_write\<close> tells the reliable write.\<close>

definition uboot_write ::
  "'e uboot \<Rightarrow> u64 \<Rightarrow> bool \<Rightarrow> bytes \<Rightarrow> u64 \<Rightarrow> 'e mmc_world \<Rightarrow> (int, 'e mmc_world) outcome"
where
  "uboot_write U mmc is_rel_write data sz w =
     (if sz = 0 then Ret TRUSTY_ERR_NONE w
      else if sz mod ucast MMC_BLOCK_SIZE \<noteq> 0 then Ret TRUSTY_ERR_INVALID_ARGS w
      else if length data < unat sz then Fault
      else via_mmc (mmc_rpmb_request U mmc (take (unat sz) data) (sz div ucast MMC_BLOCK_SIZE) is_rel_write) w)"

text \<open>The result has the bytes that are copied to the front of \<open>read_buf\<close>.\<close>

definition uboot_read :: "'e uboot \<Rightarrow> u64 \<Rightarrow> u64 \<Rightarrow> 'e mmc_world \<Rightarrow> (int \<times> bytes, 'e mmc_world) outcome" where
  "uboot_read U mmc sz w =
     (if sz = 0 then Ret (TRUSTY_ERR_NONE, []) w
      else if sz mod ucast MMC_BLOCK_SIZE \<noteq> 0 then Ret (TRUSTY_ERR_INVALID_ARGS, []) w
      else
        obind (via_mmc (mmc_rpmb_response U mmc (stack_bytes U (unat sz)) (sz div ucast MMC_BLOCK_SIZE) 0) w)
          (\<lambda>(ret, rpmb_read_data) w.
        if length rpmb_read_data < unat sz then Fault else Ret (ret, take (unat sz) rpmb_read_data) w))"

text \<open>The label \<open>end\<close>.\<close>

definition uboot_end ::
  "'e uboot \<Rightarrow> u64 \<Rightarrow> u8 \<Rightarrow> int \<times> bytes \<Rightarrow> 'e mmc_world \<Rightarrow> (int \<times> bytes, 'e mmc_world) outcome"
where
  "uboot_end U mmc original_part res w =
     (if hwpart w mmc \<noteq> original_part then
        obind (via_mmc (mmc_switch_part U mmc original_part) w) (\<lambda>rc w.
        if rc \<noteq> 0 then Ret (TRUSTY_ERR_GENERIC, snd res) w
        else Ret res (set_hwpart mmc original_part w))
      else Ret res w)"

definition uboot_rpmb_storage_send ::
  "'e uboot \<Rightarrow> bytes \<Rightarrow> u64 \<Rightarrow> bytes \<Rightarrow> u64 \<Rightarrow> u64 \<Rightarrow> 'e mmc_world \<Rightarrow> (int \<times> bytes, 'e mmc_world) outcome"
where
  "uboot_rpmb_storage_send U rel_write_data rel_write_size write_data write_size read_size w =
     obind (via_mmc (mmc_get_env_dev U) w) (\<lambda>dev w.
     obind (via_mmc (find_mmc_device U dev) w) (\<lambda>mmc w.
     if mmc = 0 then Fault else
     let original_part = hwpart w mmc in
     obind (if hwpart w mmc \<noteq> MMC_PART_RPMB U then
         obind (via_mmc (mmc_switch_part U mmc (MMC_PART_RPMB U)) w) (\<lambda>ret w.
         if ret \<noteq> 0 then Ret TRUSTY_ERR_GENERIC w
         else Ret ret (set_hwpart mmc (MMC_PART_RPMB U) w))
       else Ret TRUSTY_ERR_NONE w) (\<lambda>ret w.
     if ret \<noteq> 0 then uboot_end U mmc original_part (ret, []) w else
     obind (uboot_write U mmc True rel_write_data rel_write_size w) (\<lambda>ret w.
     if ret \<noteq> 0 then uboot_end U mmc original_part (ret, []) w else
     obind (uboot_write U mmc False write_data write_size w) (\<lambda>ret w.
     if ret \<noteq> 0 then uboot_end U mmc original_part (ret, []) w else
     obind (uboot_read U mmc read_size w) (\<lambda>res w.
     uboot_end U mmc original_part res w))))))"

text \<open>
  The driver as the storage proxy sees it, which passes it the regions of a request; a fault, which is
  shown not to happen, has no value there.
\<close>

definition uboot_rpmb :: "'e uboot \<Rightarrow> 'e mmc_world rpmb_impl" where
  "uboot_rpmb U =
     \<lparr>rpmb_send = (\<lambda>ctx rel wr n w.
        case uboot_rpmb_storage_send U rel (of_nat (length rel)) wr (of_nat (length wr)) n w of
          Ret res w' \<Rightarrow> (res, w')
        | _ \<Rightarrow> undefined),
      rpmb_get_ctx = uboot_get_ctx, rpmb_put_ctx = uboot_put_ctx\<rparr>"

section \<open>The card\<close>

text \<open>
  What U-Boot promises. A card has a selected partition and an RPMB engine with a write operation, which
  is told a reliable write from a plain one, and a read operation, which gives the frames of so many
  blocks; each is a function of the state of U-Boot's part of the world.
\<close>

record ('e, 's) card =
  card_part :: "'e \<Rightarrow> u8"
  card_engine :: "'e \<Rightarrow> 's"
  engine_write :: "'s \<Rightarrow> bool \<Rightarrow> bytes \<Rightarrow> 's"
  engine_read :: "'s \<Rightarrow> nat \<Rightarrow> bytes \<times> 's"

abbreviation (input) engine :: "('e, 's) card \<Rightarrow> 'e mmc_world \<Rightarrow> 's" where
  "engine C w \<equiv> card_engine C (mmc_env w)"

text \<open>The recorded partition of a card is the selected one.\<close>

definition synced :: "('e, 's) card \<Rightarrow> u64 \<Rightarrow> 'e mmc_world \<Rightarrow> bool" where
  "synced C mmc w \<longleftrightarrow> hwpart w mmc = card_part C (mmc_env w)"

text \<open>
  The card of the environment is found; looking for it changes nothing. Switching leaves the engine
  alone, and when it fails the selection too; whether it records the partition itself is left open. When the
  RPMB partition is selected, a request and a response leave the selection alone, and when they give 0
  they are the operations of the engine.
\<close>

definition switch_ok :: "'e uboot \<Rightarrow> u64 \<Rightarrow> ('e, 's) card \<Rightarrow> bool" where
  "switch_ok U mmc C \<longleftrightarrow> (\<forall>p w r w'. mmc_switch_part U mmc p w = (r, w') \<longrightarrow>
     engine C w' = engine C w \<and> (\<forall>d. d \<noteq> mmc \<longrightarrow> hwpart w' d = hwpart w d) \<and>
     (if r = 0 then card_part C (mmc_env w') = p \<and> hwpart w' mmc \<in> {hwpart w mmc, p}
      else card_part C (mmc_env w') = card_part C (mmc_env w) \<and> hwpart w' mmc = hwpart w mmc))"

definition request_ok :: "'e uboot \<Rightarrow> u64 \<Rightarrow> ('e, 's) card \<Rightarrow> bool" where
  "request_ok U mmc C \<longleftrightarrow> (\<forall>frames n rel w r w'. mmc_rpmb_request U mmc frames n rel w = (r, w') \<longrightarrow>
     card_part C (mmc_env w) = MMC_PART_RPMB U \<longrightarrow> length frames = 512 * unat n \<longrightarrow>
     hwpart w' = hwpart w \<and> card_part C (mmc_env w') = card_part C (mmc_env w) \<and>
     (r = 0 \<longrightarrow> engine C w' = engine_write C (engine C w) rel frames))"

definition response_ok :: "'e uboot \<Rightarrow> u64 \<Rightarrow> ('e, 's) card \<Rightarrow> bool" where
  "response_ok U mmc C \<longleftrightarrow> (\<forall>buf n w r bs w'. mmc_rpmb_response U mmc buf n 0 w = ((r, bs), w') \<longrightarrow>
     card_part C (mmc_env w) = MMC_PART_RPMB U \<longrightarrow> length buf = 512 * unat n \<longrightarrow>
     hwpart w' = hwpart w \<and> card_part C (mmc_env w') = card_part C (mmc_env w) \<and> length bs = length buf \<and>
     (r = 0 \<longrightarrow> (bs, engine C w') = engine_read C (engine C w) (unat n)))"

definition mmc_ok :: "'e uboot \<Rightarrow> u64 \<Rightarrow> ('e, 's) card \<Rightarrow> bool" where
  "mmc_ok U mmc C \<longleftrightarrow> mmc \<noteq> 0 \<and>
     (\<forall>w. snd (mmc_get_env_dev U w) = w) \<and> (\<forall>n w. find_mmc_device U n w = (mmc, w)) \<and>
     switch_ok U mmc C \<and> request_ok U mmc C \<and> response_ok U mmc C \<and> (\<forall>n. length (stack_bytes U n) = n)"

text \<open>An access to the engine: the reliable write, the write, the read, each when its region is not empty.\<close>

definition rpmb_access :: "('e, 's) card \<Rightarrow> bytes \<Rightarrow> bytes \<Rightarrow> nat \<Rightarrow> 's \<Rightarrow> bytes \<times> 's" where
  "rpmb_access C rel wr n s =
     (let s = if rel = [] then s else engine_write C s True rel;
          s = if wr = [] then s else engine_write C s False wr
      in if n = 0 then ([], s) else engine_read C s (n div 512))"

section \<open>Lemmas: the stages\<close>

lemma via_mmc_simp [simp]: "f w = (r, w') \<Longrightarrow> via_mmc f w = Ret r w'"
  by (simp add: via_mmc_def)

lemma mod_block64: "x mod ucast MMC_BLOCK_SIZE = (0 :: u64) \<longleftrightarrow> 512 dvd unat x"
  by (simp add: MMC_BLOCK_SIZE_def word_unat_eq_iff unat_mod dvd_eq_mod_eq_0)

lemma div_block64: "512 dvd unat x \<Longrightarrow> 512 * unat (x div ucast MMC_BLOCK_SIZE :: u64) = unat x"
  by (simp add: MMC_BLOCK_SIZE_def unat_div)

text \<open>\<open>others mmc w w'\<close>: nothing is recorded for other cards.\<close>

definition others :: "u64 \<Rightarrow> 'e mmc_world \<Rightarrow> 'e mmc_world \<Rightarrow> bool" where
  "others mmc w w' \<longleftrightarrow> (\<forall>d. d \<noteq> mmc \<longrightarrow> hwpart w' d = hwpart w d)"

lemma mmc_switchE:
  assumes "mmc_ok U mmc C" "synced C mmc w"
  obtains r w' where "mmc_switch_part U mmc p w = (r, w')" "engine C w' = engine C w" "others mmc w w'"
    "r = 0 \<Longrightarrow> synced C mmc (set_hwpart mmc p w')" "r \<noteq> 0 \<Longrightarrow> synced C mmc w' \<and> hwpart w' mmc = hwpart w mmc"
proof (cases "mmc_switch_part U mmc p w")
  case (Pair r w')
  from assms(1) have "switch_ok U mmc C" by (simp add: mmc_ok_def)
  then have "engine C w' = engine C w \<and> (\<forall>d. d \<noteq> mmc \<longrightarrow> hwpart w' d = hwpart w d) \<and>
        (if r = 0 then card_part C (mmc_env w') = p \<and> hwpart w' mmc \<in> {hwpart w mmc, p}
         else card_part C (mmc_env w') = card_part C (mmc_env w) \<and> hwpart w' mmc = hwpart w mmc)"
    using Pair unfolding switch_ok_def by presburger
  with Pair assms(2) show thesis
    by (intro that [of r w']) (auto simp: synced_def set_hwpart_def others_def split: if_splits)
qed

text \<open>A stage keeps the recorded and the selected partition, and does its part when it gives 0.\<close>

lemma uboot_write_ok:
  assumes "mmc_ok U mmc C" "synced C mmc w" "hwpart w mmc = MMC_PART_RPMB U" "length data = unat sz"
  shows "returns (\<lambda>r w'. synced C mmc w' \<and> hwpart w' = hwpart w \<and>
      (r = 0 \<longrightarrow> 512 dvd unat sz \<and> engine C w' = (if data = [] then engine C w else engine_write C (engine C w) rel data)))
    (uboot_write U mmc rel data sz w)"
proof (cases "sz = 0 \<or> \<not> 512 dvd unat sz")
  case True
  with assms(2,4) show ?thesis
    by (auto simp: uboot_write_def mod_block64 TRUSTY_ERR_NONE_def TRUSTY_ERR_INVALID_ARGS_def)
next
  case False
  obtain r w' where m: "mmc_rpmb_request U mmc data (sz div ucast MMC_BLOCK_SIZE) rel w = (r, w')" by fastforce
  from assms(1) have "request_ok U mmc C" by (simp add: mmc_ok_def)
  moreover have "card_part C (mmc_env w) = MMC_PART_RPMB U" "length data = 512 * unat (sz div ucast MMC_BLOCK_SIZE)"
    using assms False by (simp_all add: synced_def div_block64)
  ultimately have "hwpart w' = hwpart w \<and> card_part C (mmc_env w') = card_part C (mmc_env w) \<and>
      (r = 0 \<longrightarrow> engine C w' = engine_write C (engine C w) rel data)"
    using m unfolding request_ok_def by presburger
  moreover have "data \<noteq> []" using False assms(4) by (auto simp: unat_eq_zero)
  ultimately show ?thesis using False assms(2,4) m
    by (simp add: uboot_write_def mod_block64 synced_def via_mmc_def)
qed
lemma uboot_read_ok:
  assumes "mmc_ok U mmc C" "synced C mmc w" "hwpart w mmc = MMC_PART_RPMB U"
  shows "returns (\<lambda>(r, bs) w'. synced C mmc w' \<and> hwpart w' = hwpart w \<and> length bs \<le> unat sz \<and>
      (r = 0 \<longrightarrow> 512 dvd unat sz \<and>
        (bs, engine C w') = (if sz = 0 then ([], engine C w) else engine_read C (engine C w) (unat sz div 512))))
    (uboot_read U mmc sz w)"
proof (cases "sz = 0 \<or> \<not> 512 dvd unat sz")
  case True
  with assms(2) show ?thesis
    by (auto simp: uboot_read_def mod_block64 TRUSTY_ERR_NONE_def TRUSTY_ERR_INVALID_ARGS_def)
next
  case False
  let ?n = "sz div ucast MMC_BLOCK_SIZE :: u64"
  obtain r bs w' where m: "mmc_rpmb_response U mmc (stack_bytes U (unat sz)) ?n 0 w = ((r, bs), w')"
    by (metis surj_pair)
  from assms(1) have "response_ok U mmc C" and l: "length (stack_bytes U (unat sz)) = unat sz" by (simp_all add: mmc_ok_def)
  moreover have "card_part C (mmc_env w) = MMC_PART_RPMB U" "length (stack_bytes U (unat sz)) = 512 * unat ?n"
    using assms False l by (simp_all add: synced_def div_block64)
  ultimately have "hwpart w' = hwpart w \<and> card_part C (mmc_env w') = card_part C (mmc_env w) \<and> length bs = unat sz \<and>
      (r = 0 \<longrightarrow> (bs, engine C w') = engine_read C (engine C w) (unat ?n))"
    using m unfolding response_ok_def by metis
  moreover have "unat ?n = unat sz div 512" using div_block64 [of sz] False by simp
  ultimately show ?thesis using False assms(2) m
    by (simp add: uboot_read_def mod_block64 synced_def via_mmc_def)
qed

lemma uboot_end_ok:
  assumes "mmc_ok U mmc C" "synced C mmc w"
  shows "returns (\<lambda>(r, bs) w'. synced C mmc w' \<and> others mmc w w' \<and> engine C w' = engine C w \<and> bs = snd res \<and>
      (hwpart w' mmc = part \<and> r = fst res \<or> hwpart w' mmc = hwpart w mmc \<and> r = TRUSTY_ERR_GENERIC))
    (uboot_end U mmc part res w)"
proof (cases "hwpart w mmc = part")
  case True
  with assms(2) show ?thesis by (cases res) (simp add: uboot_end_def others_def)
next
  case False
  from mmc_switchE [OF assms, of part] obtain r w' where "mmc_switch_part U mmc part w = (r, w')"
    "engine C w' = engine C w" "others mmc w w'" "r = 0 \<Longrightarrow> synced C mmc (set_hwpart mmc part w')"
    "r \<noteq> 0 \<Longrightarrow> synced C mmc w' \<and> hwpart w' mmc = hwpart w mmc" by metis
  with False show ?thesis
    by (cases res) (auto simp: uboot_end_def via_mmc_def set_hwpart_def others_def)
qed

text \<open>
  \<open>sent mmc C w rel wr n res w'\<close>: what an access promises, from the state \<open>w\<close> in which it begins.
\<close>

definition sent ::
  "u64 \<Rightarrow> ('e, 's) card \<Rightarrow> 'e mmc_world \<Rightarrow> bytes \<Rightarrow> bytes \<Rightarrow> nat \<Rightarrow> int \<times> bytes \<Rightarrow> 'e mmc_world \<Rightarrow> bool"
where
  "sent mmc C w rel wr n res w' \<longleftrightarrow>
     synced C mmc w' \<and> others mmc w w' \<and> (hwpart w' mmc = hwpart w mmc \<or> fst res = TRUSTY_ERR_GENERIC) \<and>
     length (snd res) \<le> n \<and>
     (fst res = 0 \<longrightarrow> 512 dvd length rel \<and> 512 dvd length wr \<and> 512 dvd n \<and>
        (snd res, engine C w') = rpmb_access C rel wr n (engine C w))"

text \<open>From a stage to the end: what holds before the partition is restored.\<close>

lemma uboot_end_sent:
  assumes "mmc_ok U mmc C" "synced C mmc w'" "others mmc w w'" "length (snd res) \<le> n"
    and "fst res = 0 \<Longrightarrow> 512 dvd length rel \<and> 512 dvd length wr \<and> 512 dvd n \<and>
        (snd res, engine C w') = rpmb_access C rel wr n (engine C w)"
  shows "returns (sent mmc C w rel wr n) (uboot_end U mmc (hwpart w mmc) res w')"
  by (rule returns_mono [OF uboot_end_ok [OF assms(1,2)]])
     (use assms(3-5) in \<open>auto simp: sent_def others_def TRUSTY_ERR_GENERIC_def\<close>)
text \<open>The transfers, once the RPMB partition is selected.\<close>

lemma uboot_transfers_sent:
  assumes "mmc_ok U mmc C" "length rel = unat rsz" "length wr = unat wsz"
    and w1: "synced C mmc w1" "hwpart w1 mmc = MMC_PART_RPMB U" "others mmc w w1" "engine C w1 = engine C w"
  shows "returns (sent mmc C w rel wr (unat n))
    (obind (uboot_write U mmc True rel rsz w1) (\<lambda>ret w'.
     if ret \<noteq> 0 then uboot_end U mmc (hwpart w mmc) (ret, []) w' else
     obind (uboot_write U mmc False wr wsz w') (\<lambda>ret w'.
     if ret \<noteq> 0 then uboot_end U mmc (hwpart w mmc) (ret, []) w' else
     obind (uboot_read U mmc n w') (\<lambda>res w'.
     uboot_end U mmc (hwpart w mmc) res w'))))"
proof (rule returns_obindI [OF uboot_write_ok [OF assms(1) w1(1,2) assms(2)]], elim conjE)
  fix r2 :: int and w2
  assume s2: "synced C mmc w2" "hwpart w2 = hwpart w1" and e2: "r2 = 0 \<longrightarrow> 512 dvd unat rsz \<and>
    engine C w2 = (if rel = [] then engine C w1 else engine_write C (engine C w1) True rel)"
  from s2 w1 have o2: "others mmc w w2" "hwpart w2 mmc = MMC_PART_RPMB U" by (simp_all add: others_def)
  note failed = uboot_end_sent [OF assms(1), where res = "(r, [])" for r, simplified]
  show "returns (sent mmc C w rel wr (unat n)) (if r2 \<noteq> 0 then uboot_end U mmc (hwpart w mmc) (r2, []) w2 else
     obind (uboot_write U mmc False wr wsz w2) (\<lambda>ret w'.
     if ret \<noteq> 0 then uboot_end U mmc (hwpart w mmc) (ret, []) w' else
     obind (uboot_read U mmc n w') (\<lambda>res w'. uboot_end U mmc (hwpart w mmc) res w')))"
  proof (cases "r2 = 0")
    case True
    have "returns (sent mmc C w rel wr (unat n)) (obind (uboot_write U mmc False wr wsz w2) (\<lambda>ret w'.
     if ret \<noteq> 0 then uboot_end U mmc (hwpart w mmc) (ret, []) w' else
     obind (uboot_read U mmc n w') (\<lambda>res w'. uboot_end U mmc (hwpart w mmc) res w')))"
    proof (rule returns_obindI [OF uboot_write_ok [OF assms(1) s2(1) o2(2) assms(3)]], elim conjE)
      fix r3 :: int and w3
      assume s3: "synced C mmc w3" "hwpart w3 = hwpart w2" and e3: "r3 = 0 \<longrightarrow> 512 dvd unat wsz \<and>
        engine C w3 = (if wr = [] then engine C w2 else engine_write C (engine C w2) False wr)"
      from s3 o2 have o3: "others mmc w w3" "hwpart w3 mmc = MMC_PART_RPMB U" by (simp_all add: others_def)
      have "returns (sent mmc C w rel wr (unat n))
          (obind (uboot_read U mmc n w3) (\<lambda>res w'. uboot_end U mmc (hwpart w mmc) res w'))" if "r3 = 0"
      proof (rule returns_obindI [OF uboot_read_ok [OF assms(1) s3(1) o3(2)]], clarify)
        fix r :: int and bs w4
        assume "synced C mmc w4" "hwpart w4 = hwpart w3" "length bs \<le> unat n" and e4: "r = 0 \<longrightarrow> 512 dvd unat n \<and>
          (bs, engine C w4) = (if n = 0 then ([], engine C w3) else engine_read C (engine C w3) (unat n div 512))"
        with o3 e2 e3 True that w1(4) show "returns (sent mmc C w rel wr (unat n)) (uboot_end U mmc (hwpart w mmc) (r, bs) w4)"
          by (intro uboot_end_sent [OF assms(1)])
             (auto simp: others_def rpmb_access_def assms(2,3) unat_eq_zero)
      qed
      with failed [OF s3(1) o3(1)] show "returns (sent mmc C w rel wr (unat n))
          (if r3 \<noteq> 0 then uboot_end U mmc (hwpart w mmc) (r3, []) w3
           else obind (uboot_read U mmc n w3) (\<lambda>res w'. uboot_end U mmc (hwpart w mmc) res w'))"
        by simp
    qed
    with True show ?thesis by simp
  qed (use failed [OF s2(1) o2(1)] in simp)
qed

text \<open>A card that never fails: an access to whole blocks gives 0.\<close>

definition mmc_never_fails :: "'e uboot \<Rightarrow> u64 \<Rightarrow> bool" where
  "mmc_never_fails U mmc \<longleftrightarrow>
     (\<forall>p w. fst (mmc_switch_part U mmc p w) = 0) \<and>
     (\<forall>frames n rel w. fst (mmc_rpmb_request U mmc frames n rel w) = 0) \<and>
     (\<forall>buf n w. fst (fst (mmc_rpmb_response U mmc buf n 0 w)) = 0)"

lemma via_mmc_never_fails:
  "mmc_never_fails U mmc \<Longrightarrow> via_mmc (mmc_switch_part U mmc p) w = Ret 0 (snd (mmc_switch_part U mmc p w))"
  "mmc_never_fails U mmc \<Longrightarrow>
   via_mmc (mmc_rpmb_request U mmc frames n rel) w = Ret 0 (snd (mmc_rpmb_request U mmc frames n rel w))"
  "mmc_never_fails U mmc \<Longrightarrow> on_ret (\<lambda>(r, bs) w. r = 0) (via_mmc (mmc_rpmb_response U mmc buf n 0) w)"
  unfolding mmc_never_fails_def via_mmc_def
  by (simp_all split: prod.splits) (metis fst_conv)+

lemma uboot_end_never_fails: "mmc_never_fails U mmc \<Longrightarrow> on_ret (\<lambda>res' w. res' = res) (uboot_end U mmc part res w)"
  by (simp add: uboot_end_def via_mmc_never_fails)

lemma uboot_write_never_fails:
  "mmc_never_fails U mmc \<Longrightarrow> 512 dvd unat sz \<Longrightarrow> on_ret (\<lambda>r w. r = 0) (uboot_write U mmc rel data sz w)"
  by (simp add: uboot_write_def mod_block64 via_mmc_never_fails TRUSTY_ERR_NONE_def)

lemma uboot_read_never_fails:
  "mmc_never_fails U mmc \<Longrightarrow> 512 dvd unat sz \<Longrightarrow> on_ret (\<lambda>res w. fst res = 0) (uboot_read U mmc sz w)"
  by (auto simp: uboot_read_def mod_block64 TRUSTY_ERR_NONE_def intro!: on_ret_mono [OF via_mmc_never_fails(3)])

lemma uboot_rpmb_storage_send_never_fails:
  assumes "mmc_never_fails U mmc" "mmc_ok U mmc C" "512 dvd unat rsz" "512 dvd unat wsz" "512 dvd unat n"
  shows "on_ret (\<lambda>res w. fst res = 0) (uboot_rpmb_storage_send U rel rsz wr wsz n w)"
proof -
  have start: "via_mmc (mmc_get_env_dev U) w = Ret (fst (mmc_get_env_dev U w)) w"
    "via_mmc (find_mmc_device U d) w = Ret mmc w" "mmc \<noteq> 0" for d
    using assms(2) by (simp_all add: mmc_ok_def via_mmc_def split: prod.split) (metis snd_conv)
  note stages = on_ret_mono [OF uboot_write_never_fails [OF assms(1)]]
    on_ret_mono [OF uboot_read_never_fails [OF assms(1,5)]] on_ret_mono [OF uboot_end_never_fails [OF assms(1)]]
  show ?thesis using assms(3,4)
    by (auto simp: uboot_rpmb_storage_send_def start Let_def via_mmc_never_fails [OF assms(1)] TRUSTY_ERR_NONE_def
        intro!: stages)
qed
lemma uboot_rpmb_storage_send_sent:
  assumes "mmc_ok U mmc C" "synced C mmc w"
    and "length rel_write_data = unat rel_write_size" "length write_data = unat write_size"
  shows "returns (sent mmc C w rel_write_data write_data (unat read_size))
    (uboot_rpmb_storage_send U rel_write_data rel_write_size write_data write_size read_size w)"
proof -
  have start: "via_mmc (mmc_get_env_dev U) w = Ret (fst (mmc_get_env_dev U w)) w"
    "via_mmc (find_mmc_device U d) w = Ret mmc w" "mmc \<noteq> 0" for d
    using assms(1) by (simp_all add: mmc_ok_def via_mmc_def split: prod.split) (metis snd_conv)
  note transfers = uboot_transfers_sent [OF assms(1,3,4), of _ w read_size]
  show ?thesis
  proof (cases "hwpart w mmc = MMC_PART_RPMB U")
    case True
    with assms(2) transfers [of w] show ?thesis
      by (simp add: uboot_rpmb_storage_send_def start Let_def TRUSTY_ERR_NONE_def others_def)
  next
    case False
    from mmc_switchE [OF assms(1,2), of "MMC_PART_RPMB U"] obtain r w1 where
      sw: "mmc_switch_part U mmc (MMC_PART_RPMB U) w = (r, w1)" and o: "engine C w1 = engine C w" "others mmc w w1"
      "r = 0 \<Longrightarrow> synced C mmc (set_hwpart mmc (MMC_PART_RPMB U) w1)"
      "r \<noteq> 0 \<Longrightarrow> synced C mmc w1 \<and> hwpart w1 mmc = hwpart w mmc" by metis
    show ?thesis
    proof (cases "r = 0")
      case True
      from o(1,2) have "others mmc w (set_hwpart mmc (MMC_PART_RPMB U) w1)"
        "engine C (set_hwpart mmc (MMC_PART_RPMB U) w1) = engine C w"
        "hwpart (set_hwpart mmc (MMC_PART_RPMB U) w1) mmc = MMC_PART_RPMB U"
        by (simp_all add: others_def set_hwpart_def)
      with transfers [OF o(3) [OF True]] sw True False show ?thesis
        by (simp add: uboot_rpmb_storage_send_def start Let_def)
    next
      case fail: False
      with sw False uboot_end_sent [OF assms(1) _ o(2), where res = "(TRUSTY_ERR_GENERIC, [])" and n = "unat read_size"] o(4)
      show ?thesis
        by (simp add: uboot_rpmb_storage_send_def start Let_def TRUSTY_ERR_GENERIC_def)
    qed
  qed
qed

section \<open>Properties\<close>

text \<open>
  C38: the U-Boot driver refines an access to the RPMB engine of the card. It returns for every request;
  the recorded partition of the card is the selected one afterwards and is the one selected before, unless the
  driver returns \<open>TRUSTY_ERR_GENERIC\<close>; nothing is recorded for other cards; no more than \<open>read_size\<close> bytes
  are put into the caller's buffer; and if the driver returns 0, all three sizes are multiples of the
  block size, the engine has done the reliable write, the write and the read in this order, each on the
  whole region, and the bytes are those it gave.
\<close>

theorem uboot_rpmb_storage_send_refines:
  assumes "mmc_ok U mmc C" "synced C mmc w"
    and "length rel_write_data = unat rel_write_size" "length write_data = unat write_size"
  shows "returns (\<lambda>res w'.
      synced C mmc w' \<and> (hwpart w' mmc = hwpart w mmc \<or> fst res = TRUSTY_ERR_GENERIC) \<and>
      (\<forall>d. d \<noteq> mmc \<longrightarrow> hwpart w' d = hwpart w d) \<and> length (snd res) \<le> unat read_size \<and>
      (fst res = 0 \<longrightarrow> 512 dvd unat rel_write_size \<and> 512 dvd unat write_size \<and> 512 dvd unat read_size \<and>
        (snd res, card_engine C (mmc_env w')) =
          rpmb_access C rel_write_data write_data (unat read_size) (card_engine C (mmc_env w))))
    (uboot_rpmb_storage_send U rel_write_data rel_write_size write_data write_size read_size w)"
  by (rule returns_mono [OF uboot_rpmb_storage_send_sent [OF assms]])
     (use assms(3,4) in \<open>auto simp: sent_def others_def\<close>)

text \<open>
  An example: a card whose engine is a number of blocks and a log of the writes; its state is the selected
  partition with the engine. It finds the card at 1, records nothing itself and never fails.
\<close>

definition demo_mmc :: "(u8 \<times> (bool \<times> bytes) list) uboot" where
  "demo_mmc =
     \<lparr>mmc_get_env_dev = (\<lambda>w. (0, w)), find_mmc_device = (\<lambda>n w. (1, w)),
      mmc_switch_part = (\<lambda>mmc p w. (0, w\<lparr>mmc_env := (p, snd (mmc_env w))\<rparr>)),
      mmc_rpmb_request = (\<lambda>mmc frames n rel w.
        (0, w\<lparr>mmc_env := (fst (mmc_env w), snd (mmc_env w) @ [(rel, frames)])\<rparr>)),
      mmc_rpmb_response = (\<lambda>mmc buf n x w. ((0, replicate (length buf) 7), w)),
      MMC_PART_RPMB = 3, stack_bytes = (\<lambda>n. replicate n 0)\<rparr>"

definition demo_card :: "(u8 \<times> (bool \<times> bytes) list, (bool \<times> bytes) list) card" where
  "demo_card =
     \<lparr>card_part = fst, card_engine = snd, engine_write = (\<lambda>s rel frames. s @ [(rel, frames)]),
      engine_read = (\<lambda>s n. (replicate (512 * n) 7, s))\<rparr>"

definition demo_mmc_world :: "(u8 \<times> (bool \<times> bytes) list) mmc_world" where
  "demo_mmc_world = \<lparr>hwpart = (\<lambda>_. 0), mmc_env = (0, [])\<rparr>"

lemma demo_mmc_ok: "mmc_ok demo_mmc 1 demo_card" "mmc_never_fails demo_mmc 1" "synced demo_card 1 demo_mmc_world"
  by (auto simp: mmc_ok_def switch_ok_def request_ok_def response_ok_def mmc_never_fails_def demo_mmc_def demo_card_def demo_mmc_world_def synced_def)

lemma uboot_rpmb_storage_send_refines_witness:
  "returns (\<lambda>res w'. hwpart w' 1 = 0 \<and> mmc_env w' = (0, [(True, replicate 512 5)]) \<and> res = (0, replicate 512 7))
    (uboot_rpmb_storage_send demo_mmc (replicate 512 5) 512 [] 0 512 demo_mmc_world)"
proof -
  have "on_ret (\<lambda>res w. fst res = 0) (uboot_rpmb_storage_send demo_mmc (replicate 512 5) 512 [] 0 512 demo_mmc_world)"
    by (rule uboot_rpmb_storage_send_never_fails [OF demo_mmc_ok(2,1)]) simp_all
  with uboot_rpmb_storage_send_refines [OF demo_mmc_ok(1,3), of "replicate 512 5" 512 "[]" 0 512] show ?thesis
    by (simp add: returns_iff)
       (auto simp: TRUSTY_ERR_GENERIC_def demo_mmc_world_def demo_card_def rpmb_access_def synced_def prod_eq_iff)
qed


text \<open>A request to write one block reliably and to read one.\<close>

abbreviation (input) demo_request :: bytes where
  "demo_request \<equiv> le32 512 @ le32 0 @ le32 512 @ le32 0 @ replicate 512 5"

definition demo_uboot_world :: "(u8 \<times> (bool \<times> bytes) list) mmc_world proxy_world" where
  "demo_uboot_world =
     \<lparr>env = demo_mmc_world, calls = [], shm = [0x1000 \<mapsto> replicate 4096 0, 0x3000 \<mapsto> replicate 4096 0],
      chans = [proxy_chan \<mapsto> demo_chan\<lparr>ch_ops := Proxy_ops, ch_handle := 3\<rparr>],
      rp_initialized = True, proxy_rpmb = 0,
      req_msg = \<lparr>sm_cmd = STORAGE_RPMB_SEND, sm_op_id = 1, sm_flags = 0, sm_size = 0, sm_result = 0,
        sm_reserved = 0\<rparr>,
      req_buf = put_bytes 0 demo_request (replicate 4096 0), read_buf = replicate 4096 0\<rparr>"

lemma demo_uboot_world_ok: "proxy_ok demo_uboot_world"
  by (auto simp: proxy_ok_def demo_uboot_world_def chans_ok_def demo_chan_def idev_ok_def dev_ready_def
      demo_idev_def demo_dev_def PAGE_SIZE_def)

lemma demo_uboot_request:
  "storage_rpmb_send_req_of_bytes (req_buf demo_uboot_world) =
     \<lparr>rs_reliable_write_size = 512, rs_write_size = 0, rs_read_size = 512\<rparr>"
  "get_bytes 16 512 (req_buf demo_uboot_world) = replicate 512 5"
  by (simp_all add: storage_rpmb_send_req_of_bytes_def demo_uboot_world_def get_bytes_def put_bytes_def del: le_bytes_zero)

end
