(* ===== verification/Spec2Isabelle.thy ===== *)
theory Spec2Isabelle
  imports Libtipc Util Trusty_Mem Runner_Main Uboot_Storage
begin

text \<open>
  A verification of \<open>external/trusty\<close>: the library \<open>ql-tipc\<close>, with which a boot loader talks to the
  secure operating system Trusty, and the test runner, a small boot program that drives it.

  \<^bold>\<open>The program and how its parts interact.\<close> At the bottom a boot loader reaches Trusty by secure
  monitor calls. \<open>trusty_dev_common.c\<close> issues them: fast calls, standard calls, which may be busy,
  interrupted or idle and are then retried and restarted, and FF-A calls that share memory. On top of
  it \<open>ipc_dev.c\<close> exchanges commands with Trusty through one shared buffer. \<open>ipc.c\<close> makes channels out
  of the commands: it waits for events and dispatches them to the handlers of the channel they belong
  to. The clients use channels: the storage proxy \<open>rpmb_proxy.c\<close> answers storage requests of Trusty
  from its event handler, while \<open>avb.c\<close>, \<open>keymaster.c\<close> (with \<open>keymaster_serializable.c\<close>) and \<open>hwbcc.c\<close>
  send requests and wait for replies; during such a wait a storage request may be served.
  \<open>libtipc.c\<close> starts and stops all of it. The test runner supplies the functions a port has to supply
  (\<open>test-runner-sysdeps.c\<close>, \<open>arm64/trusty_mem.c\<close>) and talks to its host over virtual queues (\<open>virtio.c\<close>
  over the transports \<open>virtio-mmio.c\<close> and \<open>virtio-pci.c\<close>): the console \<open>virtio-console.c\<close> has ports, one of
  which carries the command line, the log and the exit status (\<open>test-runner-comm-port.c\<close>) and one the storage
  requests (\<open>test-runner-storage.c\<close>). Its main program \<open>test-runner.c\<close> fetches the command line and either
  brings up the library, tries the clients and holds a dialogue with a test server, or boots the next system
  (\<open>arm64/boot.c\<close>).

  \<^bold>\<open>Theories.\<close>
  \<^item> \<open>Tipc_Prelude\<close>: machine words, little-endian layout, byte regions, the outcome of a C function and
    the rules for it, and the interface \<open>wire_format\<close> of a fixed-width encoding.
  \<^item> \<open>Smc\<close>: call numbers and error codes, the platform parameter, the machine state with the record of
    all calls that leave the program, shared memory (\<open>smcall.h\<close>, \<open>sm_err.h\<close>, \<open>arm_ffa.h\<close>,
    \<open>sysdeps.h\<close>, \<open>arch/arm/trusty_dev.c\<close>), and a scripted platform on which the examples run.
  \<^item> \<open>Trusty_Dev\<close>: \<open>trusty_dev_common.c\<close>. The calling convention is an inductive relation
    \<open>sm_step\<close> over the record of calls; the theorems show that standard calls follow it with the
    lock and interrupt discipline, that they return when the monitor makes progress, and that memory
    sharing transmits the FF-A transaction it should.
  \<^item> \<open>Ipc_Dev\<close>: \<open>ipc_dev.c\<close>. The operations refine the abstract commands \<open>ipc_cmd\<close>; gather and scatter
    are inverse; no operation leaves the shared buffer; creation and shutdown account for all memory.
  \<^item> \<open>Ipc\<close>: \<open>ipc.c\<close>, with a table of handlers as parameter, since handlers call back into the layer. The
    locale \<open>handler_frame\<close> is the contract of handlers under which every operation keeps a relation.
  \<^item> \<open>Rpmb_Proxy\<close>: \<open>rpmb_proxy.c\<close>, which ties the knot with the table \<open>tipc_ops\<close>. Requests reach the
    RPMB device only when they are well formed, and the invariant \<open>proxy_ok\<close> is kept.
  \<^item> \<open>Uboot_Storage\<close>: the RPMB driver of the U-Boot example (\<open>examples/u-boot/storage_ops_uboot.c\<close>). It refines
    an access to the RPMB engine of the card, restores the partition, and serves the requests of the proxy.
  \<^item> \<open>Avb\<close>, \<open>Keymaster_Serializable\<close>, \<open>Keymaster\<close>, \<open>Hwbcc\<close>: the clients; exchanges, their error
    returns, encodings with round trips, reassembly of fragmented replies, chunked uploads, absence of
    leaks.
  \<^item> \<open>Libtipc\<close>: \<open>libtipc.c\<close>. A start that returns 0 leaves everything ready, a cooperative secure side
    makes it return 0, and the shutdown takes everything down.
  \<^item> \<open>Util\<close>: \<open>util.c\<close>. \<open>Trusty_Mem\<close>: the page attributes of the 64 and 32 bit ARM ports and of the test
    runner.
  \<^item> \<open>Runner_Sysdeps\<close>: the memory and string functions of the test runner, which are shown to be the
    region operations the model of the library uses, and its allocators.
  \<^item> \<open>Boot_Image\<close>: byte order reversal and the loader. \<open>Virtio\<close> and \<open>Virtio_Transport\<close>: the queues, with
    the locale \<open>transport\<close> as interface, which both transports interpret.
  \<^item> \<open>Virtio_Device\<close>: the operations of a device as one record and the locale \<open>device\<close> with their laws,
    an extension of \<open>transport\<close> that both transports interpret; runs of the host as a relation.
    \<open>Virtio_Console\<close>: the console driver; its invariant \<open>con_ok\<close>, control messages as abstract events on
    the ports, and the end of the scan for messages.
  \<^item> \<open>Runner_Comm\<close> and \<open>Runner_Storage\<close>: the two ports; how they are found and opened, what is sent over
    them and in which order. \<open>Console_Frame\<close>: the queues and buffers the console driver leaves alone, so
    that these results compose.
  \<^item> \<open>Runner_Main\<close>: the main program and its entry (\<open>arm64/arch.c\<close>). The console's state is part of the
    environment of the library's state; the theorems follow the command line from the static objects
    on, and the dialogue with the test server as the inductive relation \<open>session\<close>.

  \<^bold>\<open>Correspondence.\<close> Structures are records with the fields of the source, functions have the
  names of the source (with a prefix where the repository has several of one name: \<open>arm64_\<close>, \<open>arm_\<close>,
  \<open>runner_\<close>, \<open>mmio_\<close>, \<open>pci_\<close>). The long function \<open>boot\<close> of the main program is cut into one definition per
  stage, in the order of the code. A function takes the state and returns an \<open>outcome\<close>: \<open>Ret\<close> with the
  result and the new state, \<open>Abort\<close> for \<open>trusty_fatal\<close> and \<open>trusty_abort\<close>, \<open>Fault\<close> where the C program
  accesses memory outside of an object or is otherwise undefined, \<open>NoFuel\<close> when a loop has used up the
  iterations granted to it. State records extend one another from \<open>machine\<close> over \<open>world\<close>,
  \<open>proxy_world\<close>, \<open>client_world\<close> and \<open>hwbcc_world\<close> to \<open>tipc_world\<close>, as the components do.

  \<^bold>\<open>Parameters.\<close> The secure monitor with Trusty behind it and the functions of \<open>sysdeps.h\<close> are the
  record \<open>platform\<close>, the RPMB device is \<open>rpmb_impl\<close>, the processor's translation instructions are \<open>mmu\<close>,
  the firmware device is \<open>fw_cfg\<close>, U-Boot's functions are \<open>uboot\<close>, the host of the test runner is \<open>host\<close>, and the record \<open>runner\<close> collects
  them for the main program, with the start of the secondary processors, which is assembler. What is assumed of them are
  named hypotheses: \<open>keeps_buffers\<close> (a monitor call does not create, remove or resize buffers),
  \<open>monitor_progress\<close>, \<open>host_ok\<close> (the host leaves descriptors and available rings alone),
  \<open>host_progress\<close> and \<open>vq_live\<close> (it takes buffers within the iterations granted), \<open>con_host\<close> (it names only ports
  that exist), \<open>leaves\<close> (it does not write into a buffer), \<open>mmc_ok\<close> and \<open>mmc_never_fails\<close>
  (U-Boot switches the partition and passes frames to the card as it says), \<open>offers\<close> (the device is found, accepts the features
  and has no more control messages than iterations are granted). Each has an instance among the examples.

  \<^bold>\<open>Bounds.\<close> The target is little-endian with 64 bit pointers; integers have their widths, and a C
  \<open>int\<close> is the integer it stands for. Loops that may run forever take their number of iterations from
  the field \<open>fuel\<close> of the platform (\<open>host_fuel\<close> of the host, \<open>rn_fuel\<close> of the main program); every safety statement holds for each value of it,
  and the termination theorems state how much is enough.

  \<^bold>\<open>Simplifications.\<close> \<open>trusty_assert\<close> is compiled out, as it is without \<open>TIPC_ENABLE_DEBUG\<close>; log output
  is dropped. Memory that is shared with the secure side changes at monitor calls only, queues of the
  test runner at register accesses and polls only. The buffers of an iovec are distinct objects whose
  contents are passed and returned as values; heap objects are addresses in the record of calls, their
  contents are values. The channels of the clients are at fixed distinct addresses. A failed \<open>assert\<close>
  of the test runner is an \<open>Abort\<close>.

  \<^bold>\<open>Not modelled.\<close> The system functions of the U-Boot example (\<open>sysdeps_uboot.c\<close>) forward to functions outside
  of the repository. The assembler
  of the test runner, the attribute macros and the functions of the test runner whose bodies are empty or
  only end the run have no behaviour that could be stated. In the test runner the storage driver that the
  proxy calls is \<open>rpmb_storage_send\<close> of \<open>test-runner-storage.c\<close>; it is modelled and verified on its own, while
  the main program takes the driver as a parameter, since a failed assertion in it would end the run inside
  of the proxy. A failed \<open>assert\<close> in the sources prints a message and goes on; the model stops there.
  Processors beside the first are modelled one at a time.
\<close>

end
